theory Spec2Isabelle
  imports Complex_Main "HOL-Library.AList"
begin

section \<open>Storage nodes, paths and the file system\<close>

text \<open>
  The coordinator of \<^verbatim>\<open>server.py\<close> keeps chunk payloads as regular files in one
  directory per storage node and a catalog in an SQLite database. A Python \<^verbatim>\<open>bytes\<close>
  value is a list of 8-bit characters, which is what a HOL \<open>string\<close> is. The file
  system is an association list from the path string the program built to the file's
  content; only regular files are entries, a directory is implied by the paths below it.
  The three node directories are created when the module is loaded (lines 55 to 57) and
  nothing in the program removes them, so listing one never fails here.
\<close>

type_synonym bytes = string
type_synonym path = string
type_synonym node = string
type_synonym filesystem = "(path \<times> bytes) list"

definition CHUNK_SIZE :: nat where
  "CHUNK_SIZE = 4 * 1024 * 1024"

definition HEARTBEAT_THRESHOLD :: int where
  "HEARTBEAT_THRESHOLD = 40"

definition UPLOAD_FOLDERS :: "(node \<times> path) list" where
  "UPLOAD_FOLDERS =
     [(''Node1'', ''./storage_node1''),
      (''Node2'', ''./storage_node2''),
      (''Node3'', ''./storage_node3'')]"

text \<open>\<^verbatim>\<open>os.path.join\<close>, \<^verbatim>\<open>os.path.basename\<close> and \<^verbatim>\<open>os.path.dirname\<close> of posixpath.\<close>

definition os_path_join :: "path \<Rightarrow> path \<Rightarrow> path" where
  "os_path_join a b =
     (if b \<noteq> [] \<and> hd b = CHR ''/'' then b
      else if a = [] \<or> last a = CHR ''/'' then a @ b
      else a @ ''/'' @ b)"

definition os_path_basename :: "path \<Rightarrow> path" where
  "os_path_basename p = rev (takeWhile (\<lambda>c. c \<noteq> CHR ''/'') (rev p))"

definition os_path_dirname :: "path \<Rightarrow> path" where
  "os_path_dirname p =
     (let head = rev (dropWhile (\<lambda>c. c \<noteq> CHR ''/'') (rev p))
      in if head \<noteq> [] \<and> \<not> list_all (\<lambda>c. c = CHR ''/'') head
         then rev (dropWhile (\<lambda>c. c = CHR ''/'') (rev head))
         else head)"

definition startswith :: "string \<Rightarrow> string \<Rightarrow> bool" where
  "startswith s pre = (take (length pre) s = pre)"

definition os_path_exists :: "filesystem \<Rightarrow> path \<Rightarrow> bool" where
  "os_path_exists fs p = (map_of fs p \<noteq> None)"

definition write_file :: "path \<Rightarrow> bytes \<Rightarrow> filesystem \<Rightarrow> filesystem" where
  "write_file p b fs = AList.update p b fs"

definition os_remove :: "path \<Rightarrow> filesystem \<Rightarrow> filesystem" where
  "os_remove p fs = AList.delete p fs"

subsection \<open>Placement: \<^verbatim>\<open>get_node_usage\<close> and \<^verbatim>\<open>select_storage_node\<close>\<close>

text \<open>
  \<^verbatim>\<open>get_node_usage\<close> sums \<^verbatim>\<open>os.path.getsize\<close> over the regular files that
  \<^verbatim>\<open>os.listdir(folder)\<close> returns, that is the files directly in the node's directory.
  \<^verbatim>\<open>usage_percentage\<close> is the Python float \<^verbatim>\<open>(used_space / total_capacity) * 100\<close>;
  it is modelled by the exact rational. Float division by the constant capacity and
  multiplication by 100 are monotone, and two byte counts below \<open>2 ^ 49\<close> that differ
  give quotients further apart than a rounding step, so the float comparison made by
  \<^verbatim>\<open>min\<close> agrees with the exact one on every directory size a node can hold.
\<close>

definition total_capacity :: nat where
  "total_capacity = 500 * 1024 * 1024"

definition used_space :: "path \<Rightarrow> filesystem \<Rightarrow> nat" where
  "used_space folder fs =
     sum_list (map (\<lambda>(p, b). length b) (filter (\<lambda>(p, b). os_path_dirname p = folder) fs))"

record node_stats =
  available_space :: int
  usage_percentage :: rat

definition get_node_usage :: "(node \<times> path) list \<Rightarrow> filesystem \<Rightarrow> (node \<times> node_stats) list" where
  "get_node_usage upload_folders fs =
     map (\<lambda>(node, folder).
            (node, \<lparr>available_space = int total_capacity - int (used_space folder fs),
                    usage_percentage = (of_nat (used_space folder fs) / of_nat total_capacity) * 100\<rparr>))
         upload_folders"

datatype error =
    NoFileProvided
  | EmptyFileProvided
  | IsADirectoryError
  | NoSuitableNodes
  | IntegrityError
  | OperationalError
  | RuntimeError
  | TypeError
  | NameError
  | IndexError
  | FileNotFoundError
  | InvalidToken
  | ZlibError
  | KeyError
  | ChunkCorruptedOrMissing nat
  | FileNotFound404
  | NoChunksFound404
  | VersionNotFound404
  | NodeNotFound404

text \<open>
  Python's \<^verbatim>\<open>min(iterable, key=...)\<close> keeps the first element whose key is minimal:
  a later element replaces the current best only when its key is strictly smaller.
\<close>

fun py_min_from :: "('a \<Rightarrow> 'k::linorder) \<Rightarrow> 'a \<Rightarrow> 'a list \<Rightarrow> 'a" where
  "py_min_from key best [] = best"
| "py_min_from key best (x # xs) = py_min_from key (if key x < key best then x else best) xs"

definition select_storage_node ::
  "nat \<Rightarrow> (node \<times> path) list \<Rightarrow> node list \<Rightarrow> filesystem \<Rightarrow> error + node" where
  "select_storage_node chunk_size upload_folders excluded_nodes fs =
     (let usage = get_node_usage upload_folders fs;
          available_nodes =
            filter (\<lambda>(node, stats). node \<notin> set excluded_nodes \<and> available_space stats \<ge> int chunk_size)
                   usage
      in case available_nodes of
           [] \<Rightarrow> Inl NoSuitableNodes
         | first # others \<Rightarrow> Inr (fst (py_min_from (\<lambda>x. usage_percentage (snd x)) first others)))"

text \<open>The quantities the placement rule is stated with.\<close>

definition available :: "path \<Rightarrow> filesystem \<Rightarrow> int" where
  "available folder fs = int total_capacity - int (used_space folder fs)"

definition usage_fraction :: "path \<Rightarrow> filesystem \<Rightarrow> rat" where
  "usage_fraction folder fs = of_nat (used_space folder fs) / of_nat total_capacity"

definition candidate :: "nat \<Rightarrow> node list \<Rightarrow> filesystem \<Rightarrow> (node \<times> path) \<Rightarrow> bool" where
  "candidate chunk_size excluded_nodes fs np =
     (fst np \<notin> set excluded_nodes \<and> available (snd np) fs \<ge> int chunk_size)"


subsection \<open>The placement rule\<close>

lemma py_min_from_cases:
  "(py_min_from key b xs = b \<and> (\<forall>x\<in>set xs. key b \<le> key x)) \<or>
   (\<exists>pre post. xs = pre @ py_min_from key b xs # post \<and>
      key (py_min_from key b xs) < key b \<and>
      (\<forall>x\<in>set pre. key (py_min_from key b xs) < key x) \<and>
      (\<forall>x\<in>set post. key (py_min_from key b xs) \<le> key x))"
proof (induction xs arbitrary: b)
  case Nil
  then show ?case by simp
next
  case (Cons x xs)
  define b' where "b' = (if key x < key b then x else b)"
  define r where "r = py_min_from key b' xs"
  have r: "py_min_from key b (x # xs) = r" by (simp add: r_def b'_def)
  have b': "key b' \<le> key b" "key b' \<le> key x" by (auto simp: b'_def)
  from Cons.IH[of b'] have
    "(r = b' \<and> (\<forall>y\<in>set xs. key b' \<le> key y)) \<or>
     (\<exists>pre post. xs = pre @ r # post \<and> key r < key b' \<and>
        (\<forall>y\<in>set pre. key r < key y) \<and> (\<forall>y\<in>set post. key r \<le> key y))"
    by (simp add: r_def)
  then show ?case
  proof
    assume h: "r = b' \<and> (\<forall>y\<in>set xs. key b' \<le> key y)"
    show ?thesis
    proof (cases "key x < key b")
      case True
      then have "r = x" using h by (simp add: b'_def)
      then have "x # xs = [] @ r # xs \<and> key r < key b \<and> (\<forall>y\<in>set []. key r < key y)
                 \<and> (\<forall>y\<in>set xs. key r \<le> key y)"
        using True h by simp
      then show ?thesis unfolding r by blast
    next
      case False
      then have "r = b" using h by (simp add: b'_def)
      then show ?thesis unfolding r using h False by (auto simp: b'_def)
    qed
  next
    assume "\<exists>pre post. xs = pre @ r # post \<and> key r < key b' \<and>
        (\<forall>y\<in>set pre. key r < key y) \<and> (\<forall>y\<in>set post. key r \<le> key y)"
    then obtain pre post where p: "xs = pre @ r # post" "key r < key b'"
        "\<forall>y\<in>set pre. key r < key y" "\<forall>y\<in>set post. key r \<le> key y" by blast
    have "x # xs = (x # pre) @ r # post \<and> key r < key b \<and>
          (\<forall>y\<in>set (x # pre). key r < key y) \<and> (\<forall>y\<in>set post. key r \<le> key y)"
      using p b' by auto
    then show ?thesis unfolding r by blast
  qed
qed

lemma py_min_from_split:
  "\<exists>pre post. b # xs = pre @ py_min_from key b xs # post \<and>
      (\<forall>x\<in>set pre. key (py_min_from key b xs) < key x) \<and>
      (\<forall>x\<in>set post. key (py_min_from key b xs) \<le> key x)"
proof -
  from py_min_from_cases[of key b xs] show ?thesis
  proof
    assume h: "py_min_from key b xs = b \<and> (\<forall>x\<in>set xs. key b \<le> key x)"
    then have "b # xs = [] @ py_min_from key b xs # xs \<and>
       (\<forall>x\<in>set []. key (py_min_from key b xs) < key x) \<and>
       (\<forall>x\<in>set xs. key (py_min_from key b xs) \<le> key x)" by simp
    then show ?thesis by blast
  next
    assume "\<exists>pre post. xs = pre @ py_min_from key b xs # post \<and>
      key (py_min_from key b xs) < key b \<and>
      (\<forall>x\<in>set pre. key (py_min_from key b xs) < key x) \<and>
      (\<forall>x\<in>set post. key (py_min_from key b xs) \<le> key x)"
    then obtain pre post where p: "xs = pre @ py_min_from key b xs # post"
      "key (py_min_from key b xs) < key b"
      "\<forall>x\<in>set pre. key (py_min_from key b xs) < key x"
      "\<forall>x\<in>set post. key (py_min_from key b xs) \<le> key x" by blast
    have "b # xs = (b # pre) @ py_min_from key b xs # post \<and>
       (\<forall>x\<in>set (b # pre). key (py_min_from key b xs) < key x) \<and>
       (\<forall>x\<in>set post. key (py_min_from key b xs) \<le> key x)"
      using p by auto
    then show ?thesis by blast
  qed
qed

lemma filter_eq_split:
  "filter P ys = pre @ r # post \<Longrightarrow>
   \<exists>us vs. ys = us @ r # vs \<and> filter P us = pre \<and> filter P vs = post \<and> P r"
proof (induction ys arbitrary: pre)
  case Nil
  then show ?case by simp
next
  case (Cons y ys)
  show ?case
  proof (cases "P y")
    case False
    with Cons.prems have "filter P ys = pre @ r # post" by simp
    from Cons.IH[OF this] obtain us vs where
      "ys = us @ r # vs" "filter P us = pre" "filter P vs = post" "P r" by blast
    then have "y # ys = (y # us) @ r # vs \<and> filter P (y # us) = pre \<and> filter P vs = post \<and> P r"
      using False by simp
    then show ?thesis by blast
  next
    case True
    show ?thesis
    proof (cases pre)
      case Nil
      with Cons.prems True have "y = r" "filter P ys = post" by simp_all
      then have "y # ys = [] @ r # ys \<and> filter P [] = pre \<and> filter P ys = post \<and> P r"
        using Nil True by simp
      then show ?thesis by blast
    next
      case (Cons a pre')
      with Cons.prems True have "y = a" "filter P ys = pre' @ r # post" by simp_all
      from Cons.IH[OF this(2)] obtain us vs where
        "ys = us @ r # vs" "filter P us = pre'" "filter P vs = post" "P r" by blast
      then have "y # ys = (y # us) @ r # vs \<and> filter P (y # us) = pre \<and> filter P vs = post \<and> P r"
        using True Cons \<open>y = a\<close> by simp
      then show ?thesis by blast
    qed
  qed
qed


lemma py_min_from_map:
  "py_min_from key (g b) (map g xs) = g (py_min_from (\<lambda>x. key (g x)) b xs)"
  by (induction xs arbitrary: b) auto

lemma stats_key:
  "usage_percentage (snd ((\<lambda>(node, folder).
            (node, \<lparr>available_space = int total_capacity - int (used_space folder fs),
                    usage_percentage = (of_nat (used_space folder fs) / of_nat total_capacity) * 100\<rparr>)) np))
   = usage_fraction (snd np) fs * 100"
  by (cases np) (simp add: usage_fraction_def)

lemma available_nodes_eq:
  "filter (\<lambda>(node, stats). node \<notin> set E \<and> available_space stats \<ge> int S)
          (get_node_usage folders fs)
   = map (\<lambda>(node, folder).
            (node, \<lparr>available_space = int total_capacity - int (used_space folder fs),
                    usage_percentage = (of_nat (used_space folder fs) / of_nat total_capacity) * 100\<rparr>))
         (filter (candidate S E fs) folders)"
  unfolding get_node_usage_def filter_map
  by (rule arg_cong[where f="map _"], rule filter_cong)
     (auto simp: candidate_def available_def)

text \<open>
  Claim C7. For a chunk size \<open>S\<close> and an exclusion set \<open>E\<close>, \<^verbatim>\<open>select_storage_node\<close>
  returns a node outside \<open>E\<close> whose available space (the 500 MiB capacity minus the
  bytes of the regular files in its directory) is at least \<open>S\<close>, whose usage fraction is
  minimal among such nodes and strictly smaller than that of every such node listed before
  it (ties go to the earlier node of the fixed ordering); and it fails with an error
  exactly when no node outside \<open>E\<close> has that much space.
\<close>

theorem select_storage_node_placement:
  "case select_storage_node S folders E fs of
     Inl e \<Rightarrow> e = NoSuitableNodes \<and> (\<forall>np\<in>set folders. \<not> candidate S E fs np)
   | Inr n \<Rightarrow> \<exists>pre d post. folders = pre @ (n, d) # post \<and> candidate S E fs (n, d) \<and>
        (\<forall>np\<in>set pre. candidate S E fs np \<longrightarrow> usage_fraction d fs < usage_fraction (snd np) fs) \<and>
        (\<forall>np\<in>set post. candidate S E fs np \<longrightarrow> usage_fraction d fs \<le> usage_fraction (snd np) fs)"
proof (cases "filter (candidate S E fs) folders")
  case Nil
  then have "select_storage_node S folders E fs = Inl NoSuitableNodes"
    by (simp add: select_storage_node_def Let_def available_nodes_eq)
  moreover from Nil have "\<forall>np\<in>set folders. \<not> candidate S E fs np"
    by (simp add: filter_empty_conv)
  ultimately show ?thesis by simp
next
  case (Cons c cs)
  define g where "g = (\<lambda>(node::node, folder::path).
            (node, \<lparr>available_space = int total_capacity - int (used_space folder fs),
                    usage_percentage = (of_nat (used_space folder fs) / of_nat total_capacity) * 100\<rparr>))"
  define key where "key = (\<lambda>np::node \<times> path. usage_fraction (snd np) fs * 100)"
  define r where "r = py_min_from key c cs"
  have gfst: "fst (g np) = fst np" for np by (cases np) (simp add: g_def)
  have "select_storage_node S folders E fs
        = Inr (fst (py_min_from (\<lambda>x. usage_percentage (snd x)) (g c) (map g cs)))"
    using Cons by (simp add: select_storage_node_def Let_def available_nodes_eq g_def)
  also have "py_min_from (\<lambda>x. usage_percentage (snd x)) (g c) (map g cs)
             = g (py_min_from (\<lambda>x. usage_percentage (snd (g x))) c cs)"
    by (rule py_min_from_map)
  also have "(\<lambda>x. usage_percentage (snd (g x))) = key"
    unfolding g_def key_def using stats_key by blast
  finally have sel: "select_storage_node S folders E fs = Inr (fst r)"
    by (simp add: r_def gfst)
  from py_min_from_split[of c cs key] obtain pre' post' where
    sp: "c # cs = pre' @ r # post'"
        "\<forall>x\<in>set pre'. key r < key x" "\<forall>x\<in>set post'. key r \<le> key x"
    unfolding r_def by blast
  from filter_eq_split[of "candidate S E fs" folders pre' r post'] Cons sp(1)
  obtain us vs where
    fo: "folders = us @ r # vs" "filter (candidate S E fs) us = pre'"
        "filter (candidate S E fs) vs = post'" "candidate S E fs r"
    by metis
  have "\<forall>np\<in>set us. candidate S E fs np \<longrightarrow> usage_fraction (snd r) fs < usage_fraction (snd np) fs"
  proof (intro ballI impI)
    fix np assume "np \<in> set us" "candidate S E fs np"
    then have "np \<in> set pre'" using fo(2) by auto
    with sp(2) show "usage_fraction (snd r) fs < usage_fraction (snd np) fs"
      by (auto simp: key_def)
  qed
  moreover have "\<forall>np\<in>set vs. candidate S E fs np \<longrightarrow> usage_fraction (snd r) fs \<le> usage_fraction (snd np) fs"
  proof (intro ballI impI)
    fix np assume "np \<in> set vs" "candidate S E fs np"
    then have "np \<in> set post'" using fo(3) by auto
    with sp(3) show "usage_fraction (snd r) fs \<le> usage_fraction (snd np) fs"
      by (auto simp: key_def)
  qed
  moreover have "folders = us @ (fst r, snd r) # vs" "candidate S E fs (fst r, snd r)"
    using fo by simp_all
  ultimately show ?thesis unfolding sel by (simp del: prod.collapse) blast
qed


definition fs_demo :: filesystem where
  "fs_demo = [(''./storage_node1/a_chunk_0'', ''abcd''), (''./storage_node2/a_chunk_0'', ''ab''),
              (''./storage_node3/b_chunk_0'', ''xy'')]"

lemmas placement_defs =
  select_storage_node_def get_node_usage_def UPLOAD_FOLDERS_def used_space_def
  os_path_dirname_def total_capacity_def candidate_def available_def usage_fraction_def

theorem select_storage_node_placement_witness:
  "select_storage_node 3 UPLOAD_FOLDERS [] fs_demo = Inr ''Node2'' \<and>
   (\<exists>pre d post. UPLOAD_FOLDERS = pre @ (''Node2'', d) # post \<and>
       candidate 3 [] fs_demo (''Node2'', d) \<and>
       (\<forall>np\<in>set pre. candidate 3 [] fs_demo np \<longrightarrow>
            usage_fraction d fs_demo < usage_fraction (snd np) fs_demo) \<and>
       (\<forall>np\<in>set post. candidate 3 [] fs_demo np \<longrightarrow>
            usage_fraction d fs_demo \<le> usage_fraction (snd np) fs_demo)) \<and>
   select_storage_node 524287999 UPLOAD_FOLDERS [''Node2''] fs_demo = Inl NoSuitableNodes \<and>
   \<not> candidate 524287999 [''Node2''] fs_demo (''Node1'', ''./storage_node1'') \<and>
   \<not> candidate 524287999 [''Node2''] fs_demo (''Node2'', ''./storage_node2'') \<and>
   \<not> candidate 524287999 [''Node2''] fs_demo (''Node3'', ''./storage_node3'')"
proof -
  have a: "select_storage_node 3 UPLOAD_FOLDERS [] fs_demo = Inr ''Node2''"
    by (simp add: placement_defs fs_demo_def Let_def)
  have b: "select_storage_node 524287999 UPLOAD_FOLDERS [''Node2''] fs_demo = Inl NoSuitableNodes"
    by (simp add: placement_defs fs_demo_def Let_def)
  from select_storage_node_placement[where S=3 and folders=UPLOAD_FOLDERS and E="[]" and fs=fs_demo] a
  have c: "\<exists>pre d post. UPLOAD_FOLDERS = pre @ (''Node2'', d) # post \<and>
       candidate 3 [] fs_demo (''Node2'', d) \<and>
       (\<forall>np\<in>set pre. candidate 3 [] fs_demo np \<longrightarrow>
            usage_fraction d fs_demo < usage_fraction (snd np) fs_demo) \<and>
       (\<forall>np\<in>set post. candidate 3 [] fs_demo np \<longrightarrow>
            usage_fraction d fs_demo \<le> usage_fraction (snd np) fs_demo)"
    by simp
  from select_storage_node_placement[where S=524287999 and folders=UPLOAD_FOLDERS and E="[''Node2'']" and fs=fs_demo] b
  have d: "\<forall>np\<in>set UPLOAD_FOLDERS. \<not> candidate 524287999 [''Node2''] fs_demo np"
    by simp
  from a b c d show ?thesis by (simp add: UPLOAD_FOLDERS_def)
qed

section \<open>Libraries and environment\<close>

text \<open>
  \<^verbatim>\<open>zlib\<close>, \<^verbatim>\<open>cryptography.fernet\<close>, \<^verbatim>\<open>hashlib\<close> and
  \<^verbatim>\<open>werkzeug.utils.secure_filename\<close> are libraries, not code of the repository; the
  model takes them as parameters. \<^verbatim>\<open>Fernet.encrypt\<close> draws a fresh IV and reads the
  clock, so it gets a nonce argument. A failed decryption (\<^verbatim>\<open>InvalidToken\<close>) or
  decompression (\<^verbatim>\<open>zlib.error\<close>) is the value \<open>None\<close>.
\<close>

record externals =
  zlib_compress :: "bytes \<Rightarrow> bytes"
  zlib_decompress :: "bytes \<Rightarrow> bytes option"
  fernet_encrypt :: "nat \<Rightarrow> bytes \<Rightarrow> bytes"
  fernet_decrypt :: "bytes \<Rightarrow> bytes option"
  sha256_hexdigest :: "bytes \<Rightarrow> string"
  secure_filename :: "string \<Rightarrow> string"

definition compress_data :: "externals \<Rightarrow> bytes \<Rightarrow> bytes" where
  "compress_data L data = zlib_compress L data"

definition decompress_data :: "externals \<Rightarrow> bytes \<Rightarrow> error + bytes" where
  "decompress_data L data = (case zlib_decompress L data of None \<Rightarrow> Inl ZlibError | Some d \<Rightarrow> Inr d)"

definition encrypt_and_compress_data :: "externals \<Rightarrow> nat \<Rightarrow> bytes \<Rightarrow> bytes" where
  "encrypt_and_compress_data L nonce data = fernet_encrypt L nonce (compress_data L data)"

definition decrypt_and_decompress_data :: "externals \<Rightarrow> bytes \<Rightarrow> error + bytes" where
  "decrypt_and_decompress_data L data =
     (case fernet_decrypt L data of
        None \<Rightarrow> Inl InvalidToken
      | Some decrypted_data \<Rightarrow> decompress_data L decrypted_data)"

definition calculate_hash :: "externals \<Rightarrow> bytes \<Rightarrow> string" where
  "calculate_hash L data = sha256_hexdigest L data"

text \<open>What the libraries promise: decryption inverts encryption, inflating inverts deflating.\<close>

definition library_contract :: "externals \<Rightarrow> bool" where
  "library_contract L =
     ((\<forall>nonce d. fernet_decrypt L (fernet_encrypt L nonce d) = Some d) \<and>
      (\<forall>d. zlib_decompress L (zlib_compress L d) = Some d))"

text \<open>Python's \<^verbatim>\<open>str\<close> of a non-negative integer, as the f-strings of chunk names use it.\<close>

definition digit_char :: "nat \<Rightarrow> char" where
  "digit_char k = ''0123456789'' ! k"

function str_nat :: "nat \<Rightarrow> string" where
  "str_nat n = (if n < 10 then [digit_char n] else str_nat (n div 10) @ [digit_char (n mod 10)])"
  by pat_completeness auto
termination
  by (relation "measure (\<lambda>n. n)") auto

declare str_nat.simps [simp del]

definition chunk_filename :: "string \<Rightarrow> nat \<Rightarrow> string" where
  "chunk_filename name chunk_index = name @ ''_chunk_'' @ str_nat chunk_index"

text \<open>The read loop \<^verbatim>\<open>while True: chunk_data = f.read(n); if not chunk_data: break\<close>.\<close>

function read_chunks :: "nat \<Rightarrow> bytes \<Rightarrow> bytes list" where
  "read_chunks n data =
     (if n = 0 \<or> data = [] then [] else take n data # read_chunks n (drop n data))"
  by pat_completeness auto
termination
  by (relation "measure (\<lambda>(n, data). length data)") auto

declare read_chunks.simps [simp del]

section \<open>The catalog\<close>

text \<open>
  The tables of \<^verbatim>\<open>db_setup.py\<close> that the operations below read or write, one record per
  row with the columns those operations use. Timestamps are microseconds on the clock of
  \<^verbatim>\<open>datetime.now()\<close>. \<^verbatim>\<open>compression_ratio\<close>, a float derived from the two sizes, is
  not kept. An \<^verbatim>\<open>AUTOINCREMENT\<close> key is the table's sequence counter plus one.
\<close>

datatype chunk_status = Pending | Active | Deprecated | Archived

datatype tier = Hot | Warm | Cold

record metadata_row =
  m_id :: nat
  m_filename :: string
  m_current_version :: nat
  m_size :: nat
  m_compressed_size :: nat
  m_upload_timestamp :: int
  m_location :: node
  m_replicas :: "node list"
  m_storage_tier :: tier
  m_last_accessed :: "int option"
  m_access_count :: nat
  m_is_archived :: bool
  m_archive_date :: "int option"
  m_content_hash :: "string option"
  m_deduplication_ref :: "nat option"

record version_row =
  v_file_id :: nat
  v_version_number :: nat
  v_timestamp :: int
  v_size :: nat
  v_compressed_size :: nat
  v_hash :: string

record chunk_row =
  c_id :: nat
  c_file_id :: nat
  c_version_number :: nat
  c_chunk_index :: nat
  c_chunk_location :: path
  c_original_size :: nat
  c_compressed_size :: nat
  c_chunk_hash :: string
  c_status :: chunk_status

record version_change_row =
  vc_file_id :: nat
  vc_old_version :: nat
  vc_new_version :: nat
  vc_change_type :: string
  vc_timestamp :: int

record deduplication_row =
  d_content_hash :: string
  d_reference_count :: nat
  d_total_space_saved :: nat
  d_last_reference :: int

record archive_row =
  a_file_id :: nat
  a_archive_date :: int
  a_archive_location :: path
  a_archive_size :: nat
  a_restore_count :: nat
  a_last_restore_date :: "int option"

record database =
  metadata :: "metadata_row list"
  metadata_seq :: nat
  versions :: "version_row list"
  chunks :: "chunk_row list"
  chunks_seq :: nat
  version_changes :: "version_change_row list"
  deduplication :: "deduplication_row list"
  archives :: "archive_row list"
  storage_tiers :: "(tier \<times> nat) list"

text \<open>
  The state of the coordinator: the node directories, its working directories
  (\<^verbatim>\<open>temp\<close> and \<^verbatim>\<open>temp_downloads\<close> under the current directory, which no node
  directory contains), the catalog and the global \<^verbatim>\<open>node_heartbeats\<close> dictionary.
\<close>

record state =
  fs :: filesystem
  workdir :: filesystem
  db :: database
  node_heartbeats :: "(node \<times> int) list"

definition insert_chunk :: "chunk_row \<Rightarrow> database \<Rightarrow> database" where
  "insert_chunk row d =
     d\<lparr>chunks := chunks d @ [row\<lparr>c_id := chunks_seq d + 1\<rparr>], chunks_seq := chunks_seq d + 1\<rparr>"

section \<open>Replication\<close>

text \<open>
  One pass of the loop body of \<^verbatim>\<open>replicate_chunk\<close>. Every exception inside the
  \<^verbatim>\<open>try\<close> is caught and the loop continues, so a failed selection or copy leaves the
  three loop variables as they were; so does the \<^verbatim>\<open>continue\<close> taken when the replica
  file already exists.
\<close>

definition replica_round ::
  "path \<Rightarrow> nat \<Rightarrow> (node \<times> path) list \<Rightarrow> path list \<times> node list \<times> filesystem
     \<Rightarrow> path list \<times> node list \<times> filesystem" where
  "replica_round chunk_path chunk_size upload_folders acc =
     (case acc of (replica_locations, excluded_nodes, f) \<Rightarrow>
        (case select_storage_node chunk_size upload_folders excluded_nodes f of
           Inl e \<Rightarrow> acc
         | Inr replica_node \<Rightarrow>
             (case map_of upload_folders replica_node of
                None \<Rightarrow> acc
              | Some replica_folder \<Rightarrow>
                  let replica_path = os_path_join replica_folder (os_path_basename chunk_path)
                  in if os_path_exists f replica_path then acc
                     else (case map_of f chunk_path of
                             None \<Rightarrow> acc
                           | Some content \<Rightarrow>
                               (replica_locations @ [replica_path],
                                excluded_nodes @ [replica_node],
                                write_file replica_path content f)))))"

definition replicate_chunk ::
  "path \<Rightarrow> (node \<times> path) list \<Rightarrow> filesystem \<Rightarrow> (error + path list) \<times> filesystem" where
  "replicate_chunk chunk_path upload_folders f =
     (case map_of f chunk_path of
        None \<Rightarrow> (Inl FileNotFoundError, f)
      | Some content \<Rightarrow>
          let chunk_size = length content;
              original_node = find (\<lambda>(node, folder). startswith chunk_path folder) upload_folders;
              excluded_nodes = (case original_node of Some (node, folder) \<Rightarrow> [node] | None \<Rightarrow> []);
              acc1 = replica_round chunk_path chunk_size upload_folders ([], excluded_nodes, f);
              acc2 = replica_round chunk_path chunk_size upload_folders acc1
          in (Inr (fst acc2), snd (snd acc2)))"

section \<open>Upload\<close>

text \<open>
  The chunk loop of \<^verbatim>\<open>upload_file\<close> (lines 1476 to 1501). The result carries the error
  that ended the loop, if any, and the \<^verbatim>\<open>chunks\<close> list as it stood then, which the
  handler's \<^verbatim>\<open>except\<close> branch uses to remove the files written.
\<close>

fun store_chunks ::
  "externals \<Rightarrow> (nat \<Rightarrow> nat) \<Rightarrow> string \<Rightarrow> nat \<Rightarrow> bytes list \<Rightarrow> filesystem
     \<Rightarrow> error option \<times> (nat \<times> path) list \<times> nat \<times> filesystem" where
  "store_chunks L rnd name chunk_index [] f = (None, [], 0, f)"
| "store_chunks L rnd name chunk_index (chunk_data # rest) f =
     (let processed_chunk = encrypt_and_compress_data L (rnd chunk_index) chunk_data;
          chunk_size = length processed_chunk
      in case select_storage_node chunk_size UPLOAD_FOLDERS [] f of
           Inl e \<Rightarrow> (Some e, [], 0, f)
         | Inr target_node \<Rightarrow>
             (case map_of UPLOAD_FOLDERS target_node of
                None \<Rightarrow> (Some KeyError, [], 0, f)
              | Some target_folder \<Rightarrow>
                  let chunk_path = os_path_join target_folder (chunk_filename name chunk_index);
                      f' = write_file chunk_path processed_chunk f
                  in case store_chunks L rnd name (chunk_index + 1) rest f' of
                       (err, chunk_list, total_size, f'') \<Rightarrow>
                         (err, (chunk_index, chunk_path) # chunk_list, chunk_size + total_size, f'')))"

definition cleanup_chunks :: "(nat \<times> path) list \<Rightarrow> filesystem \<Rightarrow> filesystem" where
  "cleanup_chunks chunk_list f = fold (\<lambda>(i, p) g. if os_path_exists g p then os_remove p g else g) chunk_list f"

text \<open>
  The second loop (lines 1566 to 1599): read each chunk file back, hash it, insert the
  primary row, replicate, insert one row per replica created. The file system is returned
  on both outcomes, since replicas written before an exception stay on disk.
\<close>

definition new_chunk_row :: "nat \<Rightarrow> nat \<Rightarrow> nat \<Rightarrow> path \<Rightarrow> nat \<Rightarrow> string \<Rightarrow> chunk_row" where
  "new_chunk_row file_id version chunk_index location chunk_size chunk_hash =
     \<lparr>c_id = 0, c_file_id = file_id, c_version_number = version, c_chunk_index = chunk_index,
      c_chunk_location = location, c_original_size = CHUNK_SIZE, c_compressed_size = chunk_size,
      c_chunk_hash = chunk_hash, c_status = Active\<rparr>"

fun store_chunk_rows ::
  "externals \<Rightarrow> nat \<Rightarrow> nat \<Rightarrow> (nat \<times> path) list \<Rightarrow> filesystem \<Rightarrow> database \<Rightarrow> path list
     \<Rightarrow> (error + database \<times> path list) \<times> filesystem" where
  "store_chunk_rows L file_id new_version [] f d all_locations = (Inr (d, all_locations), f)"
| "store_chunk_rows L file_id new_version ((chunk_index, chunk_path) # rest) f d all_locations =
     (case map_of f chunk_path of
        None \<Rightarrow> (Inl FileNotFoundError, f)
      | Some chunk_data \<Rightarrow>
          let chunk_hash = calculate_hash L chunk_data;
              chunk_size = length chunk_data;
              d1 = insert_chunk (new_chunk_row file_id new_version chunk_index chunk_path
                                   chunk_size chunk_hash) d
          in case replicate_chunk chunk_path UPLOAD_FOLDERS f of
               (Inl e, f') \<Rightarrow> (Inl e, f')
             | (Inr replica_locations, f') \<Rightarrow>
                 let d2 = fold (\<lambda>replica_path. insert_chunk
                                  (new_chunk_row file_id new_version chunk_index replica_path
                                     chunk_size chunk_hash))
                               replica_locations d1
                 in store_chunk_rows L file_id new_version rest f' d2
                      (all_locations @ os_path_dirname chunk_path
                         # map os_path_dirname replica_locations))"

record upload_response =
  r_filename :: string
  r_version :: nat
  r_original_size :: nat
  r_compressed_size :: nat
  r_storage_nodes :: "node list"

text \<open>
  The catalog transaction of \<^verbatim>\<open>upload_file\<close> (lines 1504 to 1634). The
  \<^verbatim>\<open>versions\<close> table is \<^verbatim>\<open>UNIQUE(file_id, version_number)\<close>, so inserting a pair
  that is there raises \<^verbatim>\<open>sqlite3.IntegrityError\<close>.
\<close>

definition upload_transaction ::
  "externals \<Rightarrow> int \<Rightarrow> string \<Rightarrow> nat \<Rightarrow> nat \<Rightarrow> string \<Rightarrow> node \<Rightarrow> (nat \<times> path) list
     \<Rightarrow> filesystem \<Rightarrow> database \<Rightarrow> (error + database \<times> upload_response) \<times> filesystem" where
  "upload_transaction L now filename original_size total_compressed_size file_hash initial_node
       chunk_list f d =
     (let existing_file = find (\<lambda>m. m_filename m = filename) (metadata d);
          current_version = (case existing_file of Some m \<Rightarrow> m_current_version m | None \<Rightarrow> 0);
          new_version = (case existing_file of Some m \<Rightarrow> m_current_version m + 1 | None \<Rightarrow> 1);
          file_id = (case existing_file of Some m \<Rightarrow> m_id m | None \<Rightarrow> metadata_seq d + 1);
          d1 = (case existing_file of
                  None \<Rightarrow>
                    d\<lparr>metadata := metadata d @
                         [\<lparr>m_id = metadata_seq d + 1, m_filename = filename,
                           m_current_version = new_version, m_size = original_size,
                           m_compressed_size = total_compressed_size, m_upload_timestamp = now,
                           m_location = initial_node, m_replicas = [], m_storage_tier = Hot,
                           m_last_accessed = None, m_access_count = 0, m_is_archived = False,
                           m_archive_date = None, m_content_hash = None,
                           m_deduplication_ref = None\<rparr>],
                      metadata_seq := metadata_seq d + 1\<rparr>
                | Some m \<Rightarrow>
                    d\<lparr>metadata := map (\<lambda>r. if m_id r = file_id
                                             then r\<lparr>m_current_version := new_version,
                                                    m_size := original_size,
                                                    m_compressed_size := total_compressed_size,
                                                    m_upload_timestamp := now,
                                                    m_location := initial_node\<rparr>
                                             else r) (metadata d)\<rparr>)
      in if \<exists>v \<in> set (versions d1). v_file_id v = file_id \<and> v_version_number v = new_version
         then (Inl IntegrityError, f)
         else
           let d2 = d1\<lparr>versions := versions d1 @
                         [\<lparr>v_file_id = file_id, v_version_number = new_version, v_timestamp = now,
                           v_size = original_size, v_compressed_size = total_compressed_size,
                           v_hash = file_hash\<rparr>]\<rparr>
           in case store_chunk_rows L file_id new_version chunk_list f d2 [] of
                (Inl e, f') \<Rightarrow> (Inl e, f')
              | (Inr (d3, all_locations), f') \<Rightarrow>
                  let storage_nodes = map fst (filter (\<lambda>(node, folder). folder \<in> set all_locations)
                                                   UPLOAD_FOLDERS);
                      d4 = d3\<lparr>metadata := map (\<lambda>r. if m_id r = file_id
                                                     then r\<lparr>m_replicas := storage_nodes\<rparr> else r)
                                               (metadata d3)\<rparr>;
                      d5 = d4\<lparr>version_changes := version_changes d4 @
                                [\<lparr>vc_file_id = file_id, vc_old_version = current_version,
                                  vc_new_version = new_version,
                                  vc_change_type = (if existing_file \<noteq> None then ''update''
                                                    else ''create''),
                                  vc_timestamp = now\<rparr>]\<rparr>
                  in (Inr (d5, \<lparr>r_filename = filename, r_version = new_version,
                                r_original_size = original_size,
                                r_compressed_size = total_compressed_size,
                                r_storage_nodes = storage_nodes\<rparr>), f'))"

text \<open>
  \<^verbatim>\<open>upload_file\<close>, with the part that runs once the upload is saved as
  \<open>upload_saved\<close>. The request carries a file (its client-side name and its bytes) or
  none. A \<^verbatim>\<open>FileStorage\<close> is falsy when its filename is empty. The upload is saved as
  \<^verbatim>\<open>temp/<secure name>\<close>; with an empty secure name that path is the directory and
  saving raises. Any exception after that removes the chunk files of \<^verbatim>\<open>chunks\<close>, the
  catalog transaction is rolled back, and the \<^verbatim>\<open>finally\<close> clause removes the temp file.
\<close>

definition upload_saved ::
  "externals \<Rightarrow> (nat \<Rightarrow> nat) \<Rightarrow> int \<Rightarrow> string \<Rightarrow> bytes \<Rightarrow> state
     \<Rightarrow> (error + upload_response) \<times> state" where
  "upload_saved L rnd now filename data st =
     (let temp_path = os_path_join ''temp'' (secure_filename L filename);
          st0 = st\<lparr>workdir := os_remove temp_path (write_file temp_path data (workdir st))\<rparr>;
          original_size = length data;
          file_hash = calculate_hash L data
      in case select_storage_node original_size UPLOAD_FOLDERS [] (fs st) of
           Inl e \<Rightarrow> (Inl e, st0)
         | Inr initial_node \<Rightarrow>
             (case store_chunks L rnd (secure_filename L filename) 0
                     (read_chunks CHUNK_SIZE data) (fs st) of
                (Some e, chunk_list, total_compressed_size, f1) \<Rightarrow>
                  (Inl e, st0\<lparr>fs := cleanup_chunks chunk_list f1\<rparr>)
              | (None, chunk_list, total_compressed_size, f1) \<Rightarrow>
                  (case upload_transaction L now filename original_size
                          total_compressed_size file_hash initial_node chunk_list f1 (db st) of
                     (Inl e, f2) \<Rightarrow> (Inl e, st0\<lparr>fs := cleanup_chunks chunk_list f2\<rparr>)
                   | (Inr (d', response), f2) \<Rightarrow>
                       (Inr response, st0\<lparr>fs := f2, db := d'\<rparr>))))"

definition upload_file ::
  "externals \<Rightarrow> (nat \<Rightarrow> nat) \<Rightarrow> int \<Rightarrow> (string \<times> bytes) option \<Rightarrow> state
     \<Rightarrow> (error + upload_response) \<times> state" where
  "upload_file L rnd now uploaded_file st =
     (case uploaded_file of
        None \<Rightarrow> (Inl NoFileProvided, st)
      | Some (filename, data) \<Rightarrow>
          if filename = [] then (Inl EmptyFileProvided, st)
          else if secure_filename L filename = [] then (Inl IsADirectoryError, st)
          else upload_saved L rnd now filename data st)"

section \<open>Download\<close>

text \<open>
  A \<^verbatim>\<open>sqlite3.Row\<close> is indexed by the column names of the query that produced it;
  indexing it with another name raises \<^verbatim>\<open>IndexError\<close>.
\<close>

type_synonym sqlite_row = "(string \<times> nat) list"

definition row_get :: "sqlite_row \<Rightarrow> string \<Rightarrow> error + nat" where
  "row_get row key = (case map_of row key of None \<Rightarrow> Inl IndexError | Some v \<Rightarrow> Inr v)"

text \<open>
  The first query of \<^verbatim>\<open>download_file\<close> (lines 1926 to 1944). \<^verbatim>\<open>if version:\<close> is false
  for a missing parameter and for 0. With a version the query selects
  \<^verbatim>\<open>m.id, v.version_number\<close>, without one \<^verbatim>\<open>id, current_version\<close>; line 1944 reads
  \<^verbatim>\<open>result['id']\<close> and \<^verbatim>\<open>result['current_version']\<close> from either row.
\<close>

definition download_lookup :: "string \<Rightarrow> int option \<Rightarrow> database \<Rightarrow> sqlite_row list" where
  "download_lookup filename version d =
     (let current =
            map (\<lambda>m. [(''id'', m_id m), (''current_version'', m_current_version m)])
                (filter (\<lambda>m. m_filename m = filename) (metadata d))
      in case version of
           None \<Rightarrow> current
         | Some ver \<Rightarrow>
             if ver = 0 then current
             else map (\<lambda>(m, v). [(''id'', m_id m), (''version_number'', v_version_number v)])
                      (filter (\<lambda>(m, v). m_id m = v_file_id v \<and> m_filename m = filename \<and>
                                          int (v_version_number v) = ver)
                              (List.product (metadata d) (versions d))))"

definition resolve_download :: "string \<Rightarrow> int option \<Rightarrow> database \<Rightarrow> error + nat \<times> nat" where
  "resolve_download filename version d =
     (case download_lookup filename version d of
        [] \<Rightarrow> Inl FileNotFound404
      | result # others \<Rightarrow>
          (case row_get result ''id'' of
             Inl e \<Rightarrow> Inl e
           | Inr file_id \<Rightarrow>
               (case row_get result ''current_version'' of
                  Inl e \<Rightarrow> Inl e
                | Inr version_number \<Rightarrow> Inr (file_id, version_number))))"

text \<open>
  The chunk query groups the active rows of the version by \<^verbatim>\<open>chunk_index\<close> and orders
  the groups by it. SQLite takes the bare columns \<^verbatim>\<open>chunk_location\<close> and
  \<^verbatim>\<open>chunk_hash\<close> from a row of the group that it does not specify: \<open>pick\<close> stands for
  that choice, and whatever it returns is used as an index into the group.
\<close>

definition download_chunks :: "(chunk_row list \<Rightarrow> nat) \<Rightarrow> nat \<Rightarrow> nat \<Rightarrow> database \<Rightarrow> chunk_row list" where
  "download_chunks pick file_id version_number d =
     (let rows = filter (\<lambda>c. c_file_id c = file_id \<and> c_version_number c = version_number \<and>
                              c_status c = Active) (chunks d)
      in map (\<lambda>i. let g = filter (\<lambda>c. c_chunk_index c = i) rows in g ! (pick g mod length g))
             (sort (remdups (map c_chunk_index rows))))"

fun find_replica :: "externals \<Rightarrow> filesystem \<Rightarrow> string \<Rightarrow> string \<Rightarrow> path list \<Rightarrow> bytes option" where
  "find_replica L f chunk_name expected_hash [] = None"
| "find_replica L f chunk_name expected_hash (node_folder # rest) =
     (case map_of f (os_path_join node_folder chunk_name) of
        None \<Rightarrow> find_replica L f chunk_name expected_hash rest
      | Some chunk_data \<Rightarrow>
          if calculate_hash L chunk_data = expected_hash then Some chunk_data
          else find_replica L f chunk_name expected_hash rest)"

definition read_valid_chunk :: "externals \<Rightarrow> filesystem \<Rightarrow> chunk_row \<Rightarrow> error + bytes" where
  "read_valid_chunk L f chunk =
     (let primary = (case map_of f (c_chunk_location chunk) of
                       None \<Rightarrow> None
                     | Some chunk_data \<Rightarrow>
                         if calculate_hash L chunk_data = c_chunk_hash chunk then Some chunk_data
                         else None)
      in case primary of
           Some chunk_data \<Rightarrow> Inr chunk_data
         | None \<Rightarrow>
             (case find_replica L f (os_path_basename (c_chunk_location chunk))
                     (c_chunk_hash chunk) (map snd UPLOAD_FOLDERS) of
                Some chunk_data \<Rightarrow> Inr chunk_data
              | None \<Rightarrow> Inl (ChunkCorruptedOrMissing (c_chunk_index chunk))))"

fun reassemble :: "externals \<Rightarrow> filesystem \<Rightarrow> chunk_row list \<Rightarrow> error + bytes" where
  "reassemble L f [] = Inr []"
| "reassemble L f (chunk # rest) =
     (case read_valid_chunk L f chunk of
        Inl e \<Rightarrow> Inl e
      | Inr chunk_data \<Rightarrow>
          (case decrypt_and_decompress_data L chunk_data of
             Inl e \<Rightarrow> Inl e
           | Inr decrypted_data \<Rightarrow>
               (case reassemble L f rest of
                  Inl e \<Rightarrow> Inl e
                | Inr output \<Rightarrow> Inr (decrypted_data @ output))))"

text \<open>
  \<^verbatim>\<open>download_file\<close>. The value returned on success is the content of the file sent.
  The reassembled file is \<^verbatim>\<open>temp_downloads/tmp_<filename>\<close>; it is still there when
  the handler returns and is removed by the \<^verbatim>\<open>except\<close> branch when reassembly fails.
\<close>

definition download_file ::
  "externals \<Rightarrow> (chunk_row list \<Rightarrow> nat) \<Rightarrow> string \<Rightarrow> int option \<Rightarrow> state
     \<Rightarrow> (error + bytes) \<times> state" where
  "download_file L pick filename version st =
     (case resolve_download filename version (db st) of
        Inl e \<Rightarrow> (Inl e, st)
      | Inr (file_id, version_number) \<Rightarrow>
          let chunk_list = download_chunks pick file_id version_number (db st)
          in if chunk_list = [] then (Inl NoChunksFound404, st)
             else
               let temp_path = os_path_join ''temp_downloads'' (''tmp_'' @ filename)
               in case reassemble L (fs st) chunk_list of
                    Inl e \<Rightarrow> (Inl e, st\<lparr>workdir := os_remove temp_path (workdir st)\<rparr>)
                  | Inr content \<Rightarrow>
                      (Inr content, st\<lparr>workdir := write_file temp_path content (workdir st)\<rparr>))"

section \<open>Rollback\<close>

datatype rollback_response = AlreadyAtRequestedVersion | RolledBack nat nat

definition rollback_version :: "string \<Rightarrow> nat \<Rightarrow> state \<Rightarrow> (error + rollback_response) \<times> state" where
  "rollback_version filename version st =
     (case filter (\<lambda>(m, v). m_id m = v_file_id v \<and> m_filename m = filename \<and>
                              v_version_number v = version)
                  (List.product (metadata (db st)) (versions (db st))) of
        [] \<Rightarrow> (Inl VersionNotFound404, st)
      | (m, v) # others \<Rightarrow>
          let file_id = m_id m;
              current_version = m_current_version m
          in if version = current_version then (Inr AlreadyAtRequestedVersion, st)
             else
               let d = db st;
                   d1 = d\<lparr>chunks := map (\<lambda>c. if c_file_id c = file_id \<and>
                                                 c_version_number c = current_version \<and>
                                                 c_status c = Active
                                              then c\<lparr>c_status := Deprecated\<rparr> else c) (chunks d)\<rparr>;
                   d2 = d1\<lparr>chunks := map (\<lambda>c. if c_file_id c = file_id \<and>
                                                  c_version_number c = version \<and>
                                                  c_status c = Deprecated
                                               then c\<lparr>c_status := Active\<rparr> else c) (chunks d1)\<rparr>;
                   d3 = d2\<lparr>metadata := map (\<lambda>r. if m_id r = file_id
                                                  then r\<lparr>m_current_version := version\<rparr> else r)
                                            (metadata d2)\<rparr>
               in (Inr (RolledBack current_version version), st\<lparr>db := d3\<rparr>))"

section \<open>Node verification\<close>

text \<open>
  SQLite's \<^verbatim>\<open>LIKE\<close>: \<^verbatim>\<open>%\<close> matches any run of characters, \<^verbatim>\<open>_\<close> any one
  character, and ASCII letters match without regard to case: two characters match when
  their codes agree after an upper-case letter's code is moved to the lower-case one.
\<close>

definition ascii_lower :: "char \<Rightarrow> nat" where
  "ascii_lower c = (let n = of_char c in if 65 \<le> n \<and> n \<le> 90 then n + 32 else n)"

fun sql_like :: "string \<Rightarrow> string \<Rightarrow> bool" where
  "sql_like [] [] = True"
| "sql_like [] (c # cs) = False"
| "sql_like (p # ps) [] = (p = CHR ''%'' \<and> sql_like ps [])"
| "sql_like (p # ps) (c # cs) =
     (if p = CHR ''%'' then sql_like ps (c # cs) \<or> sql_like (p # ps) cs
      else (p = CHR ''_'' \<or> ascii_lower p = ascii_lower c) \<and> sql_like ps cs)"

record verification_results =
  verified_chunks :: "nat list"
  corrupted_chunks :: "nat list"
  missing_chunks :: "nat list"

definition verify_chunk :: "externals \<Rightarrow> filesystem \<Rightarrow> verification_results \<Rightarrow> chunk_row \<Rightarrow> verification_results" where
  "verify_chunk L f res chunk =
     (case map_of f (c_chunk_location chunk) of
        None \<Rightarrow> res\<lparr>missing_chunks := missing_chunks res @ [c_id chunk]\<rparr>
      | Some content \<Rightarrow>
          if calculate_hash L content \<noteq> c_chunk_hash chunk
          then res\<lparr>corrupted_chunks := corrupted_chunks res @ [c_id chunk]\<rparr>
          else res\<lparr>verified_chunks := verified_chunks res @ [c_id chunk]\<rparr>)"

definition verify_node :: "externals \<Rightarrow> node \<Rightarrow> state \<Rightarrow> error + verification_results" where
  "verify_node L node_name st =
     (if node_name \<notin> set (map fst UPLOAD_FOLDERS) then Inl NodeNotFound404
      else Inr (foldl (verify_chunk L (fs st))
                  \<lparr>verified_chunks = [], corrupted_chunks = [], missing_chunks = []\<rparr>
                  (filter (\<lambda>c. sql_like (''%'' @ node_name @ ''%'') (c_chunk_location c) \<and>
                               c_status c = Active)
                          (chunks (db st)))))"

section \<open>Deduplication\<close>

text \<open>
  \<^verbatim>\<open>manage_deduplication\<close>: the query groups the rows of \<^verbatim>\<open>metadata\<close> whose
  \<^verbatim>\<open>content_hash\<close> is not null and keeps the groups of more than one row, with the ids
  of a group concatenated in the order of the table. The groups are taken here in the
  order in which their hash first occurs; the updates of two groups touch different rows,
  so the order of the groups does not show in the result.
\<close>

definition duplicate_groups :: "database \<Rightarrow> (string \<times> nat list) list" where
  "duplicate_groups d =
     (let hashed = filter (\<lambda>m. m_content_hash m \<noteq> None) (metadata d);
          hashes = remdups (map (\<lambda>m. case m_content_hash m of Some h \<Rightarrow> h | None \<Rightarrow> []) hashed)
      in filter (\<lambda>(h, file_ids). length file_ids > 1)
           (map (\<lambda>h. (h, map m_id (filter (\<lambda>m. m_content_hash m = Some h) hashed))) hashes))"

definition update_reference :: "int \<Rightarrow> string \<Rightarrow> nat \<Rightarrow> nat \<Rightarrow> database \<Rightarrow> database" where
  "update_reference now content_hash primary_id secondary_id d =
     (let d1 = d\<lparr>metadata := map (\<lambda>r. if m_id r = secondary_id
                                           then r\<lparr>m_deduplication_ref := Some primary_id\<rparr>
                                           else r) (metadata d)\<rparr>;
          secondary_size = map m_size (filter (\<lambda>r. m_id r = secondary_id) (metadata d1))
      in case secondary_size of
           [] \<Rightarrow> d1
         | sz # others \<Rightarrow>
             d1\<lparr>deduplication :=
                  map (\<lambda>r. if d_content_hash r = content_hash
                             then r\<lparr>d_reference_count := d_reference_count r + 1,
                                    d_total_space_saved := d_total_space_saved r + sz,
                                    d_last_reference := now\<rparr>
                             else r) (deduplication d1)\<rparr>)"

definition manage_deduplication :: "int \<Rightarrow> state \<Rightarrow> state" where
  "manage_deduplication now st =
     st\<lparr>db := fold (\<lambda>(content_hash, file_ids) d.
                       case file_ids of
                         [] \<Rightarrow> d
                       | primary_id # secondaries \<Rightarrow>
                           fold (update_reference now content_hash primary_id) secondaries d)
                   (duplicate_groups (db st)) (db st)\<rparr>"

section \<open>Tier migration\<close>

text \<open>
  The columns of the \<^verbatim>\<open>metadata\<close> table as \<^verbatim>\<open>db_setup.py\<close> creates it. An
  \<^verbatim>\<open>UPDATE\<close> that assigns a column the table does not have raises
  \<^verbatim>\<open>sqlite3.OperationalError\<close> (no such column) when the statement is prepared.
\<close>

definition metadata_columns :: "string list" where
  "metadata_columns =
     [''id'', ''filename'', ''current_version'', ''size'', ''compressed_size'',
      ''compression_ratio'', ''upload_timestamp'', ''location'', ''replicas'', ''storage_tier'',
      ''last_accessed'', ''access_count'', ''retention_policy'', ''is_archived'',
      ''archive_date'', ''content_hash'', ''deduplication_ref'']"

definition sql_update_metadata ::
  "string list \<Rightarrow> (metadata_row \<Rightarrow> bool) \<Rightarrow> (metadata_row \<Rightarrow> metadata_row) \<Rightarrow> database
     \<Rightarrow> error + database" where
  "sql_update_metadata assigned cond upd d =
     (if list_all (\<lambda>c. c \<in> set metadata_columns) assigned
      then Inr (d\<lparr>metadata := map (\<lambda>r. if cond r then upd r else r) (metadata d)\<rparr>)
      else Inl OperationalError)"

text \<open>
  \<^verbatim>\<open>get_db_connection\<close> is a generator-based context manager whose \<^verbatim>\<open>yield\<close> stands
  inside a retry loop. When the body of the \<^verbatim>\<open>with\<close> statement raises
  \<^verbatim>\<open>sqlite3.OperationalError\<close>, the generator catches it, sleeps, opens a second
  connection and yields again, and \<^verbatim>\<open>contextlib\<close> answers a generator that yields
  after \<^verbatim>\<open>throw\<close> with \<^verbatim>\<open>RuntimeError\<close>; the first connection is dropped without
  a commit. Any other exception rolls the transaction back and is raised again. Writes to
  files are not undone.
\<close>

definition get_db_connection :: "(state \<Rightarrow> (error + 'a) \<times> state) \<Rightarrow> state \<Rightarrow> (error + 'a) \<times> state" where
  "get_db_connection body st =
     (case body st of
        (Inr v, st') \<Rightarrow> (Inr v, st')
      | (Inl e, st') \<Rightarrow> (Inl (if e = OperationalError then RuntimeError else e), st'\<lparr>db := db st\<rparr>))"

text \<open>
  A Python call binds keyword arguments to the parameters of the function called and
  raises \<^verbatim>\<open>TypeError\<close> for a keyword that names none of them.
  \<^verbatim>\<open>encrypt_and_compress_data\<close> (line 1244) has the single parameter \<^verbatim>\<open>data\<close>.
\<close>

definition call_encrypt_and_compress_data ::
  "externals \<Rightarrow> nat \<Rightarrow> bytes \<Rightarrow> (string \<times> nat) list \<Rightarrow> error + bytes" where
  "call_encrypt_and_compress_data L nonce data keywords =
     (if list_all (\<lambda>(k, v). k \<in> set [''data'']) keywords
      then Inr (encrypt_and_compress_data L nonce data)
      else Inl TypeError)"

text \<open>
  The body of the chunk loop of \<^verbatim>\<open>move_to_storage_tier\<close> (lines 139 to 155); every
  exception in it is caught and logged.
\<close>

definition recompress_chunk :: "externals \<Rightarrow> nat \<Rightarrow> nat \<Rightarrow> chunk_row \<Rightarrow> filesystem \<Rightarrow> filesystem" where
  "recompress_chunk L nonce compression_level chunk f =
     (case map_of f (c_chunk_location chunk) of
        None \<Rightarrow> f
      | Some content \<Rightarrow>
          (case decrypt_and_decompress_data L content of
             Inl e \<Rightarrow> f
           | Inr data \<Rightarrow>
               (case call_encrypt_and_compress_data L nonce data
                       [(''compression_level'', compression_level)] of
                  Inl e \<Rightarrow> f
                | Inr compressed \<Rightarrow> write_file (c_chunk_location chunk) compressed f)))"

definition move_to_storage_tier ::
  "externals \<Rightarrow> nat \<Rightarrow> nat \<Rightarrow> tier \<Rightarrow> state \<Rightarrow> (error + unit) \<times> state" where
  "move_to_storage_tier L nonce file_id new_tier =
     get_db_connection (\<lambda>st.
       case sql_update_metadata [''storage_tier'', ''last_modified'']
              (\<lambda>r. m_id r = file_id) (\<lambda>r. r\<lparr>m_storage_tier := new_tier\<rparr>) (db st) of
         Inl e \<Rightarrow> (Inl e, st)
       | Inr d1 \<Rightarrow>
           (case map_of (storage_tiers d1) new_tier of
              None \<Rightarrow> (Inl TypeError, st\<lparr>db := d1\<rparr>)
            | Some compression_level \<Rightarrow>
                let chunk_list = filter (\<lambda>c. c_file_id c = file_id \<and> c_status c = Active) (chunks d1)
                in (Inr (), st\<lparr>db := d1,
                                fs := fold (recompress_chunk L nonce compression_level)
                                        chunk_list (fs st)\<rparr>)))"

text \<open>
  The decision that \<^verbatim>\<open>manage_storage_tiers\<close> takes for one row of its query (lines 76
  to 102). \<^verbatim>\<open>timedelta.days\<close> is the floor of the difference in days.
\<close>

datatype tier_action = MoveTo tier | ArchiveIt | NoAction

definition days_since_access :: "int \<Rightarrow> metadata_row \<Rightarrow> int" where
  "days_since_access now file =
     (now - (case m_last_accessed file of Some t \<Rightarrow> t | None \<Rightarrow> m_upload_timestamp file))
       div (86400 * 1000000)"

definition manage_storage_tiers_action :: "int \<Rightarrow> metadata_row \<Rightarrow> tier_action" where
  "manage_storage_tiers_action now file =
     (if m_storage_tier file = Hot \<and> days_since_access now file > 30 \<and> m_access_count file < 10
      then MoveTo Warm
      else if m_storage_tier file = Warm \<and> days_since_access now file > 90 then MoveTo Cold
      else if m_storage_tier file = Cold \<and> days_since_access now file > 180 then ArchiveIt
      else NoAction)"

section \<open>Archiving\<close>

text \<open>
  \<^verbatim>\<open>archive_file\<close>. Reading a chunk file that is missing raises inside the
  \<^verbatim>\<open>with\<close> statement; the archive file, opened for writing before the loop, then
  stays behind with what was written so far. A chunk file that cannot be removed is logged.
\<close>

fun concat_chunks :: "filesystem \<Rightarrow> chunk_row list \<Rightarrow> bytes \<Rightarrow> bytes \<times> bool" where
  "concat_chunks f [] acc = (acc, True)"
| "concat_chunks f (chunk # rest) acc =
     (case map_of f (c_chunk_location chunk) of
        None \<Rightarrow> (acc, False)
      | Some content \<Rightarrow> concat_chunks f rest (acc @ content))"

definition archive_file :: "int \<Rightarrow> nat \<Rightarrow> state \<Rightarrow> (error + unit) \<times> state" where
  "archive_file now file_id =
     get_db_connection (\<lambda>st.
       case filter (\<lambda>m. m_id m = file_id \<and> \<not> m_is_archived m) (metadata (db st)) of
         [] \<Rightarrow> (Inr (), st)
       | file # others \<Rightarrow>
           let archive_location =
                 os_path_join (os_path_join ''./storage_node3'' ''archives'')
                              (m_filename file @ ''.archive'');
               chunk_list = sort_key c_chunk_index
                              (filter (\<lambda>c. c_file_id c = file_id \<and> c_status c = Active)
                                      (chunks (db st)))
           in case concat_chunks (fs st) chunk_list [] of
                (partial, False) \<Rightarrow>
                  (Inl FileNotFoundError, st\<lparr>fs := write_file archive_location partial (fs st)\<rparr>)
              | (archive, True) \<Rightarrow>
                  let d = db st;
                      d1 = d\<lparr>archives := archives d @
                              [\<lparr>a_file_id = file_id, a_archive_date = now,
                                a_archive_location = archive_location,
                                a_archive_size = length archive, a_restore_count = 0,
                                a_last_restore_date = None\<rparr>]\<rparr>;
                      d2 = d1\<lparr>metadata := map (\<lambda>r. if m_id r = file_id
                                                     then r\<lparr>m_is_archived := True,
                                                            m_archive_date := Some now,
                                                            m_storage_tier := Cold\<rparr>
                                                     else r) (metadata d1)\<rparr>;
                      d3 = d2\<lparr>chunks := map (\<lambda>c. if c_file_id c = file_id \<and> c_status c = Active
                                                  then c\<lparr>c_status := Archived\<rparr> else c)
                                             (chunks d2)\<rparr>
                  in (Inr (), st\<lparr>db := d3,
                                  fs := fold (\<lambda>c g. os_remove (c_chunk_location c) g) chunk_list
                                          (write_file archive_location archive (fs st))\<rparr>))"

section \<open>Heartbeats and failure handling\<close>

text \<open>
  \<^verbatim>\<open>redistribute_chunks\<close>: for a chunk row, the inner loop tries the nodes other than
  the failed one in the order of \<^verbatim>\<open>UPLOAD_FOLDERS\<close>; \<^verbatim>\<open>shutil.copy\<close> raises when the
  source file is missing, the \<^verbatim>\<open>except\<close> branch then goes on to the next node, and a
  row for which every node fails is left as it was.
\<close>

fun redistribute_chunk ::
  "node \<Rightarrow> nat \<Rightarrow> path \<Rightarrow> (node \<times> path) list \<Rightarrow> filesystem \<times> database \<Rightarrow> filesystem \<times> database" where
  "redistribute_chunk failed_node chunk_id chunk_location [] (f, d) = (f, d)"
| "redistribute_chunk failed_node chunk_id chunk_location ((target_node, target_path) # rest) (f, d) =
     (if target_node = failed_node
      then redistribute_chunk failed_node chunk_id chunk_location rest (f, d)
      else
        let new_chunk_path = os_path_join target_path (os_path_basename chunk_location);
            moved = d\<lparr>chunks := map (\<lambda>c. if c_id c = chunk_id
                                           then c\<lparr>c_chunk_location := new_chunk_path\<rparr> else c)
                                      (chunks d)\<rparr>
        in if os_path_exists f new_chunk_path then (f, moved)
           else (case map_of f chunk_location of
                   None \<Rightarrow> redistribute_chunk failed_node chunk_id chunk_location rest (f, d)
                 | Some content \<Rightarrow> (write_file new_chunk_path content f, moved)))"

definition redistribute_chunks :: "node \<Rightarrow> state \<Rightarrow> state" where
  "redistribute_chunks failed_node st =
     (let chunk_list = filter (\<lambda>c. sql_like (''%'' @ failed_node @ ''%'') (c_chunk_location c))
                              (chunks (db st));
          (f, d) = fold (\<lambda>c. redistribute_chunk failed_node (c_id c) (c_chunk_location c)
                                UPLOAD_FOLDERS)
                        chunk_list (fs st, db st)
      in st\<lparr>fs := f, db := d\<rparr>)"

text \<open>
  \<^verbatim>\<open>handle_node_failure\<close> counts rows for its log before and after and calls
  \<^verbatim>\<open>redistribute_chunks\<close>; one pass of the loop of \<^verbatim>\<open>monitor_nodes\<close> collects the
  nodes whose last heartbeat is more than \<^verbatim>\<open>HEARTBEAT_THRESHOLD\<close> seconds old, handles
  each and deletes it from \<^verbatim>\<open>node_heartbeats\<close>. Time is in microseconds.
\<close>

definition handle_node_failure :: "node \<Rightarrow> state \<Rightarrow> state" where
  "handle_node_failure node_name st = redistribute_chunks node_name st"

definition inactive_nodes :: "int \<Rightarrow> (node \<times> int) list \<Rightarrow> node list" where
  "inactive_nodes now heartbeats =
     map fst (filter (\<lambda>(node, last_heartbeat). now - last_heartbeat > HEARTBEAT_THRESHOLD * 1000000)
                     heartbeats)"

definition monitor_nodes_pass :: "int \<Rightarrow> state \<Rightarrow> state" where
  "monitor_nodes_pass now st =
     fold (\<lambda>node s. (handle_node_failure node s)
                       \<lparr>node_heartbeats := AList.delete node (node_heartbeats s)\<rparr>)
          (inactive_nodes now (node_heartbeats st)) st"

definition heartbeat :: "int \<Rightarrow> node \<Rightarrow> state \<Rightarrow> state" where
  "heartbeat now node_name st =
     (if node_name = [] then st
      else st\<lparr>node_heartbeats := AList.update node_name now (node_heartbeats st)\<rparr>)"

section \<open>Sample libraries and states\<close>

text \<open>
  Stand-ins for the libraries that satisfy \<open>library_contract\<close>, used where a statement
  is evaluated on concrete requests: deflating prefixes a marker byte, encrypting prefixes
  a letter chosen by the nonce, the digest is the payload itself, and \<^verbatim>\<open>secure_filename\<close> turns a space
  into an underscore, as werkzeug's does.
\<close>

definition demo_libs :: externals where
  "demo_libs =
     \<lparr>zlib_compress = (\<lambda>d. CHR ''z'' # d),
      zlib_decompress = (\<lambda>d. case d of [] \<Rightarrow> None
                               | c # r \<Rightarrow> if c = CHR ''z'' then Some r else None),
      fernet_encrypt = (\<lambda>n d. (''ABCDEFGHIJKLMNOPQRSTUVWXYZ'' ! (n mod 26)) # d),
      fernet_decrypt = (\<lambda>d. case d of [] \<Rightarrow> None | c # r \<Rightarrow> Some r),
      sha256_hexdigest = (\<lambda>d. d),
      secure_filename = map (\<lambda>c. if c = CHR '' '' then CHR ''_'' else c)\<rparr>"

definition empty_db :: database where
  "empty_db =
     \<lparr>metadata = [], metadata_seq = 0, versions = [], chunks = [], chunks_seq = 0,
      version_changes = [], deduplication = [], archives = [],
      storage_tiers = [(Hot, 1), (Warm, 6), (Cold, 9)]\<rparr>"

definition init_state :: state where
  "init_state = \<lparr>fs = [], workdir = [], db = empty_db, node_heartbeats = []\<rparr>"

section \<open>Properties of upload and download\<close>

text \<open>
  \<open>catalog_ok\<close> collects what the schema and the absence of any \<^verbatim>\<open>DELETE\<close> in the
  program guarantee of the catalog: no row refers to a file id beyond the sequence counter
  of \<^verbatim>\<open>metadata\<close>, and every chunk row belongs to a recorded version. \<open>upload_all\<close>
  runs a list of upload requests for one file name and counts those that succeed.
\<close>

definition catalog_ok :: "database \<Rightarrow> bool" where
  "catalog_ok d =
     (list_all (\<lambda>m. m_id m \<le> metadata_seq d) (metadata d) \<and>
      list_all (\<lambda>v. v_file_id v \<le> metadata_seq d) (versions d) \<and>
      list_all (\<lambda>c. list_ex (\<lambda>v. v_file_id v = c_file_id c \<and>
                                   v_version_number v = c_version_number c) (versions d))
               (chunks d))"

fun upload_all ::
  "externals \<Rightarrow> string \<Rightarrow> ((nat \<Rightarrow> nat) \<times> int \<times> bytes) list \<Rightarrow> state \<Rightarrow> nat \<times> state" where
  "upload_all L filename [] st = (0, st)"
| "upload_all L filename ((rnd, now, data) # rest) st =
     (case upload_file L rnd now (Some (filename, data)) st of
        (Inl e, st') \<Rightarrow> upload_all L filename rest st'
      | (Inr response, st') \<Rightarrow>
          (case upload_all L filename rest st' of (n, st'') \<Rightarrow> (Suc n, st'')))"

lemma fold_insert_chunk_frame:
  "metadata (fold (\<lambda>p. insert_chunk (g p)) ps d) = metadata d \<and>
   versions (fold (\<lambda>p. insert_chunk (g p)) ps d) = versions d \<and>
   metadata_seq (fold (\<lambda>p. insert_chunk (g p)) ps d) = metadata_seq d"
  by (induction ps arbitrary: d) (simp_all add: insert_chunk_def)

lemma store_chunk_rows_frame:
  "store_chunk_rows L file_id new_version cl f d locs = (Inr (d', locs'), f') \<Longrightarrow>
   metadata d' = metadata d \<and> versions d' = versions d \<and> metadata_seq d' = metadata_seq d"
proof (induction cl arbitrary: f d locs)
  case Nil
  then show ?case by simp
next
  case (Cons a cl)
  obtain i p where a: "a = (i, p)" by (cases a)
  from Cons.prems obtain content where c: "map_of f p = Some content"
    unfolding a by (auto split: option.splits)
  from Cons.prems c obtain rl f1 where r: "replicate_chunk p UPLOAD_FOLDERS f = (Inr rl, f1)"
    unfolding a by (auto simp: Let_def split: prod.splits sum.splits)
  define d1 where "d1 = insert_chunk (new_chunk_row file_id new_version i p (length content)
                                        (calculate_hash L content)) d"
  define d2 where "d2 = fold (\<lambda>replica_path. insert_chunk
                                  (new_chunk_row file_id new_version i replica_path
                                     (length content) (calculate_hash L content))) rl d1"
  from Cons.prems c r have
    "store_chunk_rows L file_id new_version cl f1 d2
        (locs @ os_path_dirname p # map os_path_dirname rl) = (Inr (d', locs'), f')"
    unfolding a by (simp add: Let_def d1_def d2_def)
  from Cons.IH[OF this] have "metadata d' = metadata d2 \<and> versions d' = versions d2 \<and>
        metadata_seq d' = metadata_seq d2" .
  moreover have "metadata d2 = metadata d1 \<and> versions d2 = versions d1 \<and>
        metadata_seq d2 = metadata_seq d1"
    unfolding d2_def by (rule fold_insert_chunk_frame)
  moreover have "metadata d1 = metadata d \<and> versions d1 = versions d \<and>
        metadata_seq d1 = metadata_seq d"
    by (simp add: d1_def insert_chunk_def)
  ultimately show ?case by simp
qed

lemma upload_saved_failure:
  assumes "upload_saved L rnd now filename data st = (Inl e, st')"
  shows "db st' = db st"
proof (cases "select_storage_node (length data) UPLOAD_FOLDERS [] (fs st)")
  case (Inl a)
  with assms show ?thesis by (auto simp: upload_saved_def Let_def)
next
  case (Inr node)
  obtain err cl total f1 where sc:
    "store_chunks L rnd (secure_filename L filename) 0 (read_chunks CHUNK_SIZE data) (fs st)
       = (err, cl, total, f1)" by (rule prod_cases4)
  show ?thesis
  proof (cases err)
    case (Some a)
    with assms Inr sc show ?thesis by (auto simp: upload_saved_def Let_def)
  next
    case None
    obtain res f2 where ut:
      "upload_transaction L now filename (length data) total (calculate_hash L data) node cl f1 (db st)
         = (res, f2)" by (rule prod.exhaust)
    show ?thesis
    proof (cases res)
      case (Inl a)
      with assms Inr sc None ut show ?thesis by (auto simp: upload_saved_def Let_def)
    next
      case (Inr b)
      with assms \<open>select_storage_node (length data) UPLOAD_FOLDERS [] (fs st) = Inr node\<close> sc None ut
      show ?thesis by (cases b) (auto simp: upload_saved_def Let_def)
    qed
  qed
qed

lemma upload_file_failure:
  "upload_file L rnd now req st = (Inl e, st') \<Longrightarrow> db st' = db st"
  by (auto simp: upload_file_def dest: upload_saved_failure split: option.splits if_splits)

lemma upload_saved_success:
  assumes "upload_saved L rnd now filename data st = (Inr r, st')"
  shows "\<exists>node cl total f1.
           store_chunks L rnd (secure_filename L filename) 0 (read_chunks CHUNK_SIZE data) (fs st)
             = (None, cl, total, f1) \<and>
           upload_transaction L now filename (length data) total (calculate_hash L data) node cl f1 (db st)
             = (Inr (db st', r), fs st')"
proof (cases "select_storage_node (length data) UPLOAD_FOLDERS [] (fs st)")
  case (Inl a)
  with assms show ?thesis by (auto simp: upload_saved_def Let_def)
next
  case (Inr node)
  obtain err cl total f1 where sc:
    "store_chunks L rnd (secure_filename L filename) 0 (read_chunks CHUNK_SIZE data) (fs st)
       = (err, cl, total, f1)" by (rule prod_cases4)
  show ?thesis
  proof (cases err)
    case (Some a)
    with assms Inr sc show ?thesis by (auto simp: upload_saved_def Let_def)
  next
    case None
    obtain res f2 where ut:
      "upload_transaction L now filename (length data) total (calculate_hash L data) node cl f1 (db st)
         = (res, f2)" by (rule prod.exhaust)
    show ?thesis
    proof (cases res)
      case (Inl a)
      with assms Inr sc None ut show ?thesis by (auto simp: upload_saved_def Let_def)
    next
      case (Inr b)
      obtain d' resp where b: "b = (d', resp)" by (cases b)
      from assms \<open>select_storage_node (length data) UPLOAD_FOLDERS [] (fs st) = Inr node\<close> sc None ut Inr b
      have "r = resp" "db st' = d'" "fs st' = f2" by (auto simp: upload_saved_def Let_def)
      with sc None ut Inr b show ?thesis by auto
    qed
  qed
qed

lemma upload_file_success:
  assumes "upload_file L rnd now (Some (filename, data)) st = (Inr r, st')"
  shows "\<exists>node cl total f1.
           store_chunks L rnd (secure_filename L filename) 0 (read_chunks CHUNK_SIZE data) (fs st)
             = (None, cl, total, f1) \<and>
           upload_transaction L now filename (length data) total (calculate_hash L data) node cl f1 (db st)
             = (Inr (db st', r), fs st')"
proof -
  from assms have "upload_saved L rnd now filename data st = (Inr r, st')"
    by (simp add: upload_file_def split: if_splits)
  then show ?thesis by (rule upload_saved_success)
qed

definition target_file_id :: "string \<Rightarrow> database \<Rightarrow> nat" where
  "target_file_id filename d =
     (case find (\<lambda>m. m_filename m = filename) (metadata d) of
        Some m \<Rightarrow> m_id m | None \<Rightarrow> metadata_seq d + 1)"

definition target_version :: "string \<Rightarrow> database \<Rightarrow> nat" where
  "target_version filename d =
     (case find (\<lambda>m. m_filename m = filename) (metadata d) of
        Some m \<Rightarrow> m_current_version m + 1 | None \<Rightarrow> 1)"

lemma find_map_keep:
  assumes "\<And>x. P (g x) = P x"
  shows "find P (map g xs) = map_option g (find P xs)"
  using assms by (induction xs) auto

lemma find_append_None:
  "find P xs = None \<Longrightarrow> find P (xs @ ys) = find P ys"
  by (induction xs) (auto split: if_splits)

lemma upload_transaction_success:
  assumes "upload_transaction L now filename osize tsize fh node cl f d = (Inr (d', r), f')"
  shows "r_version r = target_version filename d"
    and "\<exists>vrow. versions d' = versions d @ [vrow] \<and> v_file_id vrow = target_file_id filename d \<and>
               v_version_number vrow = target_version filename d"
    and "\<not> (\<exists>v\<in>set (versions d). v_file_id v = target_file_id filename d \<and>
               v_version_number v = target_version filename d)"
    and "\<exists>d2 d3 locs. chunks d2 = chunks d \<and> chunks_seq d2 = chunks_seq d \<and>
            store_chunk_rows L (target_file_id filename d) (target_version filename d) cl f d2 []
              = (Inr (d3, locs), f') \<and> chunks d' = chunks d3 \<and> chunks_seq d' = chunks_seq d3"
    and "\<exists>m'. find (\<lambda>m. m_filename m = filename) (metadata d') = Some m' \<and>
              m_id m' = target_file_id filename d \<and>
              m_current_version m' = target_version filename d"
    and "metadata_seq d' = (case find (\<lambda>m. m_filename m = filename) (metadata d) of
                              None \<Rightarrow> metadata_seq d + 1 | Some m \<Rightarrow> metadata_seq d)"
    and "map m_id (metadata d') = map m_id (metadata d) @
           (case find (\<lambda>m. m_filename m = filename) (metadata d) of
              None \<Rightarrow> [metadata_seq d + 1] | Some m \<Rightarrow> [])"
    and "map m_content_hash (metadata d') = map m_content_hash (metadata d) @
           (case find (\<lambda>m. m_filename m = filename) (metadata d) of
              None \<Rightarrow> [None] | Some m \<Rightarrow> [])"
proof -
  define existing where "existing = find (\<lambda>m. m_filename m = filename) (metadata d)"
  define fid where "fid = target_file_id filename d"
  define newv where "newv = target_version filename d"
  define d1 where "d1 = (case existing of
                  None \<Rightarrow>
                    d\<lparr>metadata := metadata d @
                         [\<lparr>m_id = metadata_seq d + 1, m_filename = filename,
                           m_current_version = newv, m_size = osize,
                           m_compressed_size = tsize, m_upload_timestamp = now,
                           m_location = node, m_replicas = [], m_storage_tier = Hot,
                           m_last_accessed = None, m_access_count = 0, m_is_archived = False,
                           m_archive_date = None, m_content_hash = None,
                           m_deduplication_ref = None\<rparr>],
                      metadata_seq := metadata_seq d + 1\<rparr>
                | Some m \<Rightarrow>
                    d\<lparr>metadata := map (\<lambda>r. if m_id r = fid
                                             then r\<lparr>m_current_version := newv,
                                                    m_size := osize,
                                                    m_compressed_size := tsize,
                                                    m_upload_timestamp := now,
                                                    m_location := node\<rparr>
                                             else r) (metadata d)\<rparr>)"
  define vrow where "vrow = \<lparr>v_file_id = fid, v_version_number = newv, v_timestamp = now,
                           v_size = osize, v_compressed_size = tsize, v_hash = fh\<rparr>"
  define d2 where "d2 = d1\<lparr>versions := versions d1 @ [vrow]\<rparr>"
  have fid_alt: "fid = (case existing of Some m \<Rightarrow> m_id m | None \<Rightarrow> metadata_seq d + 1)"
    by (simp add: fid_def target_file_id_def existing_def)
  have newv_alt: "newv = (case existing of Some m \<Rightarrow> m_current_version m + 1 | None \<Rightarrow> 1)"
    by (simp add: newv_def target_version_def existing_def)
  have vd1: "versions d1 = versions d" "chunks d1 = chunks d" "chunks_seq d1 = chunks_seq d"
    by (simp_all add: d1_def split: option.splits)
  have unfolded: "upload_transaction L now filename osize tsize fh node cl f d =
     (if \<exists>v \<in> set (versions d1). v_file_id v = fid \<and> v_version_number v = newv
      then (Inl IntegrityError, f)
      else case store_chunk_rows L fid newv cl f d2 [] of
                (Inl e, f') \<Rightarrow> (Inl e, f')
              | (Inr (d3, all_locations), f') \<Rightarrow>
                  let storage_nodes = map fst (filter (\<lambda>(node, folder). folder \<in> set all_locations)
                                                   UPLOAD_FOLDERS);
                      d4 = d3\<lparr>metadata := map (\<lambda>r. if m_id r = fid
                                                     then r\<lparr>m_replicas := storage_nodes\<rparr> else r)
                                               (metadata d3)\<rparr>;
                      d5 = d4\<lparr>version_changes := version_changes d4 @
                                [\<lparr>vc_file_id = fid,
                                  vc_old_version = (case existing of Some m \<Rightarrow> m_current_version m | None \<Rightarrow> 0),
                                  vc_new_version = newv,
                                  vc_change_type = (if existing \<noteq> None then ''update''
                                                    else ''create''),
                                  vc_timestamp = now\<rparr>]\<rparr>
                  in (Inr (d5, \<lparr>r_filename = filename, r_version = newv,
                                r_original_size = osize,
                                r_compressed_size = tsize,
                                r_storage_nodes = storage_nodes\<rparr>), f'))"
    unfolding upload_transaction_def Let_def existing_def[symmetric] fid_alt[symmetric]
      newv_alt[symmetric] d1_def[symmetric] vrow_def[symmetric] d2_def[symmetric] ..
  from assms unfolded have nodup:
    "\<not> (\<exists>v \<in> set (versions d1). v_file_id v = fid \<and> v_version_number v = newv)"
    by (auto split: if_splits)
  obtain res f3 where scr: "store_chunk_rows L fid newv cl f d2 [] = (res, f3)"
    by (rule prod.exhaust)
  from assms unfolded nodup scr obtain d3 locs where res: "res = Inr (d3, locs)"
    by (cases res) (auto simp del: Bex_set_list_ex)
  define nodes where "nodes = map fst (filter (\<lambda>(node, folder). folder \<in> set locs) UPLOAD_FOLDERS)"
  from assms unfolded nodup scr res have
    f': "f' = f3" and
    r: "r = \<lparr>r_filename = filename, r_version = newv, r_original_size = osize,
             r_compressed_size = tsize, r_storage_nodes = nodes\<rparr>" and
    d': "metadata d' = map (\<lambda>r. if m_id r = fid then r\<lparr>m_replicas := nodes\<rparr> else r) (metadata d3)"
        "versions d' = versions d3" "chunks d' = chunks d3" "chunks_seq d' = chunks_seq d3"
        "metadata_seq d' = metadata_seq d3"
    by (auto simp: Let_def nodes_def simp del: Bex_set_list_ex)
  from store_chunk_rows_frame[OF scr[unfolded res]]
  have fr: "metadata d3 = metadata d2" "versions d3 = versions d2"
    "metadata_seq d3 = metadata_seq d2" by simp_all
  show "r_version r = target_version filename d" by (simp add: r newv_def)
  show "\<exists>vrow. versions d' = versions d @ [vrow] \<and> v_file_id vrow = target_file_id filename d \<and>
               v_version_number vrow = target_version filename d"
    using d'(2) fr(2) vd1(1) by (auto simp: d2_def vrow_def fid_def newv_def)
  show "\<not> (\<exists>v\<in>set (versions d). v_file_id v = target_file_id filename d \<and>
               v_version_number v = target_version filename d)"
    using nodup vd1(1) by (simp add: fid_def newv_def)
  have "chunks d2 = chunks d" "chunks_seq d2 = chunks_seq d" by (simp_all add: d2_def vd1)
  then show "\<exists>d2 d3 locs. chunks d2 = chunks d \<and> chunks_seq d2 = chunks_seq d \<and>
            store_chunk_rows L (target_file_id filename d) (target_version filename d) cl f d2 []
              = (Inr (d3, locs), f') \<and> chunks d' = chunks d3 \<and> chunks_seq d' = chunks_seq d3"
    using scr res f' d'(3,4) unfolding fid_def newv_def by blast
  have md: "metadata d' = map (\<lambda>r. if m_id r = fid then r\<lparr>m_replicas := nodes\<rparr> else r) (metadata d1)"
    using d'(1) fr(1) by (simp add: d2_def)
  have keep: "find (\<lambda>m. m_filename m = filename) (metadata d') =
        map_option (\<lambda>r. if m_id r = fid then r\<lparr>m_replicas := nodes\<rparr> else r)
          (find (\<lambda>m. m_filename m = filename) (metadata d1))"
    unfolding md by (rule find_map_keep) simp
  show "\<exists>m'. find (\<lambda>m. m_filename m = filename) (metadata d') = Some m' \<and>
              m_id m' = target_file_id filename d \<and>
              m_current_version m' = target_version filename d"
  proof (cases existing)
    case None
    then have "find (\<lambda>m. m_filename m = filename) (metadata d1) =
         Some \<lparr>m_id = metadata_seq d + 1, m_filename = filename,
                           m_current_version = newv, m_size = osize,
                           m_compressed_size = tsize, m_upload_timestamp = now,
                           m_location = node, m_replicas = [], m_storage_tier = Hot,
                           m_last_accessed = None, m_access_count = 0, m_is_archived = False,
                           m_archive_date = None, m_content_hash = None,
                           m_deduplication_ref = None\<rparr>"
      by (simp add: d1_def find_append_None existing_def)
    then show ?thesis unfolding keep using None fid_alt
      by (simp add: fid_def[symmetric] newv_def[symmetric])
  next
    case (Some m)
    then have m: "find (\<lambda>m. m_filename m = filename) (metadata d) = Some m"
      by (simp add: existing_def)
    have "find (\<lambda>m. m_filename m = filename) (metadata d1) =
          map_option (\<lambda>r. if m_id r = fid
                                             then r\<lparr>m_current_version := newv,
                                                    m_size := osize,
                                                    m_compressed_size := tsize,
                                                    m_upload_timestamp := now,
                                                    m_location := node\<rparr>
                                             else r) (find (\<lambda>m. m_filename m = filename) (metadata d))"
      unfolding d1_def Some by (simp, rule find_map_keep) simp
    then show ?thesis unfolding keep m using Some fid_alt
      by (simp add: fid_def[symmetric] newv_def[symmetric])
  qed
  show "metadata_seq d' = (case find (\<lambda>m. m_filename m = filename) (metadata d) of
                              None \<Rightarrow> metadata_seq d + 1 | Some m \<Rightarrow> metadata_seq d)"
    using d'(5) fr(3) by (simp add: d2_def d1_def existing_def split: option.splits)
  have ids: "map m_id (map (\<lambda>r. if m_id r = a then g r else r) xs) = map m_id xs"
    if "\<And>r. m_id (g r) = m_id r" for a g and xs :: "metadata_row list"
    using that by (induction xs) auto
  have "map m_id (metadata d') = map m_id (metadata d1)"
    unfolding md by (rule ids) simp
  also have "\<dots> = map m_id (metadata d) @
           (case find (\<lambda>m. m_filename m = filename) (metadata d) of
              None \<Rightarrow> [metadata_seq d + 1] | Some m \<Rightarrow> [])"
  proof (cases existing)
    case None
    then show ?thesis by (simp add: d1_def existing_def[symmetric])
  next
    case (Some m)
    have "map m_id (map (\<lambda>r. if m_id r = fid
                                             then r\<lparr>m_current_version := newv,
                                                    m_size := osize,
                                                    m_compressed_size := tsize,
                                                    m_upload_timestamp := now,
                                                    m_location := node\<rparr>
                                             else r) (metadata d)) = map m_id (metadata d)"
      by (rule ids) simp
    with Some show ?thesis by (simp add: d1_def existing_def[symmetric])
  qed
  finally show "map m_id (metadata d') = map m_id (metadata d) @
           (case find (\<lambda>m. m_filename m = filename) (metadata d) of
              None \<Rightarrow> [metadata_seq d + 1] | Some m \<Rightarrow> [])" .
  have hs: "map m_content_hash (map (\<lambda>r. if m_id r = a then g r else r) xs) = map m_content_hash xs"
    if "\<And>r. m_content_hash (g r) = m_content_hash r" for a g and xs :: "metadata_row list"
    using that by (induction xs) auto
  have "map m_content_hash (metadata d') = map m_content_hash (metadata d1)"
    unfolding md by (rule hs) simp
  also have "\<dots> = map m_content_hash (metadata d) @
           (case find (\<lambda>m. m_filename m = filename) (metadata d) of
              None \<Rightarrow> [None] | Some m \<Rightarrow> [])"
  proof (cases existing)
    case None
    then show ?thesis by (simp add: d1_def existing_def[symmetric])
  next
    case (Some m)
    have "map m_content_hash (map (\<lambda>r. if m_id r = fid
                                             then r\<lparr>m_current_version := newv,
                                                    m_size := osize,
                                                    m_compressed_size := tsize,
                                                    m_upload_timestamp := now,
                                                    m_location := node\<rparr>
                                             else r) (metadata d)) = map m_content_hash (metadata d)"
      by (rule hs) simp
    with Some show ?thesis by (simp add: d1_def existing_def[symmetric])
  qed
  finally show "map m_content_hash (metadata d') = map m_content_hash (metadata d) @
           (case find (\<lambda>m. m_filename m = filename) (metadata d) of
              None \<Rightarrow> [None] | Some m \<Rightarrow> [])" .
qed

definition version_count :: "string \<Rightarrow> nat \<Rightarrow> database \<Rightarrow> bool" where
  "version_count filename k d =
     (\<exists>m. find (\<lambda>m. m_filename m = filename) (metadata d) = Some m \<and>
          m_current_version m = k \<and>
          length (filter (\<lambda>v. v_file_id v = m_id m) (versions d)) = k)"

lemma upload_first_version:
  assumes ok: "catalog_ok (db st)"
    and unseen: "find (\<lambda>m. m_filename m = filename) (metadata (db st)) = None"
    and up: "upload_file L rnd now (Some (filename, data)) st = (Inr r, st')"
  shows "version_count filename 1 (db st')" and "r_version r = 1"
proof -
  from upload_file_success[OF up] obtain node cl tsize f1 where
    ut: "upload_transaction L now filename (length data) tsize (calculate_hash L data) node cl f1 (db st)
           = (Inr (db st', r), fs st')" by blast
  have fid: "target_file_id filename (db st) = metadata_seq (db st) + 1"
    and tv: "target_version filename (db st) = 1"
    using unseen by (simp_all add: target_file_id_def target_version_def)
  from upload_transaction_success(2)[OF ut] obtain vrow where
    v: "versions (db st') = versions (db st) @ [vrow]"
       "v_file_id vrow = metadata_seq (db st) + 1" by (auto simp: fid)
  from upload_transaction_success(5)[OF ut] obtain m' where
    m: "find (\<lambda>m. m_filename m = filename) (metadata (db st')) = Some m'"
       "m_id m' = metadata_seq (db st) + 1" "m_current_version m' = 1" by (auto simp: fid tv)
  from ok have "\<forall>v\<in>set (versions (db st)). v_file_id v \<le> metadata_seq (db st)"
    by (simp add: catalog_ok_def list_all_iff)
  then have "filter (\<lambda>v. v_file_id v = metadata_seq (db st) + 1) (versions (db st)) = []"
    by (auto simp: filter_empty_conv)
  then have "length (filter (\<lambda>v. v_file_id v = m_id m') (versions (db st'))) = 1"
    using v m(2) by simp
  with m show "version_count filename 1 (db st')" unfolding version_count_def by blast
  show "r_version r = 1" using upload_transaction_success(1)[OF ut] tv by simp
qed

lemma upload_next_version:
  assumes vc: "version_count filename k (db st)"
    and up: "upload_file L rnd now (Some (filename, data)) st = (Inr r, st')"
  shows "version_count filename (Suc k) (db st')" and "r_version r = Suc k"
proof -
  from vc obtain m where m: "find (\<lambda>m. m_filename m = filename) (metadata (db st)) = Some m"
    "m_current_version m = k" "length (filter (\<lambda>v. v_file_id v = m_id m) (versions (db st))) = k"
    unfolding version_count_def by blast
  from upload_file_success[OF up] obtain node cl tsize f1 where
    ut: "upload_transaction L now filename (length data) tsize (calculate_hash L data) node cl f1 (db st)
           = (Inr (db st', r), fs st')" by blast
  have fid: "target_file_id filename (db st) = m_id m"
    and tv: "target_version filename (db st) = Suc k"
    using m by (simp_all add: target_file_id_def target_version_def)
  from upload_transaction_success(2)[OF ut] obtain vrow where
    v: "versions (db st') = versions (db st) @ [vrow]" "v_file_id vrow = m_id m"
    by (auto simp: fid)
  from upload_transaction_success(5)[OF ut] obtain m' where
    m': "find (\<lambda>m. m_filename m = filename) (metadata (db st')) = Some m'"
       "m_id m' = m_id m" "m_current_version m' = Suc k" by (auto simp: fid tv)
  have "length (filter (\<lambda>v. v_file_id v = m_id m') (versions (db st'))) = Suc k"
    using v m(3) m'(2) by simp
  with m' show "version_count filename (Suc k) (db st')" unfolding version_count_def by blast
  show "r_version r = Suc k" using upload_transaction_success(1)[OF ut] tv by simp
qed

lemma upload_all_continues:
  "version_count filename k (db st) \<Longrightarrow> upload_all L filename requests st = (n, st')
     \<Longrightarrow> version_count filename (k + n) (db st')"
proof (induction requests arbitrary: st k n)
  case Nil
  then show ?case by simp
next
  case (Cons req requests)
  obtain rnd now data where req: "req = (rnd, now, data)" by (cases req)
  obtain res st1 where up: "upload_file L rnd now (Some (filename, data)) st = (res, st1)"
    by (rule prod.exhaust)
  show ?case
  proof (cases res)
    case (Inl e)
    with up have "db st1 = db st" by (auto dest: upload_file_failure)
    moreover from Cons.prems(2) up Inl have "upload_all L filename requests st1 = (n, st')"
      by (simp add: req)
    ultimately show ?thesis using Cons.IH[of k st1 n] Cons.prems(1) by simp
  next
    case (Inr r)
    with up Cons.prems(1) have vc: "version_count filename (Suc k) (db st1)"
      by (auto dest: upload_next_version(1))
    obtain n1 st2 where rest: "upload_all L filename requests st1 = (n1, st2)"
      by (rule prod.exhaust)
    with Cons.prems(2) up Inr have n: "n = Suc n1" "st' = st2" by (simp_all add: req)
    from rest n have "upload_all L filename requests st1 = (n1, st')" by simp
    from Cons.IH[OF vc this] n show ?thesis by simp
  qed
qed

text \<open>
  Claim C8. Take a file name the catalog has not seen and any sequence of upload requests
  for it, of which \<open>N \<ge> 1\<close> succeed (a failed upload changes nothing in the catalog).
  Afterwards \<^verbatim>\<open>metadata.current_version\<close> of the file is \<open>N\<close> and the file has exactly
  \<open>N\<close> rows in \<^verbatim>\<open>versions\<close>. The two lemmas before give the steps: the first
  successful upload creates the file at version 1 with one version row, each later one
  adds 1 to the version and one row.
\<close>

theorem upload_version_monotonicity:
  assumes "catalog_ok (db st)"
    and "find (\<lambda>m. m_filename m = filename) (metadata (db st)) = None"
    and "upload_all L filename requests st = (N, st')"
    and "N \<ge> 1"
  shows "\<exists>m. find (\<lambda>m. m_filename m = filename) (metadata (db st')) = Some m \<and>
             m_current_version m = N \<and>
             length (filter (\<lambda>v. v_file_id v = m_id m) (versions (db st'))) = N"
  using assms
proof (induction requests arbitrary: st N)
  case Nil
  then show ?case by simp
next
  case (Cons req requests)
  obtain rnd now data where req: "req = (rnd, now, data)" by (cases req)
  obtain res st1 where up: "upload_file L rnd now (Some (filename, data)) st = (res, st1)"
    by (rule prod.exhaust)
  show ?case
  proof (cases res)
    case (Inl e)
    with up have same: "db st1 = db st" by (auto dest: upload_file_failure)
    from Cons.prems(3) up Inl have "upload_all L filename requests st1 = (N, st')"
      by (simp add: req)
    with Cons.IH[of st1 N] Cons.prems same show ?thesis by simp
  next
    case (Inr r)
    with up Cons.prems(1,2) have vc: "version_count filename 1 (db st1)"
      by (auto dest: upload_first_version(1))
    obtain n1 st2 where rest: "upload_all L filename requests st1 = (n1, st2)"
      by (rule prod.exhaust)
    with Cons.prems(3) up Inr have n: "N = Suc n1" "st' = st2" by (simp_all add: req)
    with upload_all_continues[OF vc rest] show ?thesis by (simp add: version_count_def)
  qed
qed

subsection \<open>What a successful upload stores\<close>

lemma digit_char_inj:
  assumes "a < 10" "b < 10" "digit_char a = digit_char b"
  shows "a = b"
proof -
  have "a \<in> {0,1,2,3,4,5,6,7,8,9}" "b \<in> {0,1,2,3,4,5,6,7,8,9}"
    using assms(1,2) by auto
  with assms(3) show ?thesis
    by (auto simp: digit_char_def)
qed

lemma str_nat_nonempty: "str_nat n \<noteq> []"
  by (subst str_nat.simps) simp

lemma str_nat_inj: "str_nat a = str_nat b \<Longrightarrow> a = b"
proof (induction a arbitrary: b rule: str_nat.induct)
  case (1 n)
  show ?case
  proof (cases "n < 10")
    case True
    show ?thesis
    proof (cases "b < 10")
      case b: True
      from "1.prems" True b have "digit_char n = digit_char b"
        by (simp add: str_nat.simps[of n] str_nat.simps[of b])
      with True b show ?thesis by (rule digit_char_inj)
    next
      case False
      from "1.prems" True False have "[digit_char n] = str_nat (b div 10) @ [digit_char (b mod 10)]"
        by (simp add: str_nat.simps[of n] str_nat.simps[of b])
      then have "str_nat (b div 10) = []" by simp
      with str_nat_nonempty show ?thesis by blast
    qed
  next
    case False
    show ?thesis
    proof (cases "b < 10")
      case True
      from "1.prems" True False have "str_nat (n div 10) @ [digit_char (n mod 10)] = [digit_char b]"
        by (simp add: str_nat.simps[of n] str_nat.simps[of b])
      then have "str_nat (n div 10) = []" by simp
      with str_nat_nonempty show ?thesis by blast
    next
      case b: False
      from "1.prems" False b have
        "str_nat (n div 10) @ [digit_char (n mod 10)] = str_nat (b div 10) @ [digit_char (b mod 10)]"
        by (simp add: str_nat.simps[of n] str_nat.simps[of b])
      then have e: "str_nat (n div 10) = str_nat (b div 10)" "digit_char (n mod 10) = digit_char (b mod 10)"
        by simp_all
      from "1.IH"[OF False e(1)] have d: "n div 10 = b div 10" .
      have "n mod 10 = b mod 10" using e(2) by (intro digit_char_inj) simp_all
      with d show ?thesis by (metis div_mult_mod_eq)
    qed
  qed
qed

lemma chunk_filename_inj: "chunk_filename name i = chunk_filename name j \<Longrightarrow> i = j"
  by (simp add: chunk_filename_def str_nat_inj)

lemma chunk_path_inj:
  assumes "d1 \<in> snd ` set UPLOAD_FOLDERS" "d2 \<in> snd ` set UPLOAD_FOLDERS"
    and "os_path_join d1 (chunk_filename name i) = os_path_join d2 (chunk_filename name j)"
  shows "i = j"
proof (cases "chunk_filename name i \<noteq> [] \<and> hd (chunk_filename name i) = CHR ''/''")
  case True
  then have "name \<noteq> [] \<and> hd name = CHR ''/''"
    by (cases name) (auto simp: chunk_filename_def)
  then have "hd (chunk_filename name j) = CHR ''/''" "chunk_filename name j \<noteq> []"
    by (auto simp: chunk_filename_def)
  with True assms(3) have "chunk_filename name i = chunk_filename name j"
    by (simp add: os_path_join_def)
  then show ?thesis by (rule chunk_filename_inj)
next
  case False
  then have nj: "\<not> (chunk_filename name j \<noteq> [] \<and> hd (chunk_filename name j) = CHR ''/'')"
    by (cases name) (auto simp: chunk_filename_def)
  from assms(1,2) have len: "length d1 = length d2" and ne: "d1 \<noteq> []" "d2 \<noteq> []"
    and l: "last d1 \<noteq> CHR ''/''" "last d2 \<noteq> CHR ''/''"
    by (auto simp: UPLOAD_FOLDERS_def)
  from assms(3) False nj ne l have "d1 @ ''/'' @ chunk_filename name i = d2 @ ''/'' @ chunk_filename name j"
    by (simp add: os_path_join_def)
  with len have "chunk_filename name i = chunk_filename name j" by simp
  then show ?thesis by (rule chunk_filename_inj)
qed

lemma read_chunks_concat: "0 < n \<Longrightarrow> concat (read_chunks n data) = data"
proof (induction n data rule: read_chunks.induct)
  case (1 n data)
  show ?case
  proof (cases "data = []")
    case True
    then show ?thesis by (simp add: read_chunks.simps[of n "[]"])
  next
    case False
    with 1 have "concat (read_chunks n (drop n data)) = drop n data" by simp
    with False "1.prems" show ?thesis by (simp add: read_chunks.simps[of n data])
  qed
qed

lemma read_chunks_empty_iff: "0 < n \<Longrightarrow> read_chunks n data = [] \<longleftrightarrow> data = []"
  by (subst read_chunks.simps) simp

lemma map_of_write_file:
  "map_of (write_file p b f) q = (if q = p then Some b else map_of f q)"
  by (simp add: write_file_def update_conv')

lemma store_chunks_Cons_None:
  assumes "store_chunks L rnd name k (c # rest) f = (None, cl, tsize, f')"
  shows "\<exists>node folder cl' t'.
           map_of UPLOAD_FOLDERS node = Some folder \<and>
           store_chunks L rnd name (k + 1) rest
              (write_file (os_path_join folder (chunk_filename name k))
                 (encrypt_and_compress_data L (rnd k) c) f) = (None, cl', t', f') \<and>
           cl = (k, os_path_join folder (chunk_filename name k)) # cl'"
proof (cases "select_storage_node (length (encrypt_and_compress_data L (rnd k) c)) UPLOAD_FOLDERS [] f")
  case (Inl e)
  with assms show ?thesis by (simp add: Let_def)
next
  case (Inr node)
  show ?thesis
  proof (cases "map_of UPLOAD_FOLDERS node")
    case None
    with assms Inr show ?thesis by (simp add: Let_def)
  next
    case (Some folder)
    obtain err cl' t' f'' where rec:
      "store_chunks L rnd name (k + 1) rest
              (write_file (os_path_join folder (chunk_filename name k))
                 (encrypt_and_compress_data L (rnd k) c) f) = (err, cl', t', f'')"
      by (rule prod_cases4)
    with assms Inr Some have "err = None" "cl = (k, os_path_join folder (chunk_filename name k)) # cl'"
      "f' = f''" by (simp_all add: Let_def)
    with rec Some show ?thesis by blast
  qed
qed

lemma store_chunks_post:
  assumes "store_chunks L rnd name k cs f = (None, cl, tsize, f')"
  shows "length cl = length cs \<and>
         (\<forall>j < length cs. fst (cl ! j) = k + j \<and>
            (\<exists>d \<in> snd ` set UPLOAD_FOLDERS. snd (cl ! j) = os_path_join d (chunk_filename name (k + j))) \<and>
            map_of f' (snd (cl ! j)) = Some (encrypt_and_compress_data L (rnd (k + j)) (cs ! j))) \<and>
         (\<forall>q. q \<notin> snd ` set cl \<longrightarrow> map_of f' q = map_of f q)"
  using assms
proof (induction cs arbitrary: k f cl tsize)
  case Nil
  then show ?case by simp
next
  case (Cons c rest)
  from store_chunks_Cons_None[OF Cons.prems] obtain node folder cl' t' where
    folder: "map_of UPLOAD_FOLDERS node = Some folder" and
    rec: "store_chunks L rnd name (k + 1) rest
              (write_file (os_path_join folder (chunk_filename name k))
                 (encrypt_and_compress_data L (rnd k) c) f) = (None, cl', t', f')" and
    cl: "cl = (k, os_path_join folder (chunk_filename name k)) # cl'" by blast
  define p0 where "p0 = os_path_join folder (chunk_filename name k)"
  define f1 where "f1 = write_file p0 (encrypt_and_compress_data L (rnd k) c) f"
  from folder have fin: "folder \<in> snd ` set UPLOAD_FOLDERS"
    by (force dest: map_of_SomeD)
  from Cons.IH[OF rec] have
    len: "length cl' = length rest" and
    each: "\<And>j. j < length rest \<Longrightarrow> fst (cl' ! j) = k + 1 + j \<and>
            (\<exists>d \<in> snd ` set UPLOAD_FOLDERS. snd (cl' ! j) = os_path_join d (chunk_filename name (k + 1 + j))) \<and>
            map_of f' (snd (cl' ! j)) = Some (encrypt_and_compress_data L (rnd (k + 1 + j)) (rest ! j))" and
    frame: "\<And>q. q \<notin> snd ` set cl' \<Longrightarrow> map_of f' q = map_of f1 q"
    unfolding p0_def f1_def by auto
  have p0_fresh: "p0 \<notin> snd ` set cl'"
  proof
    assume "p0 \<in> snd ` set cl'"
    then obtain j where j: "j < length cl'" "snd (cl' ! j) = p0"
      by (auto simp: in_set_conv_nth)
    with each[of j] len obtain d where "d \<in> snd ` set UPLOAD_FOLDERS"
      "p0 = os_path_join d (chunk_filename name (k + 1 + j))" by auto
    with fin have "k = k + 1 + j" unfolding p0_def by (intro chunk_path_inj[of folder d name]) simp_all
    then show False by simp
  qed
  have "\<forall>j < length (c # rest). fst (cl ! j) = k + j \<and>
            (\<exists>d \<in> snd ` set UPLOAD_FOLDERS. snd (cl ! j) = os_path_join d (chunk_filename name (k + j))) \<and>
            map_of f' (snd (cl ! j)) = Some (encrypt_and_compress_data L (rnd (k + j)) ((c # rest) ! j))"
  proof (intro allI impI)
    fix j assume j: "j < length (c # rest)"
    show "fst (cl ! j) = k + j \<and>
            (\<exists>d \<in> snd ` set UPLOAD_FOLDERS. snd (cl ! j) = os_path_join d (chunk_filename name (k + j))) \<and>
            map_of f' (snd (cl ! j)) = Some (encrypt_and_compress_data L (rnd (k + j)) ((c # rest) ! j))"
    proof (cases j)
      case 0
      have "map_of f' p0 = map_of f1 p0" using p0_fresh by (rule frame)
      then have "map_of f' p0 = Some (encrypt_and_compress_data L (rnd k) c)"
        by (simp add: f1_def map_of_write_file)
      with 0 fin show ?thesis by (auto simp: cl p0_def)
    next
      case (Suc i)
      with j have "i < length rest" by simp
      from each[OF this] Suc show ?thesis by (simp add: cl)
    qed
  qed
  moreover have "\<forall>q. q \<notin> snd ` set cl \<longrightarrow> map_of f' q = map_of f q"
  proof (intro allI impI)
    fix q assume "q \<notin> snd ` set cl"
    then have "q \<noteq> p0" "q \<notin> snd ` set cl'" by (auto simp: cl p0_def)
    then show "map_of f' q = map_of f q" using frame[of q] by (simp add: f1_def map_of_write_file)
  qed
  moreover have "length cl = length (c # rest)" by (simp add: cl len)
  ultimately show ?case by blast
qed

lemma replica_round_cases:
  "replica_round p sz folders (locs, ex, g) = (locs, ex, g) \<or>
   (\<exists>node folder content.
       map_of folders node = Some folder \<and>
       map_of g (os_path_join folder (os_path_basename p)) = None \<and>
       map_of g p = Some content \<and>
       replica_round p sz folders (locs, ex, g) =
         (locs @ [os_path_join folder (os_path_basename p)], ex @ [node],
          write_file (os_path_join folder (os_path_basename p)) content g))"
  by (auto simp: replica_round_def Let_def os_path_exists_def split: sum.splits option.splits)

definition replicas_of ::
  "filesystem \<Rightarrow> path \<Rightarrow> bytes \<Rightarrow> path list \<times> node list \<times> filesystem \<Rightarrow> bool" where
  "replicas_of f p content acc =
     (case acc of (locs, ex, g) \<Rightarrow>
        distinct locs \<and>
        (\<forall>q\<in>set locs. map_of f q = None \<and> map_of g q = Some content \<and>
            (\<exists>folder\<in>snd ` set UPLOAD_FOLDERS. q = os_path_join folder (os_path_basename p))) \<and>
        (\<forall>q. q \<notin> set locs \<longrightarrow> map_of g q = map_of f q))"

lemma replica_round_keeps:
  assumes src: "map_of f p = Some content"
    and inv: "replicas_of f p content acc"
  shows "replicas_of f p content (replica_round p sz UPLOAD_FOLDERS acc)"
proof -
  obtain locs ex g where acc: "acc = (locs, ex, g)" by (cases acc)
  from inv have d: "distinct locs"
    and l: "\<And>q. q \<in> set locs \<Longrightarrow> map_of f q = None \<and> map_of g q = Some content \<and>
            (\<exists>folder\<in>snd ` set UPLOAD_FOLDERS. q = os_path_join folder (os_path_basename p))"
    and fr: "\<And>q. q \<notin> set locs \<Longrightarrow> map_of g q = map_of f q"
    unfolding replicas_of_def acc by auto
  from replica_round_cases[of p sz UPLOAD_FOLDERS locs ex g] show ?thesis
  proof
    assume "replica_round p sz UPLOAD_FOLDERS (locs, ex, g) = (locs, ex, g)"
    with inv show ?thesis by (simp add: acc)
  next
    assume "\<exists>node folder content.
       map_of UPLOAD_FOLDERS node = Some folder \<and>
       map_of g (os_path_join folder (os_path_basename p)) = None \<and>
       map_of g p = Some content \<and>
       replica_round p sz UPLOAD_FOLDERS (locs, ex, g) =
         (locs @ [os_path_join folder (os_path_basename p)], ex @ [node],
          write_file (os_path_join folder (os_path_basename p)) content g)"
    then obtain node folder c' where
      folder: "map_of UPLOAD_FOLDERS node = Some folder" and
      fresh: "map_of g (os_path_join folder (os_path_basename p)) = None" and
      c': "map_of g p = Some c'" and
      step: "replica_round p sz UPLOAD_FOLDERS (locs, ex, g) =
         (locs @ [os_path_join folder (os_path_basename p)], ex @ [node],
          write_file (os_path_join folder (os_path_basename p)) c' g)" by blast
    define q0 where "q0 = os_path_join folder (os_path_basename p)"
    have pnot: "p \<notin> set locs" using l[of p] src by auto
    then have "c' = content" using c' fr[of p] src by simp
    have q0not: "q0 \<notin> set locs" using l[of q0] fresh by (auto simp: q0_def)
    then have q0f: "map_of f q0 = None" using fr[of q0] fresh by (simp add: q0_def)
    have fin: "folder \<in> snd ` set UPLOAD_FOLDERS" using folder by (force dest: map_of_SomeD)
    have "distinct (locs @ [q0])" using d q0not by simp
    moreover have "\<forall>q\<in>set (locs @ [q0]). map_of f q = None \<and>
          map_of (write_file q0 content g) q = Some content \<and>
          (\<exists>folder\<in>snd ` set UPLOAD_FOLDERS. q = os_path_join folder (os_path_basename p))"
      using l q0f fin by (auto simp: map_of_write_file q0_def)
    moreover have "\<forall>q. q \<notin> set (locs @ [q0]) \<longrightarrow> map_of (write_file q0 content g) q = map_of f q"
      using fr by (auto simp: map_of_write_file)
    ultimately show ?thesis
      unfolding acc step replicas_of_def q0_def[symmetric] \<open>c' = content\<close> by simp
  qed
qed

lemma replicate_chunk_post:
  assumes "replicate_chunk p UPLOAD_FOLDERS f = (Inr rl, f1)"
  shows "\<exists>content. map_of f p = Some content \<and> distinct rl \<and>
           (\<forall>q\<in>set rl. map_of f q = None \<and> map_of f1 q = Some content \<and>
              (\<exists>folder\<in>snd ` set UPLOAD_FOLDERS. q = os_path_join folder (os_path_basename p))) \<and>
           (\<forall>q. q \<notin> set rl \<longrightarrow> map_of f1 q = map_of f q)"
proof (cases "map_of f p")
  case None
  with assms show ?thesis by (simp add: replicate_chunk_def)
next
  case (Some content)
  define ex where "ex = (case find (\<lambda>(node, folder). startswith p folder) UPLOAD_FOLDERS of
                           Some (node, folder) \<Rightarrow> [node] | None \<Rightarrow> [])"
  define acc2 where "acc2 = replica_round p (length content) UPLOAD_FOLDERS
                       (replica_round p (length content) UPLOAD_FOLDERS ([], ex, f))"
  from assms Some have res: "rl = fst acc2" "f1 = snd (snd acc2)"
    by (simp_all add: replicate_chunk_def Let_def acc2_def ex_def)
  have "replicas_of f p content ([], ex, f)" by (simp add: replicas_of_def)
  then have "replicas_of f p content acc2"
    unfolding acc2_def by (intro replica_round_keeps[OF Some])
  then show ?thesis using Some res by (cases acc2) (simp add: replicas_of_def)
qed

definition new_row_ok ::
  "externals \<Rightarrow> filesystem \<Rightarrow> filesystem \<Rightarrow> nat \<Rightarrow> nat \<Rightarrow> (nat \<Rightarrow> bytes) \<Rightarrow> (nat \<times> path) list
     \<Rightarrow> chunk_row \<Rightarrow> bool" where
  "new_row_ok L f0 f' file_id version pay cl r =
     (c_file_id r = file_id \<and> c_version_number r = version \<and> c_status r = Active \<and>
      (\<exists>j < length cl.
          c_chunk_index r = fst (cl ! j) \<and>
          (c_chunk_location r = snd (cl ! j) \<or>
           (map_of f0 (c_chunk_location r) = None \<and>
            (\<exists>folder\<in>snd ` set UPLOAD_FOLDERS.
                c_chunk_location r = os_path_join folder (os_path_basename (snd (cl ! j)))))) \<and>
          map_of f' (c_chunk_location r) = Some (pay (fst (cl ! j))) \<and>
          c_chunk_hash r = calculate_hash L (pay (fst (cl ! j)))))"

lemma fold_insert_chunk_rows:
  "\<exists>rows. chunks (fold (\<lambda>q. insert_chunk (g q)) rl d) = chunks d @ rows \<and>
          length rows = length rl \<and>
          (\<forall>k < length rl. \<exists>n. rows ! k = (g (rl ! k))\<lparr>c_id := n\<rparr>)"
proof (induction rl arbitrary: d)
  case Nil
  then show ?case by simp
next
  case (Cons q rl)
  from Cons.IH[of "insert_chunk (g q) d"] obtain rows where
    rows: "chunks (fold (\<lambda>q. insert_chunk (g q)) rl (insert_chunk (g q) d))
             = chunks (insert_chunk (g q) d) @ rows"
          "length rows = length rl"
          "\<forall>k < length rl. \<exists>n. rows ! k = (g (rl ! k))\<lparr>c_id := n\<rparr>" by blast
  define rows' where "rows' = (g q)\<lparr>c_id := chunks_seq d + 1\<rparr> # rows"
  have "chunks (fold (\<lambda>q. insert_chunk (g q)) (q # rl) d) = chunks d @ rows'"
    using rows(1) by (simp add: rows'_def insert_chunk_def)
  moreover have "length rows' = length (q # rl)" by (simp add: rows'_def rows(2))
  moreover have "\<forall>k < length (q # rl). \<exists>n. rows' ! k = (g ((q # rl) ! k))\<lparr>c_id := n\<rparr>"
  proof (intro allI impI)
    fix k assume "k < length (q # rl)"
    then show "\<exists>n. rows' ! k = (g ((q # rl) ! k))\<lparr>c_id := n\<rparr>"
      using rows(3) by (cases k) (auto simp: rows'_def)
  qed
  ultimately show ?case by blast
qed

lemma store_chunk_rows_Cons:
  assumes "store_chunk_rows L file_id version ((i, p) # rest) f d locs = (Inr (d', locs'), f')"
  shows "\<exists>content rl f1.
           map_of f p = Some content \<and>
           replicate_chunk p UPLOAD_FOLDERS f = (Inr rl, f1) \<and>
           store_chunk_rows L file_id version rest f1
             (fold (\<lambda>replica_path. insert_chunk
                       (new_chunk_row file_id version i replica_path (length content)
                          (calculate_hash L content)))
                   rl (insert_chunk (new_chunk_row file_id version i p (length content)
                                       (calculate_hash L content)) d))
             (locs @ os_path_dirname p # map os_path_dirname rl) = (Inr (d', locs'), f')"
proof (cases "map_of f p")
  case None
  with assms show ?thesis by simp
next
  case (Some content)
  obtain res f1 where r: "replicate_chunk p UPLOAD_FOLDERS f = (res, f1)" by (rule prod.exhaust)
  show ?thesis
  proof (cases res)
    case (Inl e)
    with assms Some r show ?thesis by (simp add: Let_def)
  next
    case (Inr rl)
    with assms Some r show ?thesis by (simp add: Let_def)
  qed
qed

lemma store_chunk_rows_post:
  assumes "store_chunk_rows L file_id version cl f d locs = (Inr (d', locs'), f')"
    and "\<forall>j < length cl. map_of f (snd (cl ! j)) = Some (pay (fst (cl ! j)))"
  shows "\<exists>new. chunks d' = chunks d @ new \<and>
           (\<forall>r\<in>set new. new_row_ok L f f' file_id version pay cl r) \<and>
           (\<forall>j < length cl. \<exists>r\<in>set new. c_chunk_index r = fst (cl ! j) \<and>
                                           c_chunk_location r = snd (cl ! j)) \<and>
           (\<forall>q. map_of f q \<noteq> None \<longrightarrow> map_of f' q = map_of f q)"
  using assms
proof (induction cl arbitrary: f d locs)
  case Nil
  then show ?case by simp
next
  case (Cons a rest)
  obtain i p where a: "a = (i, p)" by (cases a)
  from store_chunk_rows_Cons[OF Cons.prems(1)[unfolded a]] obtain content rl f1 where
    src: "map_of f p = Some content" and
    rep: "replicate_chunk p UPLOAD_FOLDERS f = (Inr rl, f1)" and
    rec: "store_chunk_rows L file_id version rest f1
             (fold (\<lambda>replica_path. insert_chunk
                       (new_chunk_row file_id version i replica_path (length content)
                          (calculate_hash L content)))
                   rl (insert_chunk (new_chunk_row file_id version i p (length content)
                                       (calculate_hash L content)) d))
             (locs @ os_path_dirname p # map os_path_dirname rl) = (Inr (d', locs'), f')"
    by blast
  from Cons.prems(2)[rule_format, of 0] have content: "content = pay i"
    using src by (simp add: a)
  define d1 where "d1 = insert_chunk (new_chunk_row file_id version i p (length content)
                                       (calculate_hash L content)) d"
  define d2 where "d2 = fold (\<lambda>replica_path. insert_chunk
                       (new_chunk_row file_id version i replica_path (length content)
                          (calculate_hash L content))) rl d1"
  from replicate_chunk_post[OF rep] src have
    rl: "\<And>q. q \<in> set rl \<Longrightarrow> map_of f q = None \<and> map_of f1 q = Some content \<and>
              (\<exists>folder\<in>snd ` set UPLOAD_FOLDERS. q = os_path_join folder (os_path_basename p))"
    and fr1: "\<And>q. q \<notin> set rl \<Longrightarrow> map_of f1 q = map_of f q"
    by auto
  have keep1: "map_of f1 q = map_of f q" if "map_of f q \<noteq> None" for q
    using that rl[of q] fr1[of q] by (cases "q \<in> set rl") auto
  have pre_rest: "\<forall>j < length rest. map_of f1 (snd (rest ! j)) = Some (pay (fst (rest ! j)))"
  proof (intro allI impI)
    fix j assume "j < length rest"
    then have "map_of f (snd (rest ! j)) = Some (pay (fst (rest ! j)))"
      using Cons.prems(2)[rule_format, of "Suc j"] by simp
    then show "map_of f1 (snd (rest ! j)) = Some (pay (fst (rest ! j)))"
      using keep1 by simp
  qed
  from Cons.IH[OF rec pre_rest] obtain new' where
    n1: "chunks d' = chunks d2 @ new'" and
    n2: "\<And>r. r \<in> set new' \<Longrightarrow> new_row_ok L f1 f' file_id version pay rest r" and
    n3: "\<And>j. j < length rest \<Longrightarrow> \<exists>r\<in>set new'. c_chunk_index r = fst (rest ! j) \<and>
                                           c_chunk_location r = snd (rest ! j)" and
    n4: "\<And>q. map_of f1 q \<noteq> None \<Longrightarrow> map_of f' q = map_of f1 q"
    unfolding d1_def d2_def by blast
  from fold_insert_chunk_rows[of "\<lambda>replica_path. new_chunk_row file_id version i replica_path
        (length content) (calculate_hash L content)" rl d1]
  obtain rrows where
    rr1: "chunks d2 = chunks d1 @ rrows" and
    rr2: "length rrows = length rl" and
    rr3: "\<And>k. k < length rl \<Longrightarrow> \<exists>n. rrows ! k =
            (new_chunk_row file_id version i (rl ! k) (length content) (calculate_hash L content))\<lparr>c_id := n\<rparr>"
    unfolding d2_def by blast
  define prow where "prow = (new_chunk_row file_id version i p (length content)
                               (calculate_hash L content))\<lparr>c_id := chunks_seq d + 1\<rparr>"
  have d1c: "chunks d1 = chunks d @ [prow]" by (simp add: d1_def insert_chunk_def prow_def)
  define new where "new = prow # rrows @ new'"
  have all: "chunks d' = chunks d @ new" by (simp add: n1 rr1 d1c new_def)
  have keep: "map_of f' q = map_of f q" if "map_of f q \<noteq> None" for q
    using that keep1[of q] n4[of q] by simp
  have pf': "map_of f' p = Some (pay i)" using keep[of p] src content by simp
  have prow_ok: "new_row_ok L f f' file_id version pay (a # rest) prow"
    unfolding new_row_ok_def
    by (intro conjI; (simp add: prow_def new_chunk_row_def)?)
       (rule exI[of _ 0], simp add: prow_def new_chunk_row_def a pf' content)
  have rrows_ok: "new_row_ok L f f' file_id version pay (a # rest) r" if "r \<in> set rrows" for r
  proof -
    from that obtain k where k: "k < length rrows" "rrows ! k = r" by (auto simp: in_set_conv_nth)
    with rr2 rr3[of k] obtain n where r: "r = (new_chunk_row file_id version i (rl ! k) (length content)
           (calculate_hash L content))\<lparr>c_id := n\<rparr>" by auto
    have q: "rl ! k \<in> set rl" using k rr2 by simp
    from rl[OF q] have "map_of f (rl ! k) = None" "map_of f1 (rl ! k) = Some content"
      "\<exists>folder\<in>snd ` set UPLOAD_FOLDERS. rl ! k = os_path_join folder (os_path_basename p)"
      by auto
    moreover from this(2) n4[of "rl ! k"] have "map_of f' (rl ! k) = Some content" by simp
    ultimately show ?thesis
      unfolding new_row_ok_def r
      by (intro conjI; (simp add: new_chunk_row_def)?)
         (rule exI[of _ 0], simp add: a content new_chunk_row_def)
  qed
  have new'_ok: "new_row_ok L f f' file_id version pay (a # rest) r" if "r \<in> set new'" for r
  proof -
    from n2[OF that] obtain j where j: "j < length rest"
      "c_chunk_index r = fst (rest ! j)"
      "c_chunk_location r = snd (rest ! j) \<or>
           (map_of f1 (c_chunk_location r) = None \<and>
            (\<exists>folder\<in>snd ` set UPLOAD_FOLDERS.
                c_chunk_location r = os_path_join folder (os_path_basename (snd (rest ! j)))))"
      "map_of f' (c_chunk_location r) = Some (pay (fst (rest ! j)))"
      "c_chunk_hash r = calculate_hash L (pay (fst (rest ! j)))"
      and basic: "c_file_id r = file_id" "c_version_number r = version" "c_status r = Active"
      unfolding new_row_ok_def by blast
    have "map_of f (c_chunk_location r) = None" if "map_of f1 (c_chunk_location r) = None"
      using that keep1[of "c_chunk_location r"] by (cases "map_of f (c_chunk_location r)") auto
    with j(3) have loc: "c_chunk_location r = snd ((a # rest) ! Suc j) \<or>
           (map_of f (c_chunk_location r) = None \<and>
            (\<exists>folder\<in>snd ` set UPLOAD_FOLDERS.
                c_chunk_location r = os_path_join folder (os_path_basename (snd ((a # rest) ! Suc j)))))"
      by auto
    show ?thesis unfolding new_row_ok_def
      using basic j(1,2,4,5) loc by (intro conjI; simp?) (rule exI[of _ "Suc j"], simp)
  qed
  have ok: "\<forall>r\<in>set new. new_row_ok L f f' file_id version pay (a # rest) r"
    using prow_ok rrows_ok new'_ok by (auto simp: new_def)
  have cover: "\<forall>j < length (a # rest). \<exists>r\<in>set new. c_chunk_index r = fst ((a # rest) ! j) \<and>
                                           c_chunk_location r = snd ((a # rest) ! j)"
  proof (intro allI impI)
    fix j assume j: "j < length (a # rest)"
    show "\<exists>r\<in>set new. c_chunk_index r = fst ((a # rest) ! j) \<and>
                                           c_chunk_location r = snd ((a # rest) ! j)"
    proof (cases j)
      case 0
      then show ?thesis by (auto simp: new_def prow_def new_chunk_row_def a)
    next
      case (Suc k)
      with j n3[of k] show ?thesis by (auto simp: new_def)
    qed
  qed
  from all ok cover keep show ?case by blast
qed


subsection \<open>Reading a stored version back\<close>

lemma library_contract_decrypt:
  "library_contract L \<Longrightarrow>
   decrypt_and_decompress_data L (encrypt_and_compress_data L nonce data) = Inr data"
  by (simp add: library_contract_def decrypt_and_decompress_data_def
        encrypt_and_compress_data_def decompress_data_def compress_data_def)

lemma reassemble_map:
  assumes "\<forall>i\<in>set xs. read_valid_chunk L f (sel i) = Inr (pay i) \<and>
                         decrypt_and_decompress_data L (pay i) = Inr (plain i)"
  shows "reassemble L f (map sel xs) = Inr (concat (map plain xs))"
  using assms by (induction xs) simp_all

lemma sort_remdups_upt:
  assumes "set xs = {0..<n}"
  shows "sort (remdups xs) = [0..<n]"
proof -
  have "sort (remdups xs) = sorted_list_of_set (set xs)"
    by (simp add: sorted_list_of_set_sort_remdups)
  also have "\<dots> = [0..<n]" using assms by simp
  finally show ?thesis .
qed

lemma download_chunks_reassemble:
  assumes rows: "filter (\<lambda>c. c_file_id c = file_id \<and> c_version_number c = version \<and>
                              c_status c = Active) (chunks d) = rows"
    and idx: "c_chunk_index ` set rows = {0..<length cs}"
    and valid: "\<forall>r\<in>set rows. read_valid_chunk L f r = Inr (pay (c_chunk_index r)) \<and>
                  decrypt_and_decompress_data L (pay (c_chunk_index r)) = Inr (cs ! c_chunk_index r)"
  shows "reassemble L f (download_chunks pick file_id version d) = Inr (concat cs)"
    and "length (download_chunks pick file_id version d) = length cs"
proof -
  define sel where "sel = (\<lambda>i. let g = filter (\<lambda>c. c_chunk_index c = i) rows
                               in g ! (pick g mod length g))"
  have dc: "download_chunks pick file_id version d = map sel [0..<length cs]"
    using idx by (simp add: download_chunks_def rows Let_def sel_def sort_remdups_upt)
  have sel: "sel i \<in> set rows \<and> c_chunk_index (sel i) = i" if "i < length cs" for i
  proof -
    define g where "g = filter (\<lambda>c. c_chunk_index c = i) rows"
    from that idx have "i \<in> c_chunk_index ` set rows" by simp
    then have "g \<noteq> []" by (auto simp: g_def filter_empty_conv)
    then have "g ! (pick g mod length g) \<in> set g" by simp
    then show ?thesis by (simp add: sel_def g_def Let_def)
  qed
  have "reassemble L f (map sel [0..<length cs]) = Inr (concat (map (\<lambda>i. cs ! i) [0..<length cs]))"
  proof (rule reassemble_map[where pay = pay], intro ballI)
    fix i assume "i \<in> set [0..<length cs]"
    then have "i < length cs" by simp
    from sel[OF this] valid
    show "read_valid_chunk L f (sel i) = Inr (pay i) \<and>
          decrypt_and_decompress_data L (pay i) = Inr (cs ! i)" by auto
  qed
  then show "reassemble L f (download_chunks pick file_id version d) = Inr (concat cs)"
    by (simp add: dc map_nth)
  show "length (download_chunks pick file_id version d) = length cs" by (simp add: dc)
qed

lemma find_filter_Cons:
  "find P xs = Some x \<Longrightarrow> \<exists>rest. filter P xs = x # rest"
  by (induction xs) (auto split: if_splits)

lemma resolve_download_current:
  assumes "find (\<lambda>m. m_filename m = filename) (metadata d) = Some m"
  shows "resolve_download filename None d = Inr (m_id m, m_current_version m)"
proof -
  from find_filter_Cons[OF assms] obtain rest where
    "filter (\<lambda>m. m_filename m = filename) (metadata d) = m # rest" by blast
  then show ?thesis
    by (simp add: resolve_download_def download_lookup_def row_get_def)
qed

lemma read_valid_chunk_primary:
  assumes "map_of f (c_chunk_location r) = Some x" "c_chunk_hash r = calculate_hash L x"
  shows "read_valid_chunk L f r = Inr x"
  using assms by (simp add: read_valid_chunk_def)

definition payload :: "externals \<Rightarrow> (nat \<Rightarrow> nat) \<Rightarrow> bytes \<Rightarrow> nat \<Rightarrow> bytes" where
  "payload L rnd data i = encrypt_and_compress_data L (rnd i) (read_chunks CHUNK_SIZE data ! i)"

definition upload_post ::
  "externals \<Rightarrow> (nat \<Rightarrow> nat) \<Rightarrow> string \<Rightarrow> bytes \<Rightarrow> state \<Rightarrow> state \<Rightarrow> (nat \<times> path) list
     \<Rightarrow> chunk_row list \<Rightarrow> bool" where
  "upload_post L rnd filename data st st' cl new =
     (length cl = length (read_chunks CHUNK_SIZE data) \<and>
      (\<forall>j < length cl. \<exists>d\<in>snd ` set UPLOAD_FOLDERS.
           snd (cl ! j) = os_path_join d (chunk_filename (secure_filename L filename) j)) \<and>
      chunks (db st') = chunks (db st) @ new \<and>
      (\<forall>r\<in>set new.
          c_file_id r = target_file_id filename (db st) \<and>
          c_version_number r = target_version filename (db st) \<and>
          c_status r = Active \<and>
          c_chunk_index r < length cl \<and>
          map_of (fs st') (c_chunk_location r) = Some (payload L rnd data (c_chunk_index r)) \<and>
          c_chunk_hash r = calculate_hash L (payload L rnd data (c_chunk_index r)) \<and>
          (c_chunk_location r = snd (cl ! c_chunk_index r) \<or>
           (\<exists>folder\<in>snd ` set UPLOAD_FOLDERS.
              c_chunk_location r =
                os_path_join folder (os_path_basename (snd (cl ! c_chunk_index r)))))) \<and>
      (\<forall>j < length cl. \<exists>r\<in>set new. c_chunk_index r = j \<and>
                                      c_chunk_location r = snd (cl ! j)) \<and>
      (\<forall>q. map_of (fs st) q \<noteq> None \<longrightarrow> q \<notin> snd ` set cl \<longrightarrow>
            map_of (fs st') q = map_of (fs st) q))"

lemma upload_file_post:
  assumes up: "upload_file L rnd now (Some (filename, data)) st = (Inr r, st')"
  shows "\<exists>cl new. upload_post L rnd filename data st st' cl new"
proof -
  define cs where "cs = read_chunks CHUNK_SIZE data"
  define name where "name = secure_filename L filename"
  define fid where "fid = target_file_id filename (db st)"
  define v where "v = target_version filename (db st)"
  from upload_file_success[OF up] obtain node cl tsize f1 where
    sc: "store_chunks L rnd name 0 cs (fs st) = (None, cl, tsize, f1)" and
    ut: "upload_transaction L now filename (length data) tsize (calculate_hash L data) node cl f1 (db st)
           = (Inr (db st', r), fs st')"
    unfolding cs_def name_def by blast
  from store_chunks_post[OF sc] have
    len: "length cl = length cs" and
    each: "\<And>j. j < length cs \<Longrightarrow> fst (cl ! j) = j \<and>
            (\<exists>d \<in> snd ` set UPLOAD_FOLDERS. snd (cl ! j) = os_path_join d (chunk_filename name j)) \<and>
            map_of f1 (snd (cl ! j)) = Some (payload L rnd data j)" and
    frame1: "\<And>q. q \<notin> snd ` set cl \<Longrightarrow> map_of f1 q = map_of (fs st) q"
    by (auto simp: payload_def cs_def)
  from upload_transaction_success(4)[OF ut] obtain d2 d3 locs where
    d2: "chunks d2 = chunks (db st)" and
    scr: "store_chunk_rows L fid v cl f1 d2 [] = (Inr (d3, locs), fs st')" and
    d3: "chunks (db st') = chunks d3"
    unfolding fid_def v_def by blast
  have pre: "\<forall>j < length cl. map_of f1 (snd (cl ! j)) = Some (payload L rnd data (fst (cl ! j)))"
    using each len by simp
  from store_chunk_rows_post[OF scr pre] obtain new where
    n1: "chunks d3 = chunks d2 @ new" and
    n2: "\<And>r. r \<in> set new \<Longrightarrow> new_row_ok L f1 (fs st') fid v (payload L rnd data) cl r" and
    n3: "\<And>j. j < length cl \<Longrightarrow> \<exists>r\<in>set new. c_chunk_index r = fst (cl ! j) \<and>
                                           c_chunk_location r = snd (cl ! j)" and
    n4: "\<And>q. map_of f1 q \<noteq> None \<Longrightarrow> map_of (fs st') q = map_of f1 q"
    by blast
  have rows: "c_file_id r = fid \<and> c_version_number r = v \<and> c_status r = Active \<and>
               c_chunk_index r < length cl \<and>
               map_of (fs st') (c_chunk_location r) = Some (payload L rnd data (c_chunk_index r)) \<and>
               c_chunk_hash r = calculate_hash L (payload L rnd data (c_chunk_index r)) \<and>
               (c_chunk_location r = snd (cl ! c_chunk_index r) \<or>
                (\<exists>folder\<in>snd ` set UPLOAD_FOLDERS.
                   c_chunk_location r =
                     os_path_join folder (os_path_basename (snd (cl ! c_chunk_index r)))))"
    if "r \<in> set new" for r
  proof -
    from n2[OF that] obtain j where j: "j < length cl" "c_chunk_index r = fst (cl ! j)"
      "c_chunk_location r = snd (cl ! j) \<or>
           (map_of f1 (c_chunk_location r) = None \<and>
            (\<exists>folder\<in>snd ` set UPLOAD_FOLDERS.
                c_chunk_location r = os_path_join folder (os_path_basename (snd (cl ! j)))))"
      "map_of (fs st') (c_chunk_location r) = Some (payload L rnd data (fst (cl ! j)))"
      "c_chunk_hash r = calculate_hash L (payload L rnd data (fst (cl ! j)))"
      and basic: "c_file_id r = fid" "c_version_number r = v" "c_status r = Active"
      unfolding new_row_ok_def by blast
    from j(1) each[of j] len have "fst (cl ! j) = j" by simp
    with j basic show ?thesis by auto
  qed
  have cover: "\<exists>r\<in>set new. c_chunk_index r = j \<and> c_chunk_location r = snd (cl ! j)"
    if "j < length cl" for j
    using n3[OF that] each[of j] that len by auto
  have frame: "map_of (fs st') q = map_of (fs st) q"
    if "map_of (fs st) q \<noteq> None" "q \<notin> snd ` set cl" for q
    using that frame1[of q] n4[of q] by simp
  have paths: "\<forall>j < length cl. \<exists>d\<in>snd ` set UPLOAD_FOLDERS.
                snd (cl ! j) = os_path_join d (chunk_filename (secure_filename L filename) j)"
    using each len by (simp add: name_def)
  have ch: "chunks (db st') = chunks (db st) @ new" by (simp add: d3 n1 d2)
  have "upload_post L rnd filename data st st' cl new"
    unfolding upload_post_def
  proof (intro conjI)
    show "length cl = length (read_chunks CHUNK_SIZE data)" using len by (simp add: cs_def)
    show "\<forall>j < length cl. \<exists>d\<in>snd ` set UPLOAD_FOLDERS.
           snd (cl ! j) = os_path_join d (chunk_filename (secure_filename L filename) j)"
      by (rule paths)
    show "chunks (db st') = chunks (db st) @ new" by (rule ch)
    show "\<forall>r\<in>set new.
          c_file_id r = target_file_id filename (db st) \<and>
          c_version_number r = target_version filename (db st) \<and>
          c_status r = Active \<and>
          c_chunk_index r < length cl \<and>
          map_of (fs st') (c_chunk_location r) = Some (payload L rnd data (c_chunk_index r)) \<and>
          c_chunk_hash r = calculate_hash L (payload L rnd data (c_chunk_index r)) \<and>
          (c_chunk_location r = snd (cl ! c_chunk_index r) \<or>
           (\<exists>folder\<in>snd ` set UPLOAD_FOLDERS.
              c_chunk_location r =
                os_path_join folder (os_path_basename (snd (cl ! c_chunk_index r)))))"
      using rows unfolding fid_def v_def by (intro ballI) 
    show "\<forall>j < length cl. \<exists>r\<in>set new. c_chunk_index r = j \<and>
                                      c_chunk_location r = snd (cl ! j)"
      using cover by (intro allI impI)
    show "\<forall>q. map_of (fs st) q \<noteq> None \<longrightarrow> q \<notin> snd ` set cl \<longrightarrow>
            map_of (fs st') q = map_of (fs st) q"
      using frame by (intro allI impI)
  qed
  then show ?thesis by blast
qed

lemma no_rows_of_new_version:
  assumes ok: "catalog_ok d"
    and "\<not> (\<exists>v\<in>set (versions d). v_file_id v = file_id \<and> v_version_number v = version)"
  shows "filter (\<lambda>c. c_file_id c = file_id \<and> c_version_number c = version \<and> P c) (chunks d) = []"
proof -
  from ok have "\<forall>c\<in>set (chunks d). \<exists>v\<in>set (versions d).
        v_file_id v = c_file_id c \<and> v_version_number v = c_version_number c"
    by (simp add: catalog_ok_def list_all_iff list_ex_iff)
  with assms(2) show ?thesis by (auto simp: filter_empty_conv)
qed

text \<open>
  Claim C1, amended. For every upload that succeeds with at least one byte of content,
  from any state whose catalog is consistent, the download of that file name without a
  version parameter, made in the state the upload left, returns exactly the uploaded
  bytes: split, compress, encrypt, place and replicate are inverted by gather, decrypt,
  decompress and concatenate, whichever row of a chunk the query happens to return. (An
  upload of no bytes is accepted too, but its download answers 404:
  \<open>empty_upload_download_404\<close> below.)
\<close>

theorem upload_download_round_trip:
  assumes lib: "library_contract L"
    and ok: "catalog_ok (db st)"
    and up: "upload_file L rnd now (Some (filename, data)) st = (Inr r, st')"
    and ne: "data \<noteq> []"
  shows "fst (download_file L pick filename None st') = Inr data"
proof -
  define cs where "cs = read_chunks CHUNK_SIZE data"
  define fid where "fid = target_file_id filename (db st)"
  define v where "v = target_version filename (db st)"
  have pos: "0 < CHUNK_SIZE" by (simp add: CHUNK_SIZE_def)
  from upload_file_success[OF up] obtain node cl0 tsize f1 where
    ut: "upload_transaction L now filename (length data) tsize (calculate_hash L data) node cl0 f1 (db st)
           = (Inr (db st', r), fs st')" by blast
  from upload_transaction_success(5)[OF ut] obtain m' where
    m': "find (\<lambda>m. m_filename m = filename) (metadata (db st')) = Some m'"
        "m_id m' = fid" "m_current_version m' = v"
    unfolding fid_def v_def by blast
  then have res: "resolve_download filename None (db st') = Inr (fid, v)"
    using resolve_download_current[OF m'(1)] by simp
  from upload_file_post[OF up] obtain cl new where
    post: "upload_post L rnd filename data st st' cl new" by blast
  from post have len: "length cl = length cs"
    and ch: "chunks (db st') = chunks (db st) @ new"
    by (simp_all add: upload_post_def cs_def)
  from post have rows: "c_file_id r = fid \<and> c_version_number r = v \<and> c_status r = Active \<and>
               c_chunk_index r < length cl \<and>
               map_of (fs st') (c_chunk_location r) = Some (payload L rnd data (c_chunk_index r)) \<and>
               c_chunk_hash r = calculate_hash L (payload L rnd data (c_chunk_index r))"
    if "r \<in> set new" for r
    using that unfolding upload_post_def fid_def v_def by blast
  from post have cover: "\<exists>r\<in>set new. c_chunk_index r = j" if "j < length cl" for j
    using that unfolding upload_post_def by blast
  have old: "filter (\<lambda>c. c_file_id c = fid \<and> c_version_number c = v \<and> c_status c = Active)
               (chunks (db st)) = []"
    using no_rows_of_new_version[OF ok upload_transaction_success(3)[OF ut]]
    unfolding fid_def v_def .
  have sel: "filter (\<lambda>c. c_file_id c = fid \<and> c_version_number c = v \<and> c_status c = Active)
               (chunks (db st')) = new"
    using old rows by (simp add: ch filter_id_conv)
  have idx: "c_chunk_index ` set new = {0..<length cs}"
    using rows cover len by force
  have valid: "\<forall>r\<in>set new.
      read_valid_chunk L (fs st') r = Inr (payload L rnd data (c_chunk_index r)) \<and>
      decrypt_and_decompress_data L (payload L rnd data (c_chunk_index r)) = Inr (cs ! c_chunk_index r)"
    using rows lib by (auto simp: read_valid_chunk_primary payload_def cs_def library_contract_decrypt)
  from download_chunks_reassemble[OF sel idx valid, of pick]
  have re: "reassemble L (fs st') (download_chunks pick fid v (db st')) = Inr (concat cs)"
    and n: "length (download_chunks pick fid v (db st')) = length cs" by simp_all
  have "cs \<noteq> []" using ne pos by (simp add: cs_def read_chunks_empty_iff)
  with n have nonempty: "download_chunks pick fid v (db st') \<noteq> []" by auto
  have "concat cs = data" using pos by (simp add: cs_def read_chunks_concat)
  with re nonempty res show ?thesis
    by (simp add: download_file_def Let_def)
qed

subsection \<open>Rollback between two versions\<close>

text \<open>
  Chunk files are named \<^verbatim>\<open><name>_chunk_<index>\<close>, without the version, so the second
  upload of a file writes its primary chunk files over files of the first version. The
  rows of version 1 stay \<^verbatim>\<open>active\<close> and keep their hashes; a download of version 1
  after a rollback finds the overwritten file failing its hash check and falls back to the
  files of the same name in the other node directories. The lemmas below follow that path.
\<close>

lemma os_path_basename_join:
  assumes "CHR ''/'' \<notin> set b"
  shows "os_path_basename (os_path_join a b) = b"
proof -
  have nb: "\<not> (b \<noteq> [] \<and> hd b = CHR ''/'')" using assms by (cases b) auto
  obtain a' where j: "os_path_join a b = a' @ b" and a': "a' = [] \<or> last a' = CHR ''/''"
  proof (cases "a = [] \<or> last a = CHR ''/''")
    case True
    with nb have "os_path_join a b = a @ b" by (auto simp: os_path_join_def)
    with True that show ?thesis by blast
  next
    case False
    with nb have "os_path_join a b = (a @ ''/'') @ b" by (auto simp: os_path_join_def)
    moreover have "last (a @ ''/'') = CHR ''/''" by simp
    ultimately show ?thesis using that by blast
  qed
  have "takeWhile (\<lambda>c. c \<noteq> CHR ''/'') (rev b @ rev a')
          = rev b @ takeWhile (\<lambda>c. c \<noteq> CHR ''/'') (rev a')"
    using assms by (intro takeWhile_append2) auto
  moreover have "takeWhile (\<lambda>c. c \<noteq> CHR ''/'') (rev a') = []"
    using a' by (cases a' rule: rev_cases) auto
  ultimately show ?thesis by (simp add: os_path_basename_def j)
qed

lemma digit_char_no_slash: "k < 10 \<Longrightarrow> digit_char k \<noteq> CHR ''/''"
proof -
  assume "k < 10"
  then have "k \<in> {0,1,2,3,4,5,6,7,8,9}" by auto
  then show ?thesis by (auto simp: digit_char_def)
qed

lemma str_nat_no_slash: "CHR ''/'' \<notin> set (str_nat n)"
proof (induction n rule: str_nat.induct)
  case (1 n)
  show ?case
  proof (cases "n < 10")
    case True
    then show ?thesis using digit_char_no_slash[of n] by (simp add: str_nat.simps[of n])
  next
    case False
    have "n mod 10 < 10" by simp
    from digit_char_no_slash[OF this] "1.IH"[OF False] False show ?thesis
      by (simp add: str_nat.simps[of n])
  qed
qed

lemma chunk_filename_no_slash:
  "CHR ''/'' \<notin> set name \<Longrightarrow> CHR ''/'' \<notin> set (chunk_filename name i)"
  using str_nat_no_slash[of i] by (simp add: chunk_filename_def)

lemma find_replica_sound:
  assumes "inj (sha256_hexdigest L)"
  shows "find_replica L f nm (calculate_hash L x) folders = Some y \<Longrightarrow> y = x"
proof (induction folders)
  case Nil
  then show ?case by simp
next
  case (Cons a folders)
  then show ?case using assms
    by (auto simp: calculate_hash_def inj_def split: option.splits if_splits)
qed

lemma find_replica_complete:
  "folder \<in> set folders \<Longrightarrow> map_of f (os_path_join folder nm) = Some x
     \<Longrightarrow> find_replica L f nm (calculate_hash L x) folders \<noteq> None"
  by (induction folders) (auto split: option.splits)

lemma read_valid_chunk_fallback:
  assumes inj: "inj (sha256_hexdigest L)"
    and h: "c_chunk_hash r = calculate_hash L x"
    and folder: "folder \<in> snd ` set UPLOAD_FOLDERS"
    and held: "map_of f (os_path_join folder (os_path_basename (c_chunk_location r))) = Some x"
  shows "read_valid_chunk L f r = Inr x"
proof -
  have same: "y = x" if "calculate_hash L y = calculate_hash L x" for y
    using that inj by (simp add: calculate_hash_def inj_def)
  from folder have "folder \<in> set (map snd UPLOAD_FOLDERS)" by simp
  from find_replica_complete[OF this held] obtain y where
    y: "find_replica L f (os_path_basename (c_chunk_location r)) (calculate_hash L x)
          (map snd UPLOAD_FOLDERS) = Some y" by blast
  from find_replica_sound[OF inj y] have "y = x" .
  with y show ?thesis using same
    by (auto simp: read_valid_chunk_def h split: option.splits)
qed

lemma rollback_lookup:
  assumes "find (\<lambda>m. m_filename m = filename) ms = Some m"
    and "v \<in> set vs" "v_file_id v = m_id m" "v_version_number v = version"
  shows "\<exists>v' rest. filter (\<lambda>(m, v). m_id m = v_file_id v \<and> m_filename m = filename \<and>
                                     v_version_number v = version) (List.product ms vs)
                    = (m, v') # rest"
  using assms(1)
proof (induction ms)
  case Nil
  then show ?case by simp
next
  case (Cons a ms)
  show ?case
  proof (cases "m_filename a = filename")
    case True
    with Cons.prems have a: "a = m" by simp
    have "filter (\<lambda>(m, v). m_id m = v_file_id v \<and> m_filename m = filename \<and>
                            v_version_number v = version) (map (Pair m) vs)
          = map (Pair m) (filter (\<lambda>v. m_id m = v_file_id v \<and> v_version_number v = version) vs)"
      using True a by (simp add: filter_map comp_def)
    moreover have "filter (\<lambda>v. m_id m = v_file_id v \<and> v_version_number v = version) vs \<noteq> []"
      using assms(2-4) by (auto simp: filter_empty_conv intro!: bexI[of _ v])
    then obtain v' vs' where
      "filter (\<lambda>v. m_id m = v_file_id v \<and> v_version_number v = version) vs = v' # vs'"
      by (cases "filter (\<lambda>v. m_id m = v_file_id v \<and> v_version_number v = version) vs") auto
    ultimately show ?thesis using a by simp
  next
    case False
    then have "filter (\<lambda>(m, v). m_id m = v_file_id v \<and> m_filename m = filename \<and>
                            v_version_number v = version) (map (Pair a) vs) = []"
      by (simp add: filter_empty_conv)
    moreover from False Cons.prems have "find (\<lambda>m. m_filename m = filename) ms = Some m" by simp
    from Cons.IH[OF this] obtain v' rest where
      "filter (\<lambda>(m, v). m_id m = v_file_id v \<and> m_filename m = filename \<and>
                                     v_version_number v = version) (List.product ms vs)
                    = (m, v') # rest" by blast
    ultimately show ?thesis by simp
  qed
qed

definition swap_status :: "nat \<Rightarrow> nat \<Rightarrow> nat \<Rightarrow> chunk_row \<Rightarrow> chunk_row" where
  "swap_status file_id current_version version c =
     (if c_file_id c = file_id \<and> c_version_number c = current_version \<and> c_status c = Active
      then c\<lparr>c_status := Deprecated\<rparr>
      else if c_file_id c = file_id \<and> c_version_number c = version \<and> c_status c = Deprecated
      then c\<lparr>c_status := Active\<rparr> else c)"

lemma rollback_version_effect:
  assumes m: "find (\<lambda>m. m_filename m = filename) (metadata (db st)) = Some m"
    and v: "\<exists>v\<in>set (versions (db st)). v_file_id v = m_id m \<and> v_version_number v = version"
    and ne: "m_current_version m \<noteq> version"
  shows "fst (rollback_version filename version st) = Inr (RolledBack (m_current_version m) version)"
    and "fs (snd (rollback_version filename version st)) = fs st"
    and "versions (db (snd (rollback_version filename version st))) = versions (db st)"
    and "find (\<lambda>m. m_filename m = filename) (metadata (db (snd (rollback_version filename version st))))
           = Some (m\<lparr>m_current_version := version\<rparr>)"
    and "chunks (db (snd (rollback_version filename version st))) =
           map (swap_status (m_id m) (m_current_version m) version) (chunks (db st))"
proof -
  from v obtain v0 where v0: "v0 \<in> set (versions (db st))" "v_file_id v0 = m_id m"
    "v_version_number v0 = version" by blast
  from rollback_lookup[OF m v0] obtain v' rest where
    look: "filter (\<lambda>(m, v). m_id m = v_file_id v \<and> m_filename m = filename \<and>
                             v_version_number v = version)
             (List.product (metadata (db st)) (versions (db st))) = (m, v') # rest" by blast
  have fnd: "find (\<lambda>m. m_filename m = filename)
               (map (\<lambda>r. if m_id r = m_id m then r\<lparr>m_current_version := version\<rparr> else r)
                  (metadata (db st))) = Some (m\<lparr>m_current_version := version\<rparr>)"
    by (subst find_map_keep) (simp_all add: m)
  have ch: "map (\<lambda>c. if c_file_id c = m_id m \<and> c_version_number c = version \<and>
                          c_status c = Deprecated
                       then c\<lparr>c_status := Active\<rparr> else c)
              (map (\<lambda>c. if c_file_id c = m_id m \<and> c_version_number c = m_current_version m \<and>
                            c_status c = Active
                         then c\<lparr>c_status := Deprecated\<rparr> else c) (chunks (db st)))
            = map (swap_status (m_id m) (m_current_version m) version) (chunks (db st))"
    using ne by (simp add: swap_status_def)
  show "fst (rollback_version filename version st) = Inr (RolledBack (m_current_version m) version)"
    using ne by (simp add: rollback_version_def look Let_def)
  show "fs (snd (rollback_version filename version st)) = fs st"
    using ne by (simp add: rollback_version_def look Let_def)
  show "versions (db (snd (rollback_version filename version st))) = versions (db st)"
    using ne by (simp add: rollback_version_def look Let_def)
  show "find (\<lambda>m. m_filename m = filename) (metadata (db (snd (rollback_version filename version st))))
           = Some (m\<lparr>m_current_version := version\<rparr>)"
    using ne fnd by (simp add: rollback_version_def look Let_def)
  show "chunks (db (snd (rollback_version filename version st))) =
           map (swap_status (m_id m) (m_current_version m) version) (chunks (db st))"
    using ne ch by (simp add: rollback_version_def look Let_def)
qed

lemma swap_status_keys [simp]:
  "c_file_id (swap_status f a b c) = c_file_id c"
  "c_version_number (swap_status f a b c) = c_version_number c"
  "c_chunk_index (swap_status f a b c) = c_chunk_index c"
  by (simp_all add: swap_status_def)

lemma swap_status_keep:
  "c_version_number c = b \<Longrightarrow> c_status c = Active \<Longrightarrow> a \<noteq> b \<Longrightarrow> swap_status f a b c = c"
  by (simp add: swap_status_def)

lemma swap_status_back:
  "c_file_id c = f \<Longrightarrow> c_version_number c = b \<Longrightarrow> c_status c = Active \<Longrightarrow> a \<noteq> b
     \<Longrightarrow> swap_status f a b (swap_status f b a c) = c"
  by (cases c) (simp add: swap_status_def)

lemma chunk_status_idle: "c_status c = s \<Longrightarrow> c\<lparr>c_status := s\<rparr> = c"
  by (cases c) simp

lemma upload_keeps_catalog_ok:
  assumes ok: "catalog_ok (db st)"
    and up: "upload_file L rnd now (Some (filename, data)) st = (Inr r, st')"
  shows "catalog_ok (db st')"
proof -
  define fid where "fid = target_file_id filename (db st)"
  define tv where "tv = target_version filename (db st)"
  from upload_file_success[OF up] obtain node cl0 tsize f1 where
    ut: "upload_transaction L now filename (length data) tsize (calculate_hash L data) node cl0 f1 (db st)
           = (Inr (db st', r), fs st')" by blast
  from upload_transaction_success(2)[OF ut] obtain vrow where
    vs: "versions (db st') = versions (db st) @ [vrow]" "v_file_id vrow = fid"
        "v_version_number vrow = tv" unfolding fid_def tv_def by blast
  note seq = upload_transaction_success(6)[OF ut]
  note ids = upload_transaction_success(7)[OF ut]
  from upload_file_post[OF up] obtain cl new where
    post: "upload_post L rnd filename data st st' cl new" by blast
  then have ch: "chunks (db st') = chunks (db st) @ new"
    and new: "\<forall>r\<in>set new. c_file_id r = fid \<and> c_version_number r = tv"
    unfolding upload_post_def fid_def tv_def by blast+
  from ok have a: "\<forall>i\<in>set (map m_id (metadata (db st))). i \<le> metadata_seq (db st)"
    and b: "\<forall>v\<in>set (versions (db st)). v_file_id v \<le> metadata_seq (db st)"
    and c: "\<forall>c\<in>set (chunks (db st)). \<exists>v\<in>set (versions (db st)).
               v_file_id v = c_file_id c \<and> v_version_number v = c_version_number c"
    by (auto simp: catalog_ok_def list_all_iff list_ex_iff)
  have le: "metadata_seq (db st) \<le> metadata_seq (db st')"
    using seq by (simp split: option.splits)
  have fid_le: "fid \<le> metadata_seq (db st')"
  proof (cases "find (\<lambda>m. m_filename m = filename) (metadata (db st))")
    case None
    then show ?thesis using seq by (simp add: fid_def target_file_id_def)
  next
    case (Some m)
    then have "m \<in> set (metadata (db st))" by (auto simp: find_Some_iff)
    with a have "m_id m \<le> metadata_seq (db st)" by simp
    with Some le show ?thesis by (simp add: fid_def target_file_id_def)
  qed
  have a': "\<forall>i\<in>set (map m_id (metadata (db st'))). i \<le> metadata_seq (db st')"
    using a le seq unfolding ids by (auto split: option.splits)
  have b': "\<forall>v\<in>set (versions (db st')). v_file_id v \<le> metadata_seq (db st')"
    using b le fid_le vs by auto
  have c': "\<forall>c\<in>set (chunks (db st')). \<exists>v\<in>set (versions (db st')).
               v_file_id v = c_file_id c \<and> v_version_number v = c_version_number c"
    using c new vs ch by auto
  from a' b' c' show ?thesis
    by (auto simp: catalog_ok_def list_all_iff list_ex_iff)
qed

definition replicated :: "nat \<Rightarrow> nat \<Rightarrow> database \<Rightarrow> bool" where
  "replicated file_id version d =
     (let rows = filter (\<lambda>c. c_file_id c = file_id \<and> c_version_number c = version) (chunks d)
      in list_all (\<lambda>c. list_ex (\<lambda>c'. c_chunk_index c' = c_chunk_index c \<and>
                                       c_chunk_location c' \<noteq> c_chunk_location c) rows) rows)"

lemma filter_map_middle:
  assumes "\<forall>c\<in>set A. \<not> P (g c)" "\<forall>c\<in>set B. g c = c \<and> P c" "\<forall>c\<in>set C. \<not> P (g c)"
  shows "filter P (map g (A @ B @ C)) = B"
proof -
  have "map g B = B" using assms(2) by (simp add: map_idI)
  moreover have "filter P B = B" using assms(2) by (simp add: filter_id_conv)
  moreover have "filter P (map g A) = []" "filter P (map g C) = []"
    using assms(1,3) by (simp_all add: filter_empty_conv)
  ultimately show ?thesis by simp
qed

lemma download_file_state:
  "db (snd (download_file L pick filename version st)) = db st \<and>
   fs (snd (download_file L pick filename version st)) = fs st"
  by (simp add: download_file_def Let_def split: sum.splits prod.splits)

lemma download_file_from_rows:
  assumes lib: "library_contract L"
    and m: "find (\<lambda>m. m_filename m = filename) (metadata (db st)) = Some m"
    and sel: "filter (\<lambda>c. c_file_id c = m_id m \<and> c_version_number c = m_current_version m \<and>
                           c_status c = Active) (chunks (db st)) = rows"
    and idx: "c_chunk_index ` set rows = {0..<length (read_chunks CHUNK_SIZE data)}"
    and valid: "\<forall>r\<in>set rows. read_valid_chunk L (fs st) r = Inr (payload L rnd data (c_chunk_index r))"
    and ne: "data \<noteq> []"
  shows "fst (download_file L pick filename None st) = Inr data"
proof -
  define cs where "cs = read_chunks CHUNK_SIZE data"
  have pos: "0 < CHUNK_SIZE" by (simp add: CHUNK_SIZE_def)
  have res: "resolve_download filename None (db st) = Inr (m_id m, m_current_version m)"
    by (rule resolve_download_current[OF m])
  have valid': "\<forall>r\<in>set rows.
      read_valid_chunk L (fs st) r = Inr (payload L rnd data (c_chunk_index r)) \<and>
      decrypt_and_decompress_data L (payload L rnd data (c_chunk_index r)) = Inr (cs ! c_chunk_index r)"
    using valid lib by (simp add: payload_def cs_def library_contract_decrypt)
  from idx have idx': "c_chunk_index ` set rows = {0..<length cs}" by (simp add: cs_def)
  from download_chunks_reassemble[OF sel idx' valid', of pick]
  have re: "reassemble L (fs st) (download_chunks pick (m_id m) (m_current_version m) (db st))
              = Inr (concat cs)"
    and n: "length (download_chunks pick (m_id m) (m_current_version m) (db st)) = length cs"
    by simp_all
  have "cs \<noteq> []" using ne pos by (simp add: cs_def read_chunks_empty_iff)
  with n have nonempty: "download_chunks pick (m_id m) (m_current_version m) (db st) \<noteq> []" by auto
  have "concat cs = data" using pos by (simp add: cs_def read_chunks_concat)
  with re nonempty res show ?thesis
    by (simp add: download_file_def Let_def)
qed

lemma first_version_survives:
  assumes inj: "inj (sha256_hexdigest L)"
    and slash: "CHR ''/'' \<notin> set (secure_filename L filename)"
    and post1: "upload_post L rnd1 filename data1 st st1 cl1 N1"
    and post2: "upload_post L rnd2 filename data2 st1 st2 cl2 N2"
    and rep: "\<forall>r\<in>set N1. \<exists>r'\<in>set N1. c_chunk_index r' = c_chunk_index r \<and>
                                     c_chunk_location r' \<noteq> c_chunk_location r"
    and r: "r \<in> set N1"
  shows "read_valid_chunk L (fs st2) r = Inr (payload L rnd1 data1 (c_chunk_index r))"
proof -
  define name where "name = secure_filename L filename"
  have ns: "CHR ''/'' \<notin> set (chunk_filename name i)" for i
    using slash by (simp add: name_def chunk_filename_no_slash)
  have row1: "map_of (fs st1) (c_chunk_location q) = Some (payload L rnd1 data1 (c_chunk_index q)) \<and>
              c_chunk_hash q = calculate_hash L (payload L rnd1 data1 (c_chunk_index q)) \<and>
              (\<exists>D\<in>snd ` set UPLOAD_FOLDERS.
                  c_chunk_location q = os_path_join D (chunk_filename name (c_chunk_index q)))"
    if "q \<in> set N1" for q
  proof -
    from post1 that have a: "c_chunk_index q < length cl1"
      "map_of (fs st1) (c_chunk_location q) = Some (payload L rnd1 data1 (c_chunk_index q))"
      "c_chunk_hash q = calculate_hash L (payload L rnd1 data1 (c_chunk_index q))"
      and loc: "c_chunk_location q = snd (cl1 ! c_chunk_index q) \<or>
           (\<exists>folder\<in>snd ` set UPLOAD_FOLDERS.
              c_chunk_location q =
                os_path_join folder (os_path_basename (snd (cl1 ! c_chunk_index q))))"
      unfolding upload_post_def by blast+
    from post1 a(1) obtain d where d: "d \<in> snd ` set UPLOAD_FOLDERS"
      "snd (cl1 ! c_chunk_index q) = os_path_join d (chunk_filename name (c_chunk_index q))"
      unfolding upload_post_def name_def by blast
    have "os_path_basename (snd (cl1 ! c_chunk_index q)) = chunk_filename name (c_chunk_index q)"
      using d(2) ns by (simp add: os_path_basename_join)
    with loc d have "\<exists>D\<in>snd ` set UPLOAD_FOLDERS.
                  c_chunk_location q = os_path_join D (chunk_filename name (c_chunk_index q))"
      by auto
    with a show ?thesis by blast
  qed
  have path2: "\<exists>d\<in>snd ` set UPLOAD_FOLDERS. snd (cl2 ! j) = os_path_join d (chunk_filename name j)"
    if "j < length cl2" for j
    using post2 that unfolding upload_post_def name_def by blast
  have frame2: "map_of (fs st2) q = map_of (fs st1) q"
    if "map_of (fs st1) q \<noteq> None" "q \<notin> snd ` set cl2" for q
    using post2 that unfolding upload_post_def by blast
  have over: "q = snd (cl2 ! i)"
    if "D \<in> snd ` set UPLOAD_FOLDERS" "q = os_path_join D (chunk_filename name i)"
       "q \<in> snd ` set cl2" for q D i
  proof -
    from that(3) obtain j where j: "j < length cl2" "q = snd (cl2 ! j)"
      by (auto simp: in_set_conv_nth)
    from path2[OF j(1)] obtain d where d: "d \<in> snd ` set UPLOAD_FOLDERS"
      "snd (cl2 ! j) = os_path_join d (chunk_filename name j)" by blast
    from that(2) j(2) d(2) have
      "os_path_join D (chunk_filename name i) = os_path_join d (chunk_filename name j)" by simp
    from chunk_path_inj[OF that(1) d(1) this] j show ?thesis by simp
  qed
  from row1[OF r] obtain D where
    r1: "map_of (fs st1) (c_chunk_location r) = Some (payload L rnd1 data1 (c_chunk_index r))"
        "c_chunk_hash r = calculate_hash L (payload L rnd1 data1 (c_chunk_index r))"
        "D \<in> snd ` set UPLOAD_FOLDERS"
        "c_chunk_location r = os_path_join D (chunk_filename name (c_chunk_index r))" by blast
  show ?thesis
  proof (cases "c_chunk_location r \<in> snd ` set cl2")
    case False
    with frame2[of "c_chunk_location r"] r1(1)
    have "map_of (fs st2) (c_chunk_location r) = Some (payload L rnd1 data1 (c_chunk_index r))"
      by simp
    then show ?thesis using r1(2) by (rule read_valid_chunk_primary)
  next
    case True
    from rep r obtain r' where r': "r' \<in> set N1" "c_chunk_index r' = c_chunk_index r"
      "c_chunk_location r' \<noteq> c_chunk_location r" by blast
    from row1[OF r'(1)] have
      "map_of (fs st1) (c_chunk_location r') = Some (payload L rnd1 data1 (c_chunk_index r)) \<and>
       (\<exists>D\<in>snd ` set UPLOAD_FOLDERS.
           c_chunk_location r' = os_path_join D (chunk_filename name (c_chunk_index r)))"
      unfolding r'(2) by blast
    then obtain D' where
      q1: "map_of (fs st1) (c_chunk_location r') = Some (payload L rnd1 data1 (c_chunk_index r))"
          "D' \<in> snd ` set UPLOAD_FOLDERS"
          "c_chunk_location r' = os_path_join D' (chunk_filename name (c_chunk_index r))" by blast
    have "c_chunk_location r' \<notin> snd ` set cl2"
    proof
      assume "c_chunk_location r' \<in> snd ` set cl2"
      from over[OF q1(2) q1(3) this] over[OF r1(3) r1(4) True] r'(3) show False by simp
    qed
    with frame2[of "c_chunk_location r'"] q1(1)
    have "map_of (fs st2) (c_chunk_location r') = Some (payload L rnd1 data1 (c_chunk_index r))"
      by simp
    moreover have "os_path_basename (c_chunk_location r) = chunk_filename name (c_chunk_index r)"
      using r1(4) ns by (simp add: os_path_basename_join)
    ultimately have "map_of (fs st2) (os_path_join D' (os_path_basename (c_chunk_location r)))
                       = Some (payload L rnd1 data1 (c_chunk_index r))"
      using q1(3) by simp
    from read_valid_chunk_fallback[OF inj r1(2) q1(2) this] show ?thesis .
  qed
qed

lemma catalog_ok_chunk_ids:
  "catalog_ok d \<Longrightarrow> c \<in> set (chunks d) \<Longrightarrow> c_file_id c \<le> metadata_seq d"
  by (fastforce simp: catalog_ok_def list_all_iff list_ex_iff)

lemma upload_post_indices:
  assumes "upload_post L rnd filename data st st' cl new"
  shows "c_chunk_index ` set new = {0..<length (read_chunks CHUNK_SIZE data)}"
proof -
  from assms have len: "length cl = length (read_chunks CHUNK_SIZE data)"
    and a: "\<forall>r\<in>set new. c_chunk_index r < length cl"
    and b: "\<forall>j < length cl. \<exists>r\<in>set new. c_chunk_index r = j"
    unfolding upload_post_def by blast+
  then show ?thesis by force
qed

text \<open>
  Where every chunk of version 1 is recorded at two different locations at least
  (\<open>replicated\<close>: the primary and a replica), the fallback finds a copy that the second
  upload has not overwritten: the rollback to version 1 succeeds, \<^verbatim>\<open>current_version\<close>
  is 1 and a download returns the bytes of version 1; the rollback to version 2 that
  follows succeeds, \<^verbatim>\<open>current_version\<close> is 2 and a download returns the bytes of
  version 2, whichever row of a chunk the query returns. The digest is taken to be free of
  collisions and \<^verbatim>\<open>secure_filename\<close> to return a name without a slash, as
  werkzeug's does. Nothing in the program makes \<open>replicated\<close> hold:
  \<^verbatim>\<open>replicate_chunk\<close> records no replica where a file of that name is already there
  (section \<open>Rollback after two uploads\<close> below).
\<close>

lemma rollback_with_replicas:
  assumes lib: "library_contract L"
    and inj: "inj (sha256_hexdigest L)"
    and slash: "CHR ''/'' \<notin> set (secure_filename L filename)"
    and ok: "catalog_ok (db st)"
    and unseen: "find (\<lambda>m. m_filename m = filename) (metadata (db st)) = None"
    and up1: "upload_file L rnd1 now1 (Some (filename, data1)) st = (Inr r1, st1)"
    and up2: "upload_file L rnd2 now2 (Some (filename, data2)) st1 = (Inr r2, st2)"
    and ne1: "data1 \<noteq> []" and ne2: "data2 \<noteq> []"
    and rep: "replicated (metadata_seq (db st) + 1) 1 (db st1)"
    and rb1: "rollback_version filename 1 st2 = (res1, st3)"
    and rb2: "rollback_version filename 2 (snd (download_file L pick1 filename None st3)) = (res2, st4)"
  shows "res1 = Inr (RolledBack 2 1) \<and>
         map_option m_current_version (find (\<lambda>m. m_filename m = filename) (metadata (db st3))) = Some 1 \<and>
         fst (download_file L pick1 filename None st3) = Inr data1 \<and>
         res2 = Inr (RolledBack 1 2) \<and>
         map_option m_current_version (find (\<lambda>m. m_filename m = filename) (metadata (db st4))) = Some 2 \<and>
         fst (download_file L pick2 filename None st4) = Inr data2"
proof -
  define fid where "fid = metadata_seq (db st) + 1"
  have tf1: "target_file_id filename (db st) = fid" and tv1: "target_version filename (db st) = 1"
    using unseen by (simp_all add: target_file_id_def target_version_def fid_def)
  from upload_file_success[OF up1] obtain node1 cla tsize1 fa where
    ut1: "upload_transaction L now1 filename (length data1) tsize1 (calculate_hash L data1) node1 cla fa (db st)
           = (Inr (db st1, r1), fs st1)" by blast
  from upload_transaction_success(5)[OF ut1] obtain m1 where
    m1: "find (\<lambda>m. m_filename m = filename) (metadata (db st1)) = Some m1"
        "m_id m1 = fid" "m_current_version m1 = 1" by (auto simp: tf1 tv1)
  from upload_transaction_success(2)[OF ut1] obtain v1 where
    v1: "versions (db st1) = versions (db st) @ [v1]" "v_file_id v1 = fid" "v_version_number v1 = 1"
    by (auto simp: tf1 tv1)
  have tf2: "target_file_id filename (db st1) = fid" and tv2: "target_version filename (db st1) = 2"
    using m1 by (simp_all add: target_file_id_def target_version_def)
  from upload_file_success[OF up2] obtain node2 clb tsize2 fb where
    ut2: "upload_transaction L now2 filename (length data2) tsize2 (calculate_hash L data2) node2 clb fb (db st1)
           = (Inr (db st2, r2), fs st2)" by blast
  from upload_transaction_success(5)[OF ut2] obtain m2 where
    m2: "find (\<lambda>m. m_filename m = filename) (metadata (db st2)) = Some m2"
        "m_id m2 = fid" "m_current_version m2 = 2" by (auto simp: tf2 tv2)
  from upload_transaction_success(2)[OF ut2] obtain v2 where
    v2: "versions (db st2) = versions (db st1) @ [v2]" "v_file_id v2 = fid" "v_version_number v2 = 2"
    by (auto simp: tf2 tv2)
  from upload_file_post[OF up1] obtain cl1 N1 where
    post1: "upload_post L rnd1 filename data1 st st1 cl1 N1" by blast
  from upload_file_post[OF up2] obtain cl2 N2 where
    post2: "upload_post L rnd2 filename data2 st1 st2 cl2 N2" by blast
  from post1 have ch1: "chunks (db st1) = chunks (db st) @ N1"
    and rows1: "\<forall>r\<in>set N1. c_file_id r = fid \<and> c_version_number r = 1 \<and> c_status r = Active"
    unfolding upload_post_def tf1 tv1 by blast+
  from post2 have ch2: "chunks (db st2) = chunks (db st1) @ N2"
    and rows2: "\<forall>r\<in>set N2. c_file_id r = fid \<and> c_version_number r = 2 \<and> c_status r = Active \<and>
          map_of (fs st2) (c_chunk_location r) = Some (payload L rnd2 data2 (c_chunk_index r)) \<and>
          c_chunk_hash r = calculate_hash L (payload L rnd2 data2 (c_chunk_index r))"
    unfolding upload_post_def tf2 tv2 by blast+
  have old: "\<forall>c\<in>set (chunks (db st)). c_file_id c \<noteq> fid"
    using catalog_ok_chunk_ids[OF ok] by (fastforce simp: fid_def)
  have chunks2: "chunks (db st2) = chunks (db st) @ N1 @ N2" by (simp add: ch2 ch1)
  have fl: "filter (\<lambda>c. c_file_id c = fid \<and> c_version_number c = 1) (chunks (db st1)) = N1"
    using old rows1 by (simp add: ch1 filter_empty_conv filter_id_conv)
  from rep have "list_all (\<lambda>c. list_ex (\<lambda>c'. c_chunk_index c' = c_chunk_index c \<and>
                                       c_chunk_location c' \<noteq> c_chunk_location c) N1) N1"
    unfolding replicated_def Let_def fid_def[symmetric] fl .
  then have rep': "\<forall>r\<in>set N1. \<exists>r'\<in>set N1. c_chunk_index r' = c_chunk_index r \<and>
                                     c_chunk_location r' \<noteq> c_chunk_location r"
    by (simp add: list_all_iff list_ex_iff)
  \<comment> \<open>rollback to version 1\<close>
  have ex1: "\<exists>v\<in>set (versions (db st2)). v_file_id v = m_id m2 \<and> v_version_number v = 1"
    using v1 v2 m2 by auto
  have ne21: "m_current_version m2 \<noteq> 1" using m2 by simp
  note e3 = rollback_version_effect[OF m2(1) ex1 ne21]
  have st3: "st3 = snd (rollback_version filename 1 st2)"
    and res1': "res1 = fst (rollback_version filename 1 st2)" using rb1 by simp_all
  have res1: "res1 = Inr (RolledBack 2 1)" using e3(1) m2 by (simp add: res1')
  have fs3: "fs st3 = fs st2" using e3(2) by (simp add: st3)
  have vs3: "versions (db st3) = versions (db st2)" using e3(3) by (simp add: st3)
  have m3: "find (\<lambda>m. m_filename m = filename) (metadata (db st3))
                = Some (m2\<lparr>m_current_version := 1\<rparr>)" using e3(4) by (simp add: st3)
  have ch3: "chunks (db st3) = map (swap_status fid 2 1) (chunks (db st2))"
    using e3(5) m2 by (simp add: st3)
  have sel3': "filter (\<lambda>c. c_file_id c = fid \<and> c_version_number c = 1 \<and> c_status c = Active)
                  (map (swap_status fid 2 1) (chunks (db st) @ N1 @ N2)) = N1"
  proof (rule filter_map_middle)
    show "\<forall>c\<in>set (chunks (db st)). \<not> (c_file_id (swap_status fid 2 1 c) = fid \<and>
             c_version_number (swap_status fid 2 1 c) = 1 \<and> c_status (swap_status fid 2 1 c) = Active)"
      using old by simp
    show "\<forall>c\<in>set N1. swap_status fid 2 1 c = c \<and>
             c_file_id c = fid \<and> c_version_number c = 1 \<and> c_status c = Active"
      using rows1 by (simp add: swap_status_keep)
    show "\<forall>c\<in>set N2. \<not> (c_file_id (swap_status fid 2 1 c) = fid \<and>
             c_version_number (swap_status fid 2 1 c) = 1 \<and> c_status (swap_status fid 2 1 c) = Active)"
      using rows2 by simp
  qed
  have sel3: "filter (\<lambda>c. c_file_id c = m_id (m2\<lparr>m_current_version := 1\<rparr>) \<and>
                          c_version_number c = m_current_version (m2\<lparr>m_current_version := 1\<rparr>) \<and>
                          c_status c = Active) (chunks (db st3)) = N1"
    using sel3' by (simp add: ch3 chunks2 m2)
  have valid3: "\<forall>r\<in>set N1. read_valid_chunk L (fs st3) r = Inr (payload L rnd1 data1 (c_chunk_index r))"
    unfolding fs3 using first_version_survives[OF inj slash post1 post2 rep'] by blast
  from download_file_from_rows[OF lib m3 sel3 upload_post_indices[OF post1] valid3 ne1]
  have dl1: "fst (download_file L pick1 filename None st3) = Inr data1" .
  \<comment> \<open>rollback to version 2\<close>
  define st3d where "st3d = snd (download_file L pick1 filename None st3)"
  have d3: "db st3d = db st3" "fs st3d = fs st3"
    using download_file_state[of L pick1 filename None st3] by (simp_all add: st3d_def)
  have m3d: "find (\<lambda>m. m_filename m = filename) (metadata (db st3d))
                = Some (m2\<lparr>m_current_version := 1\<rparr>)" using m3 d3 by simp
  have ex2: "\<exists>v\<in>set (versions (db st3d)).
                v_file_id v = m_id (m2\<lparr>m_current_version := 1\<rparr>) \<and> v_version_number v = 2"
    using v2 m2 vs3 d3 by auto
  have ne12: "m_current_version (m2\<lparr>m_current_version := 1\<rparr>) \<noteq> 2" by simp
  note e4 = rollback_version_effect[OF m3d ex2 ne12]
  have st4: "st4 = snd (rollback_version filename 2 st3d)"
    and res2': "res2 = fst (rollback_version filename 2 st3d)"
    using rb2 by (simp_all add: st3d_def)
  have res2: "res2 = Inr (RolledBack 1 2)" using e4(1) by (simp add: res2')
  have fs4: "fs st4 = fs st2" using e4(2) d3 fs3 by (simp add: st4)
  have m4: "find (\<lambda>m. m_filename m = filename) (metadata (db st4))
                = Some (m2\<lparr>m_current_version := 2\<rparr>)" using e4(4) by (simp add: st4)
  have ch4: "chunks (db st4) = map (\<lambda>c. swap_status fid 1 2 (swap_status fid 2 1 c)) (chunks (db st2))"
    using e4(5) m2 d3 ch3 by (simp add: st4 comp_def)
  have sel4': "filter (\<lambda>c. c_file_id c = fid \<and> c_version_number c = 2 \<and> c_status c = Active)
                  (map (\<lambda>c. swap_status fid 1 2 (swap_status fid 2 1 c))
                       ((chunks (db st) @ N1) @ N2 @ [])) = N2"
  proof (rule filter_map_middle)
    show "\<forall>c\<in>set (chunks (db st) @ N1).
            \<not> (c_file_id (swap_status fid 1 2 (swap_status fid 2 1 c)) = fid \<and>
               c_version_number (swap_status fid 1 2 (swap_status fid 2 1 c)) = 2 \<and>
               c_status (swap_status fid 1 2 (swap_status fid 2 1 c)) = Active)"
      using old rows1 by auto
    show "\<forall>c\<in>set N2. swap_status fid 1 2 (swap_status fid 2 1 c) = c \<and>
             c_file_id c = fid \<and> c_version_number c = 2 \<and> c_status c = Active"
      using rows2 by (simp add: swap_status_back)
    show "\<forall>c\<in>set []. \<not> (c_file_id (swap_status fid 1 2 (swap_status fid 2 1 c)) = fid \<and>
               c_version_number (swap_status fid 1 2 (swap_status fid 2 1 c)) = 2 \<and>
               c_status (swap_status fid 1 2 (swap_status fid 2 1 c)) = Active)"
      by simp
  qed
  have sel4: "filter (\<lambda>c. c_file_id c = m_id (m2\<lparr>m_current_version := 2\<rparr>) \<and>
                          c_version_number c = m_current_version (m2\<lparr>m_current_version := 2\<rparr>) \<and>
                          c_status c = Active) (chunks (db st4)) = N2"
    using sel4' by (simp add: ch4 chunks2 m2)
  have valid4: "\<forall>r\<in>set N2. read_valid_chunk L (fs st4) r = Inr (payload L rnd2 data2 (c_chunk_index r))"
    unfolding fs4 using rows2 by (auto intro: read_valid_chunk_primary)
  from download_file_from_rows[OF lib m4 sel4 upload_post_indices[OF post2] valid4 ne2]
  have dl2: "fst (download_file L pick2 filename None st4) = Inr data2" .
  from res1 m3 dl1 res2 m4 dl2 show ?thesis by simp
qed

subsection \<open>Failure handling\<close>






























section \<open>Sample runs\<close>

text \<open>
  Concrete requests against the empty store, evaluated by rewriting with the definitions
  of the model. \<open>state_v1\<close> is the store after one upload of a file named \<^verbatim>\<open>a\<close>,
  \<open>state_v2\<close> the store after a second upload of that name with other bytes.
\<close>

lemmas eval_defs =
  upload_file_def upload_saved_def upload_transaction_def read_chunks.simps str_nat.simps
  replicate_chunk_def replica_round_def select_storage_node_def get_node_usage_def
  used_space_def os_path_dirname_def os_path_basename_def os_path_join_def os_path_exists_def
  write_file_def os_remove_def startswith_def total_capacity_def CHUNK_SIZE_def UPLOAD_FOLDERS_def
  chunk_filename_def encrypt_and_compress_data_def compress_data_def calculate_hash_def
  decrypt_and_decompress_data_def decompress_data_def cleanup_chunks_def insert_chunk_def
  new_chunk_row_def digit_char_def demo_libs_def init_state_def empty_db_def Let_def
  download_file_def resolve_download_def download_lookup_def download_chunks_def row_get_def
  read_valid_chunk_def rollback_version_def verify_node_def verify_chunk_def ascii_lower_def
  manage_deduplication_def duplicate_groups_def update_reference_def
  archive_file_def get_db_connection_def heartbeat_def monitor_nodes_pass_def
  inactive_nodes_def handle_node_failure_def redistribute_chunks_def HEARTBEAT_THRESHOLD_def

definition state_v1 :: state where
  "state_v1 = snd (upload_file demo_libs (\<lambda>i. 0) 100 (Some (''a'', ''hello'')) init_state)"

definition state_v2 :: state where
  "state_v2 = snd (upload_file demo_libs (\<lambda>i. 1) 200 (Some (''a'', ''world!'')) state_v1)"

lemma run_v1:
  "upload_file demo_libs (\<lambda>i. 0) 100 (Some (''a'', ''hello'')) init_state =
     (Inr \<lparr>r_filename = ''a'', r_version = 1, r_original_size = 5, r_compressed_size = 7,
           r_storage_nodes = [''Node1'', ''Node2'', ''Node3'']\<rparr>,
     \<lparr>fs = [(''./storage_node1/a_chunk_0'', ''Azhello''),
     (''./storage_node2/a_chunk_0'', ''Azhello''),
     (''./storage_node3/a_chunk_0'', ''Azhello'')],
     workdir = [],
     db = \<lparr>metadata =
     [\<lparr>m_id = 1, m_filename = ''a'', m_current_version = 1,
     m_size = 5, m_compressed_size = 7, m_upload_timestamp = 100,
     m_location = ''Node1'',
     m_replicas = [''Node1'', ''Node2'', ''Node3''],
     m_storage_tier = Hot, m_last_accessed = None,
     m_access_count = 0, m_is_archived = False,
     m_archive_date = None, m_content_hash = None,
     m_deduplication_ref = None\<rparr>],
     metadata_seq = 1,
     versions =
     [\<lparr>v_file_id = 1, v_version_number = 1, v_timestamp = 100,
     v_size = 5, v_compressed_size = 7, v_hash = ''hello''\<rparr>],
     chunks =
     [\<lparr>c_id = 1, c_file_id = 1, c_version_number = 1,
     c_chunk_index = 0,
     c_chunk_location = ''./storage_node1/a_chunk_0'',
     c_original_size = 4194304, c_compressed_size = 7,
     c_chunk_hash = ''Azhello'', c_status = Active\<rparr>,
     \<lparr>c_id = 2, c_file_id = 1, c_version_number = 1,
     c_chunk_index = 0,
     c_chunk_location = ''./storage_node2/a_chunk_0'',
     c_original_size = 4194304, c_compressed_size = 7,
     c_chunk_hash = ''Azhello'', c_status = Active\<rparr>,
     \<lparr>c_id = 3, c_file_id = 1, c_version_number = 1,
     c_chunk_index = 0,
     c_chunk_location = ''./storage_node3/a_chunk_0'',
     c_original_size = 4194304, c_compressed_size = 7,
     c_chunk_hash = ''Azhello'', c_status = Active\<rparr>],
     chunks_seq = 3,
     version_changes =
     [\<lparr>vc_file_id = 1, vc_old_version = 0, vc_new_version = 1,
     vc_change_type = ''create'', vc_timestamp = 100\<rparr>],
     deduplication = [], archives = [],
     storage_tiers = [(Hot, 1), (Warm, 6), (Cold, 9)]\<rparr>,
     node_heartbeats = []\<rparr>)"
  by (simp add: eval_defs)

lemma state_v1_value:
  "state_v1 =
     \<lparr>fs = [(''./storage_node1/a_chunk_0'', ''Azhello''),
     (''./storage_node2/a_chunk_0'', ''Azhello''),
     (''./storage_node3/a_chunk_0'', ''Azhello'')],
     workdir = [],
     db = \<lparr>metadata =
     [\<lparr>m_id = 1, m_filename = ''a'', m_current_version = 1,
     m_size = 5, m_compressed_size = 7, m_upload_timestamp = 100,
     m_location = ''Node1'',
     m_replicas = [''Node1'', ''Node2'', ''Node3''],
     m_storage_tier = Hot, m_last_accessed = None,
     m_access_count = 0, m_is_archived = False,
     m_archive_date = None, m_content_hash = None,
     m_deduplication_ref = None\<rparr>],
     metadata_seq = 1,
     versions =
     [\<lparr>v_file_id = 1, v_version_number = 1, v_timestamp = 100,
     v_size = 5, v_compressed_size = 7, v_hash = ''hello''\<rparr>],
     chunks =
     [\<lparr>c_id = 1, c_file_id = 1, c_version_number = 1,
     c_chunk_index = 0,
     c_chunk_location = ''./storage_node1/a_chunk_0'',
     c_original_size = 4194304, c_compressed_size = 7,
     c_chunk_hash = ''Azhello'', c_status = Active\<rparr>,
     \<lparr>c_id = 2, c_file_id = 1, c_version_number = 1,
     c_chunk_index = 0,
     c_chunk_location = ''./storage_node2/a_chunk_0'',
     c_original_size = 4194304, c_compressed_size = 7,
     c_chunk_hash = ''Azhello'', c_status = Active\<rparr>,
     \<lparr>c_id = 3, c_file_id = 1, c_version_number = 1,
     c_chunk_index = 0,
     c_chunk_location = ''./storage_node3/a_chunk_0'',
     c_original_size = 4194304, c_compressed_size = 7,
     c_chunk_hash = ''Azhello'', c_status = Active\<rparr>],
     chunks_seq = 3,
     version_changes =
     [\<lparr>vc_file_id = 1, vc_old_version = 0, vc_new_version = 1,
     vc_change_type = ''create'', vc_timestamp = 100\<rparr>],
     deduplication = [], archives = [],
     storage_tiers = [(Hot, 1), (Warm, 6), (Cold, 9)]\<rparr>,
     node_heartbeats = []\<rparr>"
  unfolding state_v1_def run_v1 by simp

lemma run_v2:
  "upload_file demo_libs (\<lambda>i. 1) 200 (Some (''a'', ''world!'')) state_v1 =
     (Inr \<lparr>r_filename = ''a'', r_version = 2, r_original_size = 6, r_compressed_size = 8,
           r_storage_nodes = [''Node1'']\<rparr>,
     \<lparr>fs = [(''./storage_node1/a_chunk_0'', ''Bzworld!''),
     (''./storage_node2/a_chunk_0'', ''Azhello''),
     (''./storage_node3/a_chunk_0'', ''Azhello'')],
     workdir = [],
     db = \<lparr>metadata =
     [\<lparr>m_id = 1, m_filename = ''a'', m_current_version = 2,
     m_size = 6, m_compressed_size = 8, m_upload_timestamp = 200,
     m_location = ''Node1'', m_replicas = [''Node1''],
     m_storage_tier = Hot, m_last_accessed = None,
     m_access_count = 0, m_is_archived = False,
     m_archive_date = None, m_content_hash = None,
     m_deduplication_ref = None\<rparr>],
     metadata_seq = 1,
     versions =
     [\<lparr>v_file_id = 1, v_version_number = 1, v_timestamp = 100,
     v_size = 5, v_compressed_size = 7, v_hash = ''hello''\<rparr>,
     \<lparr>v_file_id = 1, v_version_number = 2, v_timestamp = 200,
     v_size = 6, v_compressed_size = 8, v_hash = ''world!''\<rparr>],
     chunks =
     [\<lparr>c_id = 1, c_file_id = 1, c_version_number = 1,
     c_chunk_index = 0,
     c_chunk_location = ''./storage_node1/a_chunk_0'',
     c_original_size = 4194304, c_compressed_size = 7,
     c_chunk_hash = ''Azhello'', c_status = Active\<rparr>,
     \<lparr>c_id = 2, c_file_id = 1, c_version_number = 1,
     c_chunk_index = 0,
     c_chunk_location = ''./storage_node2/a_chunk_0'',
     c_original_size = 4194304, c_compressed_size = 7,
     c_chunk_hash = ''Azhello'', c_status = Active\<rparr>,
     \<lparr>c_id = 3, c_file_id = 1, c_version_number = 1,
     c_chunk_index = 0,
     c_chunk_location = ''./storage_node3/a_chunk_0'',
     c_original_size = 4194304, c_compressed_size = 7,
     c_chunk_hash = ''Azhello'', c_status = Active\<rparr>,
     \<lparr>c_id = 4, c_file_id = 1, c_version_number = 2,
     c_chunk_index = 0,
     c_chunk_location = ''./storage_node1/a_chunk_0'',
     c_original_size = 4194304, c_compressed_size = 8,
     c_chunk_hash = ''Bzworld!'', c_status = Active\<rparr>],
     chunks_seq = 4,
     version_changes =
     [\<lparr>vc_file_id = 1, vc_old_version = 0, vc_new_version = 1,
     vc_change_type = ''create'', vc_timestamp = 100\<rparr>,
     \<lparr>vc_file_id = 1, vc_old_version = 1, vc_new_version = 2,
     vc_change_type = ''update'', vc_timestamp = 200\<rparr>],
     deduplication = [], archives = [],
     storage_tiers = [(Hot, 1), (Warm, 6), (Cold, 9)]\<rparr>,
     node_heartbeats = []\<rparr>)"
  unfolding state_v1_value by (simp add: eval_defs)

lemma state_v2_value:
  "state_v2 =
     \<lparr>fs = [(''./storage_node1/a_chunk_0'', ''Bzworld!''),
     (''./storage_node2/a_chunk_0'', ''Azhello''),
     (''./storage_node3/a_chunk_0'', ''Azhello'')],
     workdir = [],
     db = \<lparr>metadata =
     [\<lparr>m_id = 1, m_filename = ''a'', m_current_version = 2,
     m_size = 6, m_compressed_size = 8, m_upload_timestamp = 200,
     m_location = ''Node1'', m_replicas = [''Node1''],
     m_storage_tier = Hot, m_last_accessed = None,
     m_access_count = 0, m_is_archived = False,
     m_archive_date = None, m_content_hash = None,
     m_deduplication_ref = None\<rparr>],
     metadata_seq = 1,
     versions =
     [\<lparr>v_file_id = 1, v_version_number = 1, v_timestamp = 100,
     v_size = 5, v_compressed_size = 7, v_hash = ''hello''\<rparr>,
     \<lparr>v_file_id = 1, v_version_number = 2, v_timestamp = 200,
     v_size = 6, v_compressed_size = 8, v_hash = ''world!''\<rparr>],
     chunks =
     [\<lparr>c_id = 1, c_file_id = 1, c_version_number = 1,
     c_chunk_index = 0,
     c_chunk_location = ''./storage_node1/a_chunk_0'',
     c_original_size = 4194304, c_compressed_size = 7,
     c_chunk_hash = ''Azhello'', c_status = Active\<rparr>,
     \<lparr>c_id = 2, c_file_id = 1, c_version_number = 1,
     c_chunk_index = 0,
     c_chunk_location = ''./storage_node2/a_chunk_0'',
     c_original_size = 4194304, c_compressed_size = 7,
     c_chunk_hash = ''Azhello'', c_status = Active\<rparr>,
     \<lparr>c_id = 3, c_file_id = 1, c_version_number = 1,
     c_chunk_index = 0,
     c_chunk_location = ''./storage_node3/a_chunk_0'',
     c_original_size = 4194304, c_compressed_size = 7,
     c_chunk_hash = ''Azhello'', c_status = Active\<rparr>,
     \<lparr>c_id = 4, c_file_id = 1, c_version_number = 2,
     c_chunk_index = 0,
     c_chunk_location = ''./storage_node1/a_chunk_0'',
     c_original_size = 4194304, c_compressed_size = 8,
     c_chunk_hash = ''Bzworld!'', c_status = Active\<rparr>],
     chunks_seq = 4,
     version_changes =
     [\<lparr>vc_file_id = 1, vc_old_version = 0, vc_new_version = 1,
     vc_change_type = ''create'', vc_timestamp = 100\<rparr>,
     \<lparr>vc_file_id = 1, vc_old_version = 1, vc_new_version = 2,
     vc_change_type = ''update'', vc_timestamp = 200\<rparr>],
     deduplication = [], archives = [],
     storage_tiers = [(Hot, 1), (Warm, 6), (Cold, 9)]\<rparr>,
     node_heartbeats = []\<rparr>"
  unfolding state_v2_def run_v2 by simp

section \<open>Download with a version parameter\<close>

lemma row_get_missing_column:
  "row_get [(''id'', a), (''version_number'', b)] ''current_version'' = Inl IndexError"
  by (simp add: row_get_def)

lemma download_with_version:
  assumes "ver \<noteq> 0"
  shows "download_file L pick filename (Some ver) st =
           (if download_lookup filename (Some ver) (db st) = [] then (Inl FileNotFound404, st)
            else (Inl IndexError, st))"
proof (cases "download_lookup filename (Some ver) (db st)")
  case Nil
  then show ?thesis by (simp add: download_file_def resolve_download_def)
next
  case (Cons r rs)
  then have "r \<in> set (download_lookup filename (Some ver) (db st))" by simp
  then obtain a b where "r = [(''id'', a), (''version_number'', b)]"
    using assms by (auto simp: download_lookup_def)
  then show ?thesis using Cons
    by (simp add: download_file_def resolve_download_def row_get_def)
qed

text \<open>
  Claim C2 says that a download with \<^verbatim>\<open>?version=V\<close> returns the bytes of version
  \<open>V\<close> when that version exists. After the two uploads of \<open>state_v2\<close>, the download of
  \<^verbatim>\<open>a\<close> with \<^verbatim>\<open>?version=1\<close> ends in the handler's \<^verbatim>\<open>except\<close> branch with the
  \<^verbatim>\<open>IndexError\<close> of line 1944 (HTTP 500), while the download without a version
  returns the bytes of version 2.
\<close>

theorem download_version_1_raises:
  "fst (download_file demo_libs pick ''a'' (Some 1) state_v2) = Inl IndexError \<and>
   fst (download_file demo_libs (\<lambda>g. 0) ''a'' None state_v2) = Inr ''world!''"
proof -
  have "download_lookup ''a'' (Some 1) (db state_v2) \<noteq> []"
    unfolding state_v2_value by (simp add: download_lookup_def)
  then have "fst (download_file demo_libs pick ''a'' (Some 1) state_v2) = Inl IndexError"
    using download_with_version[of 1 demo_libs pick "''a''" state_v2] by simp
  moreover have "fst (download_file demo_libs (\<lambda>g. 0) ''a'' None state_v2) = Inr ''world!''"
    unfolding state_v2_value by (simp add: eval_defs)
  ultimately show ?thesis by simp
qed

section \<open>Integrity of active chunk rows\<close>

text \<open>
  Claim C4 says that in every reachable state the file at the location of an active chunk
  row hashes to the row's \<^verbatim>\<open>chunk_hash\<close>, so that verification reports no corrupted
  and no missing chunk. In \<open>state_v2\<close>, reached by two uploads, the row of version 1 on
  Node1 (id 1) is still active and keeps the hash of the first payload, while its file was
  overwritten by the payload of version 2: \<^verbatim>\<open>verify_node\<close> reports it as corrupted.
\<close>

theorem verify_node_after_second_upload:
  "verify_node demo_libs ''Node1'' state_v2 =
     Inr \<lparr>verified_chunks = [4], corrupted_chunks = [1], missing_chunks = []\<rparr>"
  unfolding state_v2_value by (simp add: eval_defs)

lemma active_row_with_other_hash:
  "\<exists>c \<in> set (chunks (db state_v2)). c_status c = Active \<and>
      map_of (fs state_v2) (c_chunk_location c) = Some ''Bzworld!'' \<and>
      c_chunk_hash c = calculate_hash demo_libs ''Azhello'' \<and>
      calculate_hash demo_libs ''Bzworld!'' \<noteq> c_chunk_hash c"
  unfolding state_v2_value by (simp add: calculate_hash_def demo_libs_def)

section \<open>Rollback after two uploads\<close>

text \<open>
  Three uploads against the empty store: a file named \<^verbatim>\<open>a_b\<close>, then a file named
  \<^verbatim>\<open>a b\<close> twice, with different bytes. \<^verbatim>\<open>secure_filename\<close> maps both names to
  \<^verbatim>\<open>a_b\<close>, so all three write the chunk file \<^verbatim>\<open>a_b_chunk_0\<close>. The first upload
  fills the three node directories; the uploads of \<^verbatim>\<open>a b\<close> each overwrite the file
  on Node1, and \<^verbatim>\<open>replicate_chunk\<close> records no replica for them because a file of
  that name is already on Node2 and Node3.
\<close>

definition state_c1 :: state where
  "state_c1 = snd (upload_file demo_libs (\<lambda>i. 0) 100 (Some (''a_b'', ''hello'')) init_state)"

definition state_c2 :: state where
  "state_c2 = snd (upload_file demo_libs (\<lambda>i. 1) 200 (Some (''a b'', ''world'')) state_c1)"

definition state_c3 :: state where
  "state_c3 = snd (upload_file demo_libs (\<lambda>i. 2) 300 (Some (''a b'', ''third'')) state_c2)"

lemma run_c1:
  "upload_file demo_libs (\<lambda>i. 0) 100 (Some (''a_b'', ''hello'')) init_state =
     (Inr \<lparr>r_filename = ''a_b'', r_version = 1, r_original_size = 5, r_compressed_size = 7,
           r_storage_nodes = [''Node1'', ''Node2'', ''Node3'']\<rparr>,
     \<lparr>fs = [(''./storage_node1/a_b_chunk_0'', ''Azhello''),
     (''./storage_node2/a_b_chunk_0'', ''Azhello''),
     (''./storage_node3/a_b_chunk_0'', ''Azhello'')],
     workdir = [],
     db = \<lparr>metadata =
     [\<lparr>m_id = 1, m_filename = ''a_b'', m_current_version = 1,
     m_size = 5, m_compressed_size = 7, m_upload_timestamp = 100,
     m_location = ''Node1'',
     m_replicas = [''Node1'', ''Node2'', ''Node3''],
     m_storage_tier = Hot, m_last_accessed = None,
     m_access_count = 0, m_is_archived = False,
     m_archive_date = None, m_content_hash = None,
     m_deduplication_ref = None\<rparr>],
     metadata_seq = 1,
     versions =
     [\<lparr>v_file_id = 1, v_version_number = 1, v_timestamp = 100,
     v_size = 5, v_compressed_size = 7, v_hash = ''hello''\<rparr>],
     chunks =
     [\<lparr>c_id = 1, c_file_id = 1, c_version_number = 1,
     c_chunk_index = 0,
     c_chunk_location = ''./storage_node1/a_b_chunk_0'',
     c_original_size = 4194304, c_compressed_size = 7,
     c_chunk_hash = ''Azhello'', c_status = Active\<rparr>,
     \<lparr>c_id = 2, c_file_id = 1, c_version_number = 1,
     c_chunk_index = 0,
     c_chunk_location = ''./storage_node2/a_b_chunk_0'',
     c_original_size = 4194304, c_compressed_size = 7,
     c_chunk_hash = ''Azhello'', c_status = Active\<rparr>,
     \<lparr>c_id = 3, c_file_id = 1, c_version_number = 1,
     c_chunk_index = 0,
     c_chunk_location = ''./storage_node3/a_b_chunk_0'',
     c_original_size = 4194304, c_compressed_size = 7,
     c_chunk_hash = ''Azhello'', c_status = Active\<rparr>],
     chunks_seq = 3,
     version_changes =
     [\<lparr>vc_file_id = 1, vc_old_version = 0, vc_new_version = 1,
     vc_change_type = ''create'', vc_timestamp = 100\<rparr>],
     deduplication = [], archives = [],
     storage_tiers = [(Hot, 1), (Warm, 6), (Cold, 9)]\<rparr>,
     node_heartbeats = []\<rparr>)"
  by (simp add: eval_defs)

lemma state_c1_value:
  "state_c1 =
     \<lparr>fs = [(''./storage_node1/a_b_chunk_0'', ''Azhello''),
     (''./storage_node2/a_b_chunk_0'', ''Azhello''),
     (''./storage_node3/a_b_chunk_0'', ''Azhello'')],
     workdir = [],
     db = \<lparr>metadata =
     [\<lparr>m_id = 1, m_filename = ''a_b'', m_current_version = 1,
     m_size = 5, m_compressed_size = 7, m_upload_timestamp = 100,
     m_location = ''Node1'',
     m_replicas = [''Node1'', ''Node2'', ''Node3''],
     m_storage_tier = Hot, m_last_accessed = None,
     m_access_count = 0, m_is_archived = False,
     m_archive_date = None, m_content_hash = None,
     m_deduplication_ref = None\<rparr>],
     metadata_seq = 1,
     versions =
     [\<lparr>v_file_id = 1, v_version_number = 1, v_timestamp = 100,
     v_size = 5, v_compressed_size = 7, v_hash = ''hello''\<rparr>],
     chunks =
     [\<lparr>c_id = 1, c_file_id = 1, c_version_number = 1,
     c_chunk_index = 0,
     c_chunk_location = ''./storage_node1/a_b_chunk_0'',
     c_original_size = 4194304, c_compressed_size = 7,
     c_chunk_hash = ''Azhello'', c_status = Active\<rparr>,
     \<lparr>c_id = 2, c_file_id = 1, c_version_number = 1,
     c_chunk_index = 0,
     c_chunk_location = ''./storage_node2/a_b_chunk_0'',
     c_original_size = 4194304, c_compressed_size = 7,
     c_chunk_hash = ''Azhello'', c_status = Active\<rparr>,
     \<lparr>c_id = 3, c_file_id = 1, c_version_number = 1,
     c_chunk_index = 0,
     c_chunk_location = ''./storage_node3/a_b_chunk_0'',
     c_original_size = 4194304, c_compressed_size = 7,
     c_chunk_hash = ''Azhello'', c_status = Active\<rparr>],
     chunks_seq = 3,
     version_changes =
     [\<lparr>vc_file_id = 1, vc_old_version = 0, vc_new_version = 1,
     vc_change_type = ''create'', vc_timestamp = 100\<rparr>],
     deduplication = [], archives = [],
     storage_tiers = [(Hot, 1), (Warm, 6), (Cold, 9)]\<rparr>,
     node_heartbeats = []\<rparr>"
  unfolding state_c1_def run_c1 by simp

lemma run_c2:
  "upload_file demo_libs (\<lambda>i. 1) 200 (Some (''a b'', ''world'')) state_c1 =
     (Inr \<lparr>r_filename = ''a b'', r_version = 1, r_original_size = 5, r_compressed_size = 7,
           r_storage_nodes = [''Node1'']\<rparr>,
     \<lparr>fs = [(''./storage_node1/a_b_chunk_0'', ''Bzworld''),
     (''./storage_node2/a_b_chunk_0'', ''Azhello''),
     (''./storage_node3/a_b_chunk_0'', ''Azhello'')],
     workdir = [],
     db = \<lparr>metadata =
     [\<lparr>m_id = 1, m_filename = ''a_b'', m_current_version = 1,
     m_size = 5, m_compressed_size = 7, m_upload_timestamp = 100,
     m_location = ''Node1'',
     m_replicas = [''Node1'', ''Node2'', ''Node3''],
     m_storage_tier = Hot, m_last_accessed = None,
     m_access_count = 0, m_is_archived = False,
     m_archive_date = None, m_content_hash = None,
     m_deduplication_ref = None\<rparr>,
     \<lparr>m_id = 2, m_filename = ''a b'', m_current_version = 1,
     m_size = 5, m_compressed_size = 7, m_upload_timestamp = 200,
     m_location = ''Node1'', m_replicas = [''Node1''],
     m_storage_tier = Hot, m_last_accessed = None,
     m_access_count = 0, m_is_archived = False,
     m_archive_date = None, m_content_hash = None,
     m_deduplication_ref = None\<rparr>],
     metadata_seq = 2,
     versions =
     [\<lparr>v_file_id = 1, v_version_number = 1, v_timestamp = 100,
     v_size = 5, v_compressed_size = 7, v_hash = ''hello''\<rparr>,
     \<lparr>v_file_id = 2, v_version_number = 1, v_timestamp = 200,
     v_size = 5, v_compressed_size = 7, v_hash = ''world''\<rparr>],
     chunks =
     [\<lparr>c_id = 1, c_file_id = 1, c_version_number = 1,
     c_chunk_index = 0,
     c_chunk_location = ''./storage_node1/a_b_chunk_0'',
     c_original_size = 4194304, c_compressed_size = 7,
     c_chunk_hash = ''Azhello'', c_status = Active\<rparr>,
     \<lparr>c_id = 2, c_file_id = 1, c_version_number = 1,
     c_chunk_index = 0,
     c_chunk_location = ''./storage_node2/a_b_chunk_0'',
     c_original_size = 4194304, c_compressed_size = 7,
     c_chunk_hash = ''Azhello'', c_status = Active\<rparr>,
     \<lparr>c_id = 3, c_file_id = 1, c_version_number = 1,
     c_chunk_index = 0,
     c_chunk_location = ''./storage_node3/a_b_chunk_0'',
     c_original_size = 4194304, c_compressed_size = 7,
     c_chunk_hash = ''Azhello'', c_status = Active\<rparr>,
     \<lparr>c_id = 4, c_file_id = 2, c_version_number = 1,
     c_chunk_index = 0,
     c_chunk_location = ''./storage_node1/a_b_chunk_0'',
     c_original_size = 4194304, c_compressed_size = 7,
     c_chunk_hash = ''Bzworld'', c_status = Active\<rparr>],
     chunks_seq = 4,
     version_changes =
     [\<lparr>vc_file_id = 1, vc_old_version = 0, vc_new_version = 1,
     vc_change_type = ''create'', vc_timestamp = 100\<rparr>,
     \<lparr>vc_file_id = 2, vc_old_version = 0, vc_new_version = 1,
     vc_change_type = ''create'', vc_timestamp = 200\<rparr>],
     deduplication = [], archives = [],
     storage_tiers = [(Hot, 1), (Warm, 6), (Cold, 9)]\<rparr>,
     node_heartbeats = []\<rparr>)"
  unfolding state_c1_value by (simp add: eval_defs)

lemma state_c2_value:
  "state_c2 =
     \<lparr>fs = [(''./storage_node1/a_b_chunk_0'', ''Bzworld''),
     (''./storage_node2/a_b_chunk_0'', ''Azhello''),
     (''./storage_node3/a_b_chunk_0'', ''Azhello'')],
     workdir = [],
     db = \<lparr>metadata =
     [\<lparr>m_id = 1, m_filename = ''a_b'', m_current_version = 1,
     m_size = 5, m_compressed_size = 7, m_upload_timestamp = 100,
     m_location = ''Node1'',
     m_replicas = [''Node1'', ''Node2'', ''Node3''],
     m_storage_tier = Hot, m_last_accessed = None,
     m_access_count = 0, m_is_archived = False,
     m_archive_date = None, m_content_hash = None,
     m_deduplication_ref = None\<rparr>,
     \<lparr>m_id = 2, m_filename = ''a b'', m_current_version = 1,
     m_size = 5, m_compressed_size = 7, m_upload_timestamp = 200,
     m_location = ''Node1'', m_replicas = [''Node1''],
     m_storage_tier = Hot, m_last_accessed = None,
     m_access_count = 0, m_is_archived = False,
     m_archive_date = None, m_content_hash = None,
     m_deduplication_ref = None\<rparr>],
     metadata_seq = 2,
     versions =
     [\<lparr>v_file_id = 1, v_version_number = 1, v_timestamp = 100,
     v_size = 5, v_compressed_size = 7, v_hash = ''hello''\<rparr>,
     \<lparr>v_file_id = 2, v_version_number = 1, v_timestamp = 200,
     v_size = 5, v_compressed_size = 7, v_hash = ''world''\<rparr>],
     chunks =
     [\<lparr>c_id = 1, c_file_id = 1, c_version_number = 1,
     c_chunk_index = 0,
     c_chunk_location = ''./storage_node1/a_b_chunk_0'',
     c_original_size = 4194304, c_compressed_size = 7,
     c_chunk_hash = ''Azhello'', c_status = Active\<rparr>,
     \<lparr>c_id = 2, c_file_id = 1, c_version_number = 1,
     c_chunk_index = 0,
     c_chunk_location = ''./storage_node2/a_b_chunk_0'',
     c_original_size = 4194304, c_compressed_size = 7,
     c_chunk_hash = ''Azhello'', c_status = Active\<rparr>,
     \<lparr>c_id = 3, c_file_id = 1, c_version_number = 1,
     c_chunk_index = 0,
     c_chunk_location = ''./storage_node3/a_b_chunk_0'',
     c_original_size = 4194304, c_compressed_size = 7,
     c_chunk_hash = ''Azhello'', c_status = Active\<rparr>,
     \<lparr>c_id = 4, c_file_id = 2, c_version_number = 1,
     c_chunk_index = 0,
     c_chunk_location = ''./storage_node1/a_b_chunk_0'',
     c_original_size = 4194304, c_compressed_size = 7,
     c_chunk_hash = ''Bzworld'', c_status = Active\<rparr>],
     chunks_seq = 4,
     version_changes =
     [\<lparr>vc_file_id = 1, vc_old_version = 0, vc_new_version = 1,
     vc_change_type = ''create'', vc_timestamp = 100\<rparr>,
     \<lparr>vc_file_id = 2, vc_old_version = 0, vc_new_version = 1,
     vc_change_type = ''create'', vc_timestamp = 200\<rparr>],
     deduplication = [], archives = [],
     storage_tiers = [(Hot, 1), (Warm, 6), (Cold, 9)]\<rparr>,
     node_heartbeats = []\<rparr>"
  unfolding state_c2_def run_c2 by simp

lemma run_c3:
  "upload_file demo_libs (\<lambda>i. 2) 300 (Some (''a b'', ''third'')) state_c2 =
     (Inr \<lparr>r_filename = ''a b'', r_version = 2, r_original_size = 5, r_compressed_size = 7,
           r_storage_nodes = [''Node1'']\<rparr>,
     \<lparr>fs = [(''./storage_node1/a_b_chunk_0'', ''Czthird''),
     (''./storage_node2/a_b_chunk_0'', ''Azhello''),
     (''./storage_node3/a_b_chunk_0'', ''Azhello'')],
     workdir = [],
     db = \<lparr>metadata =
     [\<lparr>m_id = 1, m_filename = ''a_b'', m_current_version = 1,
     m_size = 5, m_compressed_size = 7, m_upload_timestamp = 100,
     m_location = ''Node1'',
     m_replicas = [''Node1'', ''Node2'', ''Node3''],
     m_storage_tier = Hot, m_last_accessed = None,
     m_access_count = 0, m_is_archived = False,
     m_archive_date = None, m_content_hash = None,
     m_deduplication_ref = None\<rparr>,
     \<lparr>m_id = 2, m_filename = ''a b'', m_current_version = 2,
     m_size = 5, m_compressed_size = 7, m_upload_timestamp = 300,
     m_location = ''Node1'', m_replicas = [''Node1''],
     m_storage_tier = Hot, m_last_accessed = None,
     m_access_count = 0, m_is_archived = False,
     m_archive_date = None, m_content_hash = None,
     m_deduplication_ref = None\<rparr>],
     metadata_seq = 2,
     versions =
     [\<lparr>v_file_id = 1, v_version_number = 1, v_timestamp = 100,
     v_size = 5, v_compressed_size = 7, v_hash = ''hello''\<rparr>,
     \<lparr>v_file_id = 2, v_version_number = 1, v_timestamp = 200,
     v_size = 5, v_compressed_size = 7, v_hash = ''world''\<rparr>,
     \<lparr>v_file_id = 2, v_version_number = 2, v_timestamp = 300,
     v_size = 5, v_compressed_size = 7, v_hash = ''third''\<rparr>],
     chunks =
     [\<lparr>c_id = 1, c_file_id = 1, c_version_number = 1,
     c_chunk_index = 0,
     c_chunk_location = ''./storage_node1/a_b_chunk_0'',
     c_original_size = 4194304, c_compressed_size = 7,
     c_chunk_hash = ''Azhello'', c_status = Active\<rparr>,
     \<lparr>c_id = 2, c_file_id = 1, c_version_number = 1,
     c_chunk_index = 0,
     c_chunk_location = ''./storage_node2/a_b_chunk_0'',
     c_original_size = 4194304, c_compressed_size = 7,
     c_chunk_hash = ''Azhello'', c_status = Active\<rparr>,
     \<lparr>c_id = 3, c_file_id = 1, c_version_number = 1,
     c_chunk_index = 0,
     c_chunk_location = ''./storage_node3/a_b_chunk_0'',
     c_original_size = 4194304, c_compressed_size = 7,
     c_chunk_hash = ''Azhello'', c_status = Active\<rparr>,
     \<lparr>c_id = 4, c_file_id = 2, c_version_number = 1,
     c_chunk_index = 0,
     c_chunk_location = ''./storage_node1/a_b_chunk_0'',
     c_original_size = 4194304, c_compressed_size = 7,
     c_chunk_hash = ''Bzworld'', c_status = Active\<rparr>,
     \<lparr>c_id = 5, c_file_id = 2, c_version_number = 2,
     c_chunk_index = 0,
     c_chunk_location = ''./storage_node1/a_b_chunk_0'',
     c_original_size = 4194304, c_compressed_size = 7,
     c_chunk_hash = ''Czthird'', c_status = Active\<rparr>],
     chunks_seq = 5,
     version_changes =
     [\<lparr>vc_file_id = 1, vc_old_version = 0, vc_new_version = 1,
     vc_change_type = ''create'', vc_timestamp = 100\<rparr>,
     \<lparr>vc_file_id = 2, vc_old_version = 0, vc_new_version = 1,
     vc_change_type = ''create'', vc_timestamp = 200\<rparr>,
     \<lparr>vc_file_id = 2, vc_old_version = 1, vc_new_version = 2,
     vc_change_type = ''update'', vc_timestamp = 300\<rparr>],
     deduplication = [], archives = [],
     storage_tiers = [(Hot, 1), (Warm, 6), (Cold, 9)]\<rparr>,
     node_heartbeats = []\<rparr>)"
  unfolding state_c2_value by (simp add: eval_defs)

lemma state_c3_value:
  "state_c3 =
     \<lparr>fs = [(''./storage_node1/a_b_chunk_0'', ''Czthird''),
     (''./storage_node2/a_b_chunk_0'', ''Azhello''),
     (''./storage_node3/a_b_chunk_0'', ''Azhello'')],
     workdir = [],
     db = \<lparr>metadata =
     [\<lparr>m_id = 1, m_filename = ''a_b'', m_current_version = 1,
     m_size = 5, m_compressed_size = 7, m_upload_timestamp = 100,
     m_location = ''Node1'',
     m_replicas = [''Node1'', ''Node2'', ''Node3''],
     m_storage_tier = Hot, m_last_accessed = None,
     m_access_count = 0, m_is_archived = False,
     m_archive_date = None, m_content_hash = None,
     m_deduplication_ref = None\<rparr>,
     \<lparr>m_id = 2, m_filename = ''a b'', m_current_version = 2,
     m_size = 5, m_compressed_size = 7, m_upload_timestamp = 300,
     m_location = ''Node1'', m_replicas = [''Node1''],
     m_storage_tier = Hot, m_last_accessed = None,
     m_access_count = 0, m_is_archived = False,
     m_archive_date = None, m_content_hash = None,
     m_deduplication_ref = None\<rparr>],
     metadata_seq = 2,
     versions =
     [\<lparr>v_file_id = 1, v_version_number = 1, v_timestamp = 100,
     v_size = 5, v_compressed_size = 7, v_hash = ''hello''\<rparr>,
     \<lparr>v_file_id = 2, v_version_number = 1, v_timestamp = 200,
     v_size = 5, v_compressed_size = 7, v_hash = ''world''\<rparr>,
     \<lparr>v_file_id = 2, v_version_number = 2, v_timestamp = 300,
     v_size = 5, v_compressed_size = 7, v_hash = ''third''\<rparr>],
     chunks =
     [\<lparr>c_id = 1, c_file_id = 1, c_version_number = 1,
     c_chunk_index = 0,
     c_chunk_location = ''./storage_node1/a_b_chunk_0'',
     c_original_size = 4194304, c_compressed_size = 7,
     c_chunk_hash = ''Azhello'', c_status = Active\<rparr>,
     \<lparr>c_id = 2, c_file_id = 1, c_version_number = 1,
     c_chunk_index = 0,
     c_chunk_location = ''./storage_node2/a_b_chunk_0'',
     c_original_size = 4194304, c_compressed_size = 7,
     c_chunk_hash = ''Azhello'', c_status = Active\<rparr>,
     \<lparr>c_id = 3, c_file_id = 1, c_version_number = 1,
     c_chunk_index = 0,
     c_chunk_location = ''./storage_node3/a_b_chunk_0'',
     c_original_size = 4194304, c_compressed_size = 7,
     c_chunk_hash = ''Azhello'', c_status = Active\<rparr>,
     \<lparr>c_id = 4, c_file_id = 2, c_version_number = 1,
     c_chunk_index = 0,
     c_chunk_location = ''./storage_node1/a_b_chunk_0'',
     c_original_size = 4194304, c_compressed_size = 7,
     c_chunk_hash = ''Bzworld'', c_status = Active\<rparr>,
     \<lparr>c_id = 5, c_file_id = 2, c_version_number = 2,
     c_chunk_index = 0,
     c_chunk_location = ''./storage_node1/a_b_chunk_0'',
     c_original_size = 4194304, c_compressed_size = 7,
     c_chunk_hash = ''Czthird'', c_status = Active\<rparr>],
     chunks_seq = 5,
     version_changes =
     [\<lparr>vc_file_id = 1, vc_old_version = 0, vc_new_version = 1,
     vc_change_type = ''create'', vc_timestamp = 100\<rparr>,
     \<lparr>vc_file_id = 2, vc_old_version = 0, vc_new_version = 1,
     vc_change_type = ''create'', vc_timestamp = 200\<rparr>,
     \<lparr>vc_file_id = 2, vc_old_version = 1, vc_new_version = 2,
     vc_change_type = ''update'', vc_timestamp = 300\<rparr>],
     deduplication = [], archives = [],
     storage_tiers = [(Hot, 1), (Warm, 6), (Cold, 9)]\<rparr>,
     node_heartbeats = []\<rparr>"
  unfolding state_c3_def run_c3 by simp

text \<open>
  Claim C3 says that after two uploads of a file with different content, a rollback to
  version 1 followed by a download yields the bytes of version 1 (and a rollback to
  version 2 those of version 2). In \<open>state_c3\<close> the file \<^verbatim>\<open>a b\<close> has been uploaded
  twice, both uploads succeeded, and a download returns the bytes of version 2. The
  rollback to version 1 succeeds and sets \<^verbatim>\<open>current_version\<close> to 1, but the download
  that follows fails: the only row of version 1 points to the file on Node1, which holds
  the payload of version 2, and no node directory holds a file of that name with the hash
  of version 1.
\<close>

theorem rollback_after_two_uploads_fails:
  "fst (upload_file demo_libs (\<lambda>i. 1) 200 (Some (''a b'', ''world'')) state_c1) =
     Inr \<lparr>r_filename = ''a b'', r_version = 1, r_original_size = 5, r_compressed_size = 7,
          r_storage_nodes = [''Node1'']\<rparr> \<and>
   fst (upload_file demo_libs (\<lambda>i. 2) 300 (Some (''a b'', ''third'')) state_c2) =
     Inr \<lparr>r_filename = ''a b'', r_version = 2, r_original_size = 5, r_compressed_size = 7,
          r_storage_nodes = [''Node1'']\<rparr> \<and>
   fst (download_file demo_libs pick ''a b'' None state_c3) = Inr ''third'' \<and>
   fst (rollback_version ''a b'' 1 state_c3) = Inr (RolledBack 2 1) \<and>
   map (\<lambda>m. (m_filename m, m_current_version m))
       (metadata (db (snd (rollback_version ''a b'' 1 state_c3)))) = [(''a_b'', 1), (''a b'', 1)] \<and>
   fst (download_file demo_libs pick ''a b'' None (snd (rollback_version ''a b'' 1 state_c3))) =
     Inl (ChunkCorruptedOrMissing 0)"
proof -
  have u2: "fst (upload_file demo_libs (\<lambda>i. 1) 200 (Some (''a b'', ''world'')) state_c1) =
     Inr \<lparr>r_filename = ''a b'', r_version = 1, r_original_size = 5, r_compressed_size = 7,
          r_storage_nodes = [''Node1'']\<rparr>"
    by (simp only: run_c2 fst_conv)
  have u3: "fst (upload_file demo_libs (\<lambda>i. 2) 300 (Some (''a b'', ''third'')) state_c2) =
     Inr \<lparr>r_filename = ''a b'', r_version = 2, r_original_size = 5, r_compressed_size = 7,
          r_storage_nodes = [''Node1'']\<rparr>"
    by (simp only: run_c3 fst_conv)
  have d3: "fst (download_file demo_libs pick ''a b'' None state_c3) = Inr ''third''"
    unfolding state_c3_value by (simp add: eval_defs)
  have rb: "fst (rollback_version ''a b'' 1 state_c3) = Inr (RolledBack 2 1)"
    unfolding state_c3_value by (simp add: eval_defs)
  have md: "map (\<lambda>m. (m_filename m, m_current_version m))
       (metadata (db (snd (rollback_version ''a b'' 1 state_c3)))) = [(''a_b'', 1), (''a b'', 1)]"
    unfolding state_c3_value by (simp add: eval_defs)
  have dl: "fst (download_file demo_libs pick ''a b'' None
                        (snd (rollback_version ''a b'' 1 state_c3))) =
                   Inl (ChunkCorruptedOrMissing 0)"
    unfolding state_c3_value by (simp add: eval_defs)
  from u2 u3 d3 rb md dl show ?thesis by (intro conjI)
qed

section \<open>Tier migration\<close>

lemma recompress_chunk_writes_nothing:
  "recompress_chunk L nonce compression_level chunk f = f"
  by (simp add: recompress_chunk_def call_encrypt_and_compress_data_def
           split: option.splits sum.splits)

text \<open>
  Claim C6 says that a tier change re-encodes every active chunk at the new tier's
  compression level, writes it back and updates \<^verbatim>\<open>metadata.storage_tier\<close>. The first
  statement of \<^verbatim>\<open>move_to_storage_tier\<close> assigns the column \<^verbatim>\<open>last_modified\<close>,
  which the \<^verbatim>\<open>metadata\<close> table does not have: for every file, tier and state the
  call raises and leaves the catalog and every chunk file as they were. (The chunk loop,
  were it reached, passes a \<^verbatim>\<open>compression_level\<close> keyword that
  \<^verbatim>\<open>encrypt_and_compress_data\<close> does not accept and so writes nothing either,
  \<open>recompress_chunk_writes_nothing\<close>.)
\<close>

theorem move_to_storage_tier_raises:
  "move_to_storage_tier L nonce file_id new_tier st = (Inl RuntimeError, st)"
  by (simp add: move_to_storage_tier_def get_db_connection_def sql_update_metadata_def
        metadata_columns_def)

section \<open>Deduplication of uploaded files\<close>

text \<open>
  No upload writes \<^verbatim>\<open>metadata.content_hash\<close>, whether it succeeds or fails, and without
  a content hash in the table the deduplication pass changes nothing: from a store in
  which the column is null everywhere, as in the empty store, the pass after any two upload
  requests is the identity.
\<close>

lemma upload_file_content_hash:
  assumes up: "upload_file L rnd now (Some (filename, data)) st = (res, st')"
    and none: "\<forall>m\<in>set (metadata (db st)). m_content_hash m = None"
  shows "\<forall>m\<in>set (metadata (db st')). m_content_hash m = None"
proof (cases res)
  case (Inl e)
  with up have "db st' = db st" by (auto dest: upload_file_failure)
  with none show ?thesis by simp
next
  case (Inr r)
  with up have "upload_file L rnd now (Some (filename, data)) st = (Inr r, st')" by simp
  from upload_file_success[OF this] obtain node cl tsize f1 where
    ut: "upload_transaction L now filename (length data) tsize (calculate_hash L data) node cl f1 (db st)
           = (Inr (db st', r), fs st')" by blast
  from none have "set (map m_content_hash (metadata (db st))) \<subseteq> {None}" by auto
  then have "set (map m_content_hash (metadata (db st'))) \<subseteq> {None}"
    unfolding upload_transaction_success(8)[OF ut] by (auto split: option.splits)
  then show ?thesis by auto
qed

lemma manage_deduplication_without_hashes:
  assumes "\<forall>m\<in>set (metadata (db st)). m_content_hash m = None"
  shows "manage_deduplication now st = st"
proof -
  from assms have "filter (\<lambda>m. m_content_hash m \<noteq> None) (metadata (db st)) = []"
    by (simp add: filter_empty_conv)
  then have "duplicate_groups (db st) = []" by (simp add: duplicate_groups_def)
  then show ?thesis by (simp add: manage_deduplication_def)
qed

lemma uploads_leave_nothing_to_deduplicate:
  assumes "\<forall>m\<in>set (metadata (db st)). m_content_hash m = None"
    and "upload_file L rnd1 now1 (Some (filename1, data1)) st = (res1, st1)"
    and "upload_file L rnd2 now2 (Some (filename2, data2)) st1 = (res2, st2)"
  shows "manage_deduplication now st2 = st2"
proof -
  from upload_file_content_hash[OF assms(2) assms(1)]
  have "\<forall>m\<in>set (metadata (db st1)). m_content_hash m = None" .
  from upload_file_content_hash[OF assms(3) this]
  have "\<forall>m\<in>set (metadata (db st2)). m_content_hash m = None" .
  then show ?thesis by (rule manage_deduplication_without_hashes)
qed

text \<open>
  Claim C5 says that after two uploads of the same content under two file names the
  deduplication pass sets \<^verbatim>\<open>deduplication_ref\<close> of the later file to the id of the
  earlier one and leaves a \<^verbatim>\<open>deduplication\<close> row for the content hash with
  \<^verbatim>\<open>reference_count = 2\<close>. \<^verbatim>\<open>manage_deduplication\<close> groups the files by
  \<^verbatim>\<open>metadata.content_hash\<close>; \<^verbatim>\<open>upload_file\<close> computes the hash of the file and
  stores it in \<^verbatim>\<open>versions.hash\<close> only, so the column stays null and the pass finds
  no group (\<open>uploads_leave_nothing_to_deduplicate\<close>). Two uploads of the same bytes
  under the names \<^verbatim>\<open>a\<close> and \<^verbatim>\<open>b\<close>, then the pass: both uploads succeed, no row
  gets a \<^verbatim>\<open>deduplication_ref\<close> and the \<^verbatim>\<open>deduplication\<close> table stays empty.
\<close>

theorem uploads_are_not_deduplicated:
  "fst (upload_file demo_libs (\<lambda>i. 1) 200 (Some (''b'', ''hello'')) state_v1) =
     Inr \<lparr>r_filename = ''b'', r_version = 1, r_original_size = 5, r_compressed_size = 7,
          r_storage_nodes = [''Node1'', ''Node2'', ''Node3'']\<rparr> \<and>
   map (\<lambda>m. (m_filename m, m_content_hash m, m_deduplication_ref m))
       (metadata (db (manage_deduplication 300
          (snd (upload_file demo_libs (\<lambda>i. 1) 200 (Some (''b'', ''hello'')) state_v1))))) =
     [(''a'', None, None), (''b'', None, None)] \<and>
   deduplication (db (manage_deduplication 300
          (snd (upload_file demo_libs (\<lambda>i. 1) 200 (Some (''b'', ''hello'')) state_v1)))) = []"
  unfolding state_v1_value by (simp add: eval_defs)

section \<open>What a download changes\<close>

text \<open>
  Claim C10. A call of \<^verbatim>\<open>download_file\<close>, whatever its outcome, leaves the catalog
  as it was (and the node directories too; only the reassembled file in
  \<^verbatim>\<open>temp_downloads\<close> is written or removed). In particular \<^verbatim>\<open>last_accessed\<close> and
  \<^verbatim>\<open>access_count\<close> of every file are what they were, and so is the decision that
  tier migration takes from them.
\<close>

theorem download_file_leaves_catalog:
  "db (snd (download_file L pick filename version st)) = db st \<and>
   fs (snd (download_file L pick filename version st)) = fs st \<and>
   map (\<lambda>m. (m_last_accessed m, m_access_count m))
       (metadata (db (snd (download_file L pick filename version st))))
     = map (\<lambda>m. (m_last_accessed m, m_access_count m)) (metadata (db st)) \<and>
   map (manage_storage_tiers_action now) (metadata (db (snd (download_file L pick filename version st))))
     = map (manage_storage_tiers_action now) (metadata (db st))"
proof -
  have "db (snd (download_file L pick filename version st)) = db st \<and>
        fs (snd (download_file L pick filename version st)) = fs st"
    by (simp add: download_file_def Let_def split: sum.splits prod.splits)
  then show ?thesis by simp
qed

theorem download_file_leaves_catalog_witness:
  "fst (download_file demo_libs (\<lambda>g. 0) ''a'' None state_v2) = Inr ''world!'' \<and>
   db (snd (download_file demo_libs (\<lambda>g. 0) ''a'' None state_v2)) = db state_v2 \<and>
   workdir (snd (download_file demo_libs (\<lambda>g. 0) ''a'' None state_v2))
     = [(''temp_downloads/tmp_a'', ''world!'')]"
proof -
  have "fst (download_file demo_libs (\<lambda>g. 0) ''a'' None state_v2) = Inr ''world!''"
       "workdir (snd (download_file demo_libs (\<lambda>g. 0) ''a'' None state_v2))
          = [(''temp_downloads/tmp_a'', ''world!'')]"
    unfolding state_v2_value by (simp_all add: eval_defs)
  then show ?thesis
    using download_file_leaves_catalog[of demo_libs "\<lambda>g. 0" "''a''" None state_v2] by simp
qed

section \<open>Requests on which a stated property fails\<close>

text \<open>
  An upload with no bytes is accepted and recorded as version 1 with no chunk row; the
  download of that file answers 404 (no chunks found) instead of sending the empty file.
\<close>

theorem empty_upload_download_404:
  "fst (upload_file demo_libs (\<lambda>i. 0) 100 (Some (''e'', [])) init_state) =
     Inr \<lparr>r_filename = ''e'', r_version = 1, r_original_size = 0, r_compressed_size = 0,
          r_storage_nodes = []\<rparr> \<and>
   fst (download_file demo_libs (\<lambda>g. 0) ''e'' None
          (snd (upload_file demo_libs (\<lambda>i. 0) 100 (Some (''e'', [])) init_state))) =
     Inl NoChunksFound404"
  by (simp add: eval_defs)



text \<open>
  A file whose first version has no bytes and whose second version has one byte: both
  uploads and the rollback to version 1 succeed and \<^verbatim>\<open>current_version\<close> is 1, but the
  download that follows answers 404 instead of the (empty) bytes of version 1.
\<close>

definition state_e2 :: state where
  "state_e2 = snd (upload_file demo_libs (\<lambda>i. 1) 200 (Some (''e'', ''x''))
                 (snd (upload_file demo_libs (\<lambda>i. 0) 100 (Some (''e'', [])) init_state)))"

theorem rollback_to_empty_version_download_404:
  "fst (rollback_version ''e'' 1 state_e2) = Inr (RolledBack 2 1) \<and>
   map m_current_version (metadata (db (snd (rollback_version ''e'' 1 state_e2)))) = [1] \<and>
   fst (download_file demo_libs (\<lambda>g. 0) ''e'' None (snd (rollback_version ''e'' 1 state_e2))) =
     Inl NoChunksFound404"
  unfolding state_e2_def by (simp add: eval_defs)

section \<open>The general statements on the sample runs\<close>

lemma demo_libs_contract: "library_contract demo_libs"
  by (simp add: library_contract_def demo_libs_def)

lemma init_state_ok: "catalog_ok (db init_state)"
  by (simp add: catalog_ok_def init_state_def empty_db_def)

theorem upload_version_monotonicity_witness:
  "catalog_ok (db init_state) \<and>
   find (\<lambda>m. m_filename m = ''a'') (metadata (db init_state)) = None \<and>
   upload_all demo_libs ''a'' [(\<lambda>i. 0, 100, ''hello''), (\<lambda>i. 1, 200, ''world!'')] init_state
     = (2, state_v2) \<and>
   (\<exists>m. find (\<lambda>m. m_filename m = ''a'') (metadata (db state_v2)) = Some m \<and>
        m_current_version m = 2 \<and>
        length (filter (\<lambda>v. v_file_id v = m_id m) (versions (db state_v2))) = 2)"
proof -
  have h2: "find (\<lambda>m. m_filename m = ''a'') (metadata (db init_state)) = None"
    by (simp add: init_state_def empty_db_def)
  have "upload_all demo_libs ''a'' [(\<lambda>i. 0, 100, ''hello''), (\<lambda>i. 1, 200, ''world!'')] init_state
              = (Suc (Suc 0), state_v2)"
    by (simp only: upload_all.simps run_v1 run_v2[unfolded state_v1_value] state_v2_value
          prod.case sum.case)
  then have h3: "upload_all demo_libs ''a'' [(\<lambda>i. 0, 100, ''hello''), (\<lambda>i. 1, 200, ''world!'')] init_state
              = (2, state_v2)"
    by (simp only: numeral_2_eq_2)
  have h4: "(1::nat) \<le> 2" by simp
  from upload_version_monotonicity[OF init_state_ok h2 h3 h4] init_state_ok h2 h3
  show ?thesis by (simp only: simp_thms)
qed

theorem upload_download_round_trip_witness:
  "library_contract demo_libs \<and> catalog_ok (db init_state) \<and>
   fst (upload_file demo_libs (\<lambda>i. 0) 100 (Some (''a'', ''hello'')) init_state) =
     Inr \<lparr>r_filename = ''a'', r_version = 1, r_original_size = 5, r_compressed_size = 7,
          r_storage_nodes = [''Node1'', ''Node2'', ''Node3'']\<rparr> \<and>
   snd (upload_file demo_libs (\<lambda>i. 0) 100 (Some (''a'', ''hello'')) init_state) = state_v1 \<and>
   fst (download_file demo_libs (\<lambda>g. 0) ''a'' None state_v1) = Inr ''hello''"
proof -
  have run: "upload_file demo_libs (\<lambda>i. 0) 100 (Some (''a'', ''hello'')) init_state =
     (Inr \<lparr>r_filename = ''a'', r_version = 1, r_original_size = 5, r_compressed_size = 7,
           r_storage_nodes = [''Node1'', ''Node2'', ''Node3'']\<rparr>, state_v1)"
    by (simp add: run_v1 state_v1_value)
  have ne: "''hello'' \<noteq> []" by simp
  from upload_download_round_trip[OF demo_libs_contract init_state_ok run ne, of "\<lambda>g. 0"]
    demo_libs_contract init_state_ok run
  show ?thesis by simp
qed

lemma demo_libs_digest_inj: "inj (sha256_hexdigest demo_libs)"
  by (simp add: demo_libs_def inj_def)

lemma rollback_with_replicas_sample_run:
  "replicated (metadata_seq (db init_state) + 1) 1 (db state_v1) \<and>
   fst (rollback_version ''a'' 1 state_v2) = Inr (RolledBack 2 1) \<and>
   fst (download_file demo_libs (\<lambda>g. 0) ''a'' None (snd (rollback_version ''a'' 1 state_v2)))
     = Inr ''hello'' \<and>
   fst (rollback_version ''a'' 2
          (snd (download_file demo_libs (\<lambda>g. 0) ''a'' None (snd (rollback_version ''a'' 1 state_v2)))))
     = Inr (RolledBack 1 2) \<and>
   fst (download_file demo_libs (\<lambda>g. 0) ''a'' None
          (snd (rollback_version ''a'' 2
             (snd (download_file demo_libs (\<lambda>g. 0) ''a'' None
                (snd (rollback_version ''a'' 1 state_v2)))))))
     = Inr ''world!''"
proof -
  have slash: "CHR ''/'' \<notin> set (secure_filename demo_libs ''a'')"
    by (simp add: demo_libs_def)
  have unseen: "find (\<lambda>m. m_filename m = ''a'') (metadata (db init_state)) = None"
    by (simp add: init_state_def empty_db_def)
  have run1: "upload_file demo_libs (\<lambda>i. 0) 100 (Some (''a'', ''hello'')) init_state =
     (Inr \<lparr>r_filename = ''a'', r_version = 1, r_original_size = 5, r_compressed_size = 7,
           r_storage_nodes = [''Node1'', ''Node2'', ''Node3'']\<rparr>, state_v1)"
    by (simp add: run_v1 state_v1_value)
  have run2: "upload_file demo_libs (\<lambda>i. 1) 200 (Some (''a'', ''world!'')) state_v1 =
     (Inr \<lparr>r_filename = ''a'', r_version = 2, r_original_size = 6, r_compressed_size = 8,
           r_storage_nodes = [''Node1'']\<rparr>, state_v2)"
    by (simp only: run_v2 state_v2_value)
  have ne1: "''hello'' \<noteq> []" and ne2: "''world!'' \<noteq> []" by simp_all
  have rep: "replicated (metadata_seq (db init_state) + 1) 1 (db state_v1)"
    unfolding state_v1_value by (simp add: replicated_def init_state_def empty_db_def)
  have rb1: "rollback_version ''a'' 1 state_v2
               = (fst (rollback_version ''a'' 1 state_v2), snd (rollback_version ''a'' 1 state_v2))"
    by simp
  have rb2: "rollback_version ''a'' 2
               (snd (download_file demo_libs (\<lambda>g. 0) ''a'' None (snd (rollback_version ''a'' 1 state_v2))))
             = (fst (rollback_version ''a'' 2
                  (snd (download_file demo_libs (\<lambda>g. 0) ''a'' None (snd (rollback_version ''a'' 1 state_v2))))),
                snd (rollback_version ''a'' 2
                  (snd (download_file demo_libs (\<lambda>g. 0) ''a'' None (snd (rollback_version ''a'' 1 state_v2))))))"
    by simp
  from rollback_with_replicas[OF demo_libs_contract demo_libs_digest_inj slash init_state_ok unseen
         run1 run2 ne1 ne2 rep rb1 rb2, of "\<lambda>g. 0"] rep
  show ?thesis by blast
qed



end
